theory Spec2Isabelle
  imports Main "HOL-Library.Word"
begin

section \<open>Diagnostics\<close>

text \<open>
  Diagnostics are appended to a sink owned by a scope (\<open>scope.addDiag(code, location) << arg << ...\<close>).
  The sink is modelled by explicit state passing: every operation takes the list of
  diagnostics issued so far and returns the extended list. A diagnostic keeps its code and
  the arguments streamed into it; source locations and attached notes are not modelled.
\<close>

datatype DiagCode =
    UnknownMember
  | NotAModport
  | UnknownModule
  | MixingOrderedAndNamedParams
  | DuplicateParamAssignment
  | TooManyParamAssignments
  | AssignedToLocalPortParam
  | AssignedToLocalBodyParam
  | ParameterDoesNotExist
  | ParamHasNoValue
  | BadTypeParamExpr
  | MaxInstanceDepthExceeded
  | FormatNoArgument
  | FormatTooManyArgs
  | FormatRealInt
  | FormatMismatchedType
  | FormatParseError
  | ExpectedClosingQuote
  | OctalEscapeCodeTooBig
  | InvalidHexEscapeCode
  | UnknownEscapeCode

datatype DiagArg = Text string | Number nat

datatype Diagnostic = Diag (diagCode: DiagCode) (diagArgs: "DiagArg list")

definition countDiags :: "DiagCode \<Rightarrow> Diagnostic list \<Rightarrow> nat" where
  "countDiags c ds = length (filter (\<lambda>d. diagCode d = c) ds)"

section \<open>Symbols\<close>

datatype SymbolKind =
    Definition
  | ModuleInstance
  | InterfaceInstance
  | ProgramInstance
  | InstanceArray
  | Parameter
  | TypeParameter
  | Variable
  | Net
  | Port
  | Modport
  | Subroutine
  | CompilationUnit
  | Root
  | GenerateBlock

text \<open>The common header of a symbol found by name in a scope: its kind and its name.\<close>

record SymbolHeader =
  kind :: SymbolKind
  symbolName :: string

section \<open>\<open>DefinitionSymbol::getModportOrError\<close>\<close>

text \<open>
  \<open>Scope::find\<close> is not part of the sources at hand; the name index of the definition is
  taken as a parameter \<open>findMember\<close>, a partial map from names to member symbols. \<open>defName\<close> is
  \<open>this->name\<close>. A null pointer result is \<open>None\<close>.
\<close>

definition getModportOrError ::
  "(string \<rightharpoonup> SymbolHeader) \<Rightarrow> string \<Rightarrow> string \<Rightarrow> Diagnostic list
     \<Rightarrow> SymbolHeader option \<times> Diagnostic list" where
  "getModportOrError findMember defName modport diags =
     (if modport = [] then (None, diags)
      else (case findMember modport of
              None \<Rightarrow> (None, diags @ [Diag UnknownMember [Text modport, Text defName]])
            | Some symbol \<Rightarrow>
                if kind symbol \<noteq> Modport
                then (None, diags @ [Diag NotAModport [Text modport]])
                else (Some symbol, diags)))"

definition modportIndex :: "string \<rightharpoonup> SymbolHeader" where
  "modportIndex = [''mp'' \<mapsto> \<lparr>kind = Modport, symbolName = ''mp''\<rparr>,
                   ''v'' \<mapsto> \<lparr>kind = Variable, symbolName = ''v''\<rparr>]"

section \<open>\<open>SystemSubroutine::checkFormatValues\<close>\<close>

text \<open>
  The arguments of a system subroutine call are bound expressions. Of an expression this
  function reads its kind, its type and, for a string literal, its raw text (quotes
  included). The type system is not part of the sources at hand: the type of an expression
  is a type parameter \<open>'ty\<close>.
\<close>

datatype ExpressionKind =
    InvalidExpression
  | IntegerLiteral
  | RealLiteral
  | StringLiteral
  | NamedValue
  | EmptyArgument
  | OtherExpression

record 'ty Expression =
  exprKind :: ExpressionKind
  exprType :: 'ty
  rawValue :: string

record 'a FormatArg =
  fmtType :: 'a
  spec :: string

text \<open>
  \<open>SFormat::parseArgs\<close>, \<open>SFormat::isArgTypeValid\<close> and \<open>SFormat::isRealToInt\<close> are declared in
  \<open>slang/text/SFormat.h\<close>, which is not part of the sources at hand; they are parameters.
  \<open>parseArgs fmt\<close> returns the success flag, the specifiers appended to \<open>specs\<close> and the
  diagnostics appended to the local \<open>diags\<close>.
\<close>

record ('a, 'ty) SFormat =
  parseArgs :: "string \<Rightarrow> bool \<times> 'a FormatArg list \<times> Diagnostic list"
  isArgTypeValid :: "'a \<Rightarrow> 'ty \<Rightarrow> bool"
  isRealToInt :: "'a \<Rightarrow> 'ty \<Rightarrow> bool"

text \<open>\<open>if (fmt.length() >= 2) fmt = fmt.substr(1, fmt.length() - 2);\<close>\<close>

definition stripQuotes :: "string \<Rightarrow> string" where
  "stripQuotes fmt = (if length fmt \<ge> 2 then take (length fmt - 2) (drop 1 fmt) else fmt)"

text \<open>
  The loop \<open>for (auto& fmtArg : specs)\<close> with its variables \<open>ok\<close> and \<open>argIndex\<close> and the
  diagnostics of the context.
\<close>

fun checkSpecs ::
  "('a, 'ty) SFormat \<Rightarrow> 'ty Expression list \<Rightarrow> 'a FormatArg list
     \<Rightarrow> bool \<times> nat \<times> Diagnostic list \<Rightarrow> bool \<times> nat \<times> Diagnostic list" where
  "checkSpecs sf args [] st = st"
| "checkSpecs sf args (fmtArg # specs) (ok, argIndex, diags) =
     (if argIndex \<ge> length args
      then checkSpecs sf args specs
             (False, argIndex, diags @ [Diag FormatNoArgument [Text (spec fmtArg)]])
      else if \<not> isArgTypeValid sf (fmtType fmtArg) (exprType (args ! argIndex))
      then (if isRealToInt sf (fmtType fmtArg) (exprType (args ! argIndex))
            then checkSpecs sf args specs
                   (ok, argIndex + 1, diags @ [Diag FormatRealInt [Text (spec fmtArg)]])
            else checkSpecs sf args specs
                   (False, argIndex + 1, diags @ [Diag FormatMismatchedType [Text (spec fmtArg)]]))
      else checkSpecs sf args specs (ok, argIndex + 1, diags))"

text \<open>
  \<open>args[0]\<close> is read without a check: on an empty argument list the behaviour is undefined,
  which the model records as \<open>None\<close>. The diagnostics that \<open>parseArgs\<close> collected are added
  to the scope only when it fails.
\<close>

definition checkFormatValues ::
  "('a, 'ty) SFormat \<Rightarrow> 'ty Expression list \<Rightarrow> Diagnostic list
     \<Rightarrow> (bool \<times> Diagnostic list) option" where
  "checkFormatValues sf args diags =
     (case args of
        [] \<Rightarrow> None
      | lit # _ \<Rightarrow>
          if exprKind lit \<noteq> StringLiteral then Some (True, diags)
          else (case parseArgs sf (stripQuotes (rawValue lit)) of
                  (parsed, specs, parseDiags) \<Rightarrow>
                    if \<not> parsed then Some (False, diags @ parseDiags)
                    else (case checkSpecs sf args specs (True, 1, diags) of
                            (ok, argIndex, diags') \<Rightarrow>
                              if argIndex < length args
                              then Some (False, diags' @ [Diag FormatTooManyArgs []])
                              else Some (ok, diags'))))"

text \<open>An instance of the format functions and a few arguments, to evaluate the check on.\<close>

definition exampleSFormat :: "(nat, nat) SFormat" where
  "exampleSFormat =
     \<lparr>parseArgs = (\<lambda>fmt. if fmt = ''%d %s''
                          then (True, [\<lparr>fmtType = 0, spec = ''d''\<rparr>, \<lparr>fmtType = 1, spec = ''s''\<rparr>], [])
                          else (False, [], [Diag FormatParseError [Text fmt]])),
      isArgTypeValid = (\<lambda>t ty. t = ty),
      isRealToInt = (\<lambda>t ty. False)\<rparr>"

definition formatLiteral :: "nat Expression" where
  "formatLiteral = \<lparr>exprKind = StringLiteral, exprType = 1, rawValue = ''\"%d %s\"''\<rparr>"

definition badLiteral :: "nat Expression" where
  "badLiteral = \<lparr>exprKind = StringLiteral, exprType = 1, rawValue = ''\"%q\"''\<rparr>"

definition intArg :: "nat Expression" where
  "intArg = \<lparr>exprKind = IntegerLiteral, exprType = 0, rawValue = ''7''\<rparr>"

definition strArg :: "nat Expression" where
  "strArg = \<lparr>exprKind = NamedValue, exprType = 1, rawValue = ''s''\<rparr>"

section \<open>Instance elaboration: syntax and symbols\<close>

text \<open>
  The functions of \<open>DefinitionSymbols.cpp\<close> read syntax nodes and create symbols. A syntax
  node is modelled by the parts these functions read. Four ways of leaving a function
  other than by returning are values of the type \<open>error\<close>: \<open>THROW_UNREACHABLE\<close>, a failed
  \<open>ASSERT\<close>, the overflow of a signed loop counter (undefined behaviour), and the exhaustion
  of the fuel that bounds the recursion of the elaboration driver.
\<close>

datatype error = Unreachable | AssertionFailed | SignedOverflow | OutOfFuel

text \<open>A sequence of calls of which the first failure ends the whole sequence.\<close>

fun sequenceResults :: "(error + 'a) list \<Rightarrow> error + 'a list" where
  "sequenceResults [] = Inr []"
| "sequenceResults (r # rs) =
     (case r of
        Inl e \<Rightarrow> Inl e
      | Inr x \<Rightarrow> (case sequenceResults rs of Inl e \<Rightarrow> Inl e | Inr xs \<Rightarrow> Inr (x # xs)))"

text \<open>
  An expression syntax node: whether \<open>NameSyntax::isKind\<close> or \<open>DataTypeSyntax::isKind\<close> holds of
  its kind, and its text.
\<close>

datatype SyntaxClass = NameSyntax | DataTypeSyntax | OtherExpressionSyntax

record ExpressionSyntax =
  syntaxClass :: SyntaxClass
  exprText :: string

text \<open>
  A parameter assignment is an \<open>OrderedArgumentSyntax\<close> (its \<open>expr\<close>) or a
  \<open>NamedArgumentSyntax\<close> (the value text of its \<open>name\<close>, and its \<open>expr\<close>, which may be null).
\<close>

datatype ParamAssignmentSyntax =
    OrderedArgument ExpressionSyntax
  | NamedArgument string "ExpressionSyntax option"

datatype PortConnectionSyntax =
    OrderedPortConnection "ExpressionSyntax option"
  | NamedPortConnection string "ExpressionSyntax option"
  | WildcardPortConnection

text \<open>
  \<open>HierarchicalInstanceSyntax\<close>: the value text of \<open>name\<close>, the \<open>dimensions\<close> (each a
  \<open>VariableDimensionSyntax\<close>, kept as its text) and the \<open>connections\<close>.
\<close>

record HierarchicalInstanceSyntax =
  instanceName :: string
  dimensions :: "string list"
  connections :: "PortConnectionSyntax list"

text \<open>
  \<open>HierarchyInstantiationSyntax\<close>: the value text of \<open>type\<close>, the list
  \<open>parameters->assignments->parameters\<close> (\<open>None\<close> when \<open>parameters\<close> is null) and the
  \<open>instances\<close>.
\<close>

record HierarchyInstantiationSyntax =
  typeName :: string
  parameterAssignments :: "ParamAssignmentSyntax list option"
  instances :: "HierarchicalInstanceSyntax list"

text \<open>Of a parameter declaration in a module body, \<open>populate\<close> reads the declarators' names.\<close>

datatype ParameterDeclarationBaseSyntax =
    ParameterDeclaration (declarators: "string list")
  | TypeParameterDeclaration (declarators: "string list")

datatype MemberSyntax =
    TimeUnitsDeclaration
  | ParameterDeclarationStatement ParameterDeclarationBaseSyntax
  | HierarchyInstantiation HierarchyInstantiationSyntax
  | OtherMember string

text \<open>\<open>ModuleDeclarationSyntax\<close>: \<open>header->imports\<close>, \<open>header->ports\<close> and \<open>members\<close>.\<close>

record ModuleDeclarationSyntax =
  headerImports :: "string list"
  headerPorts :: "string option"
  members :: "MemberSyntax list"

text \<open>
  A parameter symbol (\<open>ParameterSymbolBase\<close> with its \<open>symbol\<close>): the kind of the symbol
  (\<open>Parameter\<close> for a value parameter, \<open>TypeParameter\<close> otherwise), its name, the two flags,
  and the syntax its value comes from: the initializer of a value parameter, the type syntax
  of a type parameter (\<open>None\<close> when the declaration gives none). The classes \<open>DeclaredType\<close>
  and \<open>ParameterSymbol\<close> are not part of the sources at hand; of the declared type the model
  keeps which of the calls \<open>clearResolved\<close>, \<open>resolveAt(context)\<close> and \<open>setType\<close> was made last.
\<close>

datatype Resolution =
    AsDeclared
  | Cleared
  | ResolvedInContext
  | TypeFromName ExpressionSyntax
  | TypeFromDataType ExpressionSyntax

record ParameterSymbolBase =
  paramKind :: SymbolKind
  paramName :: string
  isLocalParam :: bool
  isPortParam :: bool
  initializer :: "ExpressionSyntax option"
  resolution :: Resolution

text \<open>\<open>clone\<close> copies a parameter symbol: the copy has the fields of the original.\<close>

definition clone :: "ParameterSymbolBase \<Rightarrow> ParameterSymbolBase" where
  "clone p = p"

datatype DefinitionKind = Module | Interface | Program | Package

datatype NetType = ErrorNetType | Wire | Tri | WAnd | WOr | UWire

definition isError :: "NetType \<Rightarrow> bool" where
  "isError nt = (nt = ErrorNetType)"

datatype DataType = LogicType | ErrorType

record DefinitionSymbol =
  definitionName :: string
  definitionKind :: DefinitionKind
  definitionNetType :: NetType
  parameters :: "ParameterSymbolBase list"
  declSyntax :: ModuleDeclarationSyntax

text \<open>
  \<open>ConstantRange\<close> and \<open>EvaluatedDimension\<close> are not part of the sources at hand. Of a range
  the code reads \<open>lower()\<close> and \<open>upper()\<close>, of an evaluated dimension \<open>isRange()\<close> and \<open>range\<close>.
  \<open>ConstantRange()\<close>, the range of the placeholder array, has both bounds zero.
\<close>

record ConstantRange =
  lower :: int
  upper :: int

record EvaluatedDimension =
  isRange :: bool
  dimRange :: ConstantRange

definition rangeSize :: "ConstantRange \<Rightarrow> nat" where
  "rangeSize r = nat (upper r - lower r + 1)"

text \<open>
  The scope that holds the instantiation, as a symbol with its chain of parents
  (\<open>scope.asSymbol()\<close>, \<open>getParentScope()\<close>): the kind of the symbol, its \<open>hierarchyDepth\<close> (read
  only when the kind is an instance kind), the result of \<open>getDefaultNetType()\<close> and the parent.
\<close>

datatype Scope =
  Scope (scopeKind: SymbolKind) (scopeHierarchyDepth: "32 word") (defaultNetType: NetType)
        (parentScope: "Scope option")

text \<open>
  What the functions use of the compilation and of the bind context, none of it part of the
  sources at hand: \<open>Compilation::getDefinition\<close>, the option \<open>maxInstanceDepth\<close> (a
  \<open>uint32_t\<close>), \<open>BindContext::evalDimension\<close> and \<open>Expression::findPotentiallyImplicitNets\<close>
  (the value texts of the tokens it appends). The bind context is built from the scope, so
  the last two take the scope.
\<close>

record Compilation =
  getDefinition :: "string \<Rightarrow> Scope \<Rightarrow> DefinitionSymbol option"
  maxInstanceDepth :: "32 word"
  evalDimension :: "Scope \<Rightarrow> string \<Rightarrow> EvaluatedDimension"
  findPotentiallyImplicitNets :: "Scope \<Rightarrow> ExpressionSyntax \<Rightarrow> string list"

text \<open>
  The members of an instance, in the order \<open>populate\<close> adds them: syntax added by
  \<open>addMembers\<close> is realised lazily and is kept as syntax; parameters are added as symbols.
\<close>

datatype Member =
    ImportMember string
  | ParameterMember ParameterSymbolBase
  | PortsMember string
  | DeferredMember MemberSyntax

record InstanceSymbol =
  instanceKind :: SymbolKind
  instanceSymbolName :: string
  definitionOf :: DefinitionSymbol
  hierarchyDepth :: "32 word"
  arrayPath :: "int list"
  instanceMembers :: "Member list"
  portConnections :: "PortConnectionSyntax list option"

text \<open>
  The symbols \<open>InstanceSymbol::fromSyntax\<close> appends to \<open>results\<close>: instances, instance arrays
  (name, elements, range) and implicit nets (name, net type, data type).
\<close>

datatype Symbol =
    InstanceSym InstanceSymbol
  | InstanceArraySym string "Symbol list" ConstantRange
  | NetSym string NetType DataType

text \<open>\<open>symbol->name = ...\<close>\<close>

fun setName :: "string \<Rightarrow> Symbol \<Rightarrow> Symbol" where
  "setName n (InstanceSym i) = InstanceSym (i\<lparr>instanceSymbolName := n\<rparr>)"
| "setName n (InstanceArraySym old es r) = InstanceArraySym n es r"
| "setName n (NetSym old nt t) = NetSym n nt t"

section \<open>\<open>InstanceSymbol::populate\<close> and \<open>createInstance\<close>\<close>

text \<open>
  The inner loops of \<open>populate\<close> over the declarators of one parameter declaration of the
  body: each takes the next parameter at \<open>paramIt\<close>, asserts that there is one and that it
  has the declarator's name, and adds a clone of it.
\<close>

fun addDeclarators ::
  "string list \<Rightarrow> ParameterSymbolBase list \<Rightarrow> Member list
     \<Rightarrow> error + (ParameterSymbolBase list \<times> Member list)" where
  "addDeclarators [] paramIt ms = Inr (paramIt, ms)"
| "addDeclarators (declarator # ds) paramIt ms =
     (case paramIt of
        [] \<Rightarrow> Inl AssertionFailed
      | p # rest \<Rightarrow>
          if declarator \<noteq> paramName p then Inl AssertionFailed
          else addDeclarators ds rest (ms @ [ParameterMember (clone p)]))"

text \<open>The loop \<open>for (auto member : declSyntax.members)\<close>.\<close>

fun addBodyMembers ::
  "MemberSyntax list \<Rightarrow> ParameterSymbolBase list \<Rightarrow> Member list \<Rightarrow> error + Member list" where
  "addBodyMembers [] paramIt ms = Inr ms"
| "addBodyMembers (ParameterDeclarationStatement paramBase # rest) paramIt ms =
     (case addDeclarators (declarators paramBase) paramIt ms of
        Inl e \<Rightarrow> Inl e
      | Inr (paramIt', ms') \<Rightarrow> addBodyMembers rest paramIt' ms')"
| "addBodyMembers (member # rest) paramIt ms =
     addBodyMembers rest paramIt (ms @ [DeferredMember member])"

text \<open>
  \<open>populate\<close>: the imports of the header, clones of the leading port parameters (the
  \<open>while\<close> loop stops at the first parameter that is not a port parameter), the ports, the
  port connections when there is an instance syntax, and the members of the body.
\<close>

definition populate ::
  "DefinitionSymbol \<Rightarrow> HierarchicalInstanceSyntax option \<Rightarrow> ParameterSymbolBase list
     \<Rightarrow> InstanceSymbol \<Rightarrow> error + InstanceSymbol" where
  "populate defn instanceSyntax params inst =
     (let ms1 = map ImportMember (headerImports (declSyntax defn));
          ms2 = ms1 @ map (\<lambda>p. ParameterMember (clone p)) (takeWhile isPortParam params);
          paramIt = dropWhile isPortParam params;
          ms3 = (case headerPorts (declSyntax defn) of
                   None \<Rightarrow> ms2
                 | Some ports \<Rightarrow> ms2 @ [PortsMember ports]);
          conns = (case instanceSyntax of None \<Rightarrow> None | Some s \<Rightarrow> Some (connections s))
      in case addBodyMembers (members (declSyntax defn)) paramIt ms3 of
           Inl e \<Rightarrow> Inl e
         | Inr ms \<Rightarrow> Inr (inst\<lparr>instanceMembers := ms, portConnections := conns\<rparr>))"

text \<open>The constructor of \<open>InstanceSymbol\<close>.\<close>

definition newInstance ::
  "SymbolKind \<Rightarrow> string \<Rightarrow> DefinitionSymbol \<Rightarrow> 32 word \<Rightarrow> InstanceSymbol" where
  "newInstance k n defn depth =
     \<lparr>instanceKind = k, instanceSymbolName = n, definitionOf = defn,
      hierarchyDepth = depth, arrayPath = [], instanceMembers = [], portConnections = None\<rparr>"

text \<open>
  \<open>ModuleInstanceSymbol::instantiate(compilation, name, loc, definition)\<close>, which creates a
  top-level instance at depth 0 with the parameters of the definition.
\<close>

definition instantiateTop :: "string \<Rightarrow> DefinitionSymbol \<Rightarrow> error + InstanceSymbol" where
  "instantiateTop n defn =
     populate defn None (parameters defn) (newInstance ModuleInstance n defn 0)"

text \<open>
  The three functions \<open>instantiate(compilation, syntax, definition, parameters,
  hierarchyDepth)\<close> of the module, program and interface instance symbols differ in the kind
  of the symbol they create, which is the first argument here.
\<close>

definition instantiate ::
  "SymbolKind \<Rightarrow> HierarchicalInstanceSyntax \<Rightarrow> DefinitionSymbol \<Rightarrow> ParameterSymbolBase list
     \<Rightarrow> 32 word \<Rightarrow> error + InstanceSymbol" where
  "instantiate k syn defn params depth =
     populate defn (Some syn) params (newInstance k (instanceName syn) defn depth)"

text \<open>\<open>createInstance\<close>; attributes are not modelled.\<close>

definition createInstance ::
  "DefinitionSymbol \<Rightarrow> HierarchicalInstanceSyntax \<Rightarrow> ParameterSymbolBase list \<Rightarrow> int list
     \<Rightarrow> 32 word \<Rightarrow> error + Symbol" where
  "createInstance defn syn params path depth =
     (case (case definitionKind defn of
              Module \<Rightarrow> instantiate ModuleInstance syn defn params depth
            | Interface \<Rightarrow> instantiate InterfaceInstance syn defn params depth
            | Program \<Rightarrow> instantiate ProgramInstance syn defn params depth
            | Package \<Rightarrow> Inl Unreachable) of
        Inl e \<Rightarrow> Inl e
      | Inr inst \<Rightarrow> Inr (InstanceSym (inst\<lparr>arrayPath := path\<rparr>)))"

section \<open>\<open>recurseInstanceArray\<close>\<close>

definition INT32_MAX :: int where
  "INT32_MAX = 2147483647"

text \<open>
  The dimensions from \<open>it\<close> to \<open>end\<close> are the list argument; \<open>path\<close> is appended to before
  and popped after each recursive call, so the call gets \<open>path @ [i]\<close>. The loop
  \<open>for (int32_t i = range.lower(); i <= range.upper(); i++)\<close> runs its body for the indices
  \<open>[lower..upper]\<close>; when it has run for \<open>i = INT32_MAX\<close> the increment overflows.
\<close>

fun recurseInstanceArray ::
  "Compilation \<Rightarrow> DefinitionSymbol \<Rightarrow> HierarchicalInstanceSyntax \<Rightarrow> ParameterSymbolBase list
     \<Rightarrow> Scope \<Rightarrow> string list \<Rightarrow> int list \<Rightarrow> 32 word \<Rightarrow> error + Symbol" where
  "recurseInstanceArray compilation defn syn params scope [] path depth =
     createInstance defn syn params path depth"
| "recurseInstanceArray compilation defn syn params scope (it # rest) path depth =
     (let dim = evalDimension compilation scope it in
      if \<not> isRange dim
      then Inr (InstanceArraySym (instanceName syn) [] \<lparr>lower = 0, upper = 0\<rparr>)
      else (case sequenceResults
                   (map (\<lambda>i. recurseInstanceArray compilation defn syn params scope rest
                                (path @ [i]) depth)
                        [lower (dimRange dim)..upper (dimRange dim)]) of
              Inl e \<Rightarrow> Inl e
            | Inr elements \<Rightarrow>
                if lower (dimRange dim) \<le> upper (dimRange dim) \<and> upper (dimRange dim) = INT32_MAX
                then Inl SignedOverflow
                else Inr (InstanceArraySym (instanceName syn) (map (setName []) elements)
                            (dimRange dim))))"

text \<open>
  The concrete instances under a symbol, the arrays without elements under it, and the
  index vectors of a list of ranges, outermost dimension first.
\<close>

fun leaves :: "Symbol \<Rightarrow> InstanceSymbol list" where
  "leaves (InstanceSym i) = [i]"
| "leaves (InstanceArraySym n es r) = concat (map leaves es)"
| "leaves (NetSym n nt t) = []"

fun placeholders :: "Symbol \<Rightarrow> nat" where
  "placeholders (InstanceSym i) = 0"
| "placeholders (InstanceArraySym n es r) = (if es = [] then 1 else sum_list (map placeholders es))"
| "placeholders (NetSym n nt t) = 0"

fun indexPaths :: "ConstantRange list \<Rightarrow> int list list" where
  "indexPaths [] = [[]]"
| "indexPaths (r # rs) = concat (map (\<lambda>i. map ((#) i) (indexPaths rs)) [lower r..upper r])"

section \<open>\<open>InstanceSymbol::fromSyntax\<close>\<close>

subsection \<open>Parameter assignments\<close>

text \<open>
  The variables of the first loop. \<open>namedParams\<close> maps a name to the argument and the flag
  that marks it used; it is a hash map in the source, and is kept here as an association
  list in the order of insertion, which is also the order the model iterates it in.
\<close>

record ParamAssignments =
  hasParamAssignments :: bool
  orderedAssignments :: bool
  orderedParams :: "ExpressionSyntax list"
  namedParams :: "(string \<times> ExpressionSyntax option \<times> bool) list"

definition noParamAssignments :: ParamAssignments where
  "noParamAssignments =
     \<lparr>hasParamAssignments = False, orderedAssignments = True, orderedParams = [], namedParams = []\<rparr>"

fun isOrderedArgument :: "ParamAssignmentSyntax \<Rightarrow> bool" where
  "isOrderedArgument (OrderedArgument e) = True"
| "isOrderedArgument (NamedArgument n e) = False"

text \<open>
  The loop over \<open>syntax.parameters->assignments->parameters\<close>. The first assignment fixes
  the form; an assignment of the other form is diagnosed and ends the loop (\<open>break\<close>). A
  named assignment with an empty name is skipped, a repeated name is diagnosed and the first
  assignment to it is kept.
\<close>

fun collectParams ::
  "ParamAssignmentSyntax list \<Rightarrow> ParamAssignments \<Rightarrow> Diagnostic list
     \<Rightarrow> ParamAssignments \<times> Diagnostic list" where
  "collectParams [] st diags = (st, diags)"
| "collectParams (paramBase # rest) st diags =
     (let isOrdered = isOrderedArgument paramBase in
      if hasParamAssignments st \<and> isOrdered \<noteq> orderedAssignments st
      then (st, diags @ [Diag MixingOrderedAndNamedParams []])
      else
        (let st1 = (if hasParamAssignments st then st
                    else st\<lparr>hasParamAssignments := True, orderedAssignments := isOrdered\<rparr>)
         in case paramBase of
              OrderedArgument e \<Rightarrow>
                collectParams rest (st1\<lparr>orderedParams := orderedParams st1 @ [e]\<rparr>) diags
            | NamedArgument n e \<Rightarrow>
                if n \<noteq> []
                then (case map_of (namedParams st1) n of
                        None \<Rightarrow>
                          collectParams rest
                            (st1\<lparr>namedParams := namedParams st1 @ [(n, e, False)]\<rparr>) diags
                      | Some previous \<Rightarrow>
                          collectParams rest st1
                            (diags @ [Diag DuplicateParamAssignment [Text n]]))
                else collectParams rest st1 diags))"

text \<open>\<open>paramOverrides.emplace(k, v)\<close> inserts only when the key is absent.\<close>

definition emplace :: "('k \<rightharpoonup> 'v) \<Rightarrow> 'k \<Rightarrow> 'v \<Rightarrow> ('k \<rightharpoonup> 'v)" where
  "emplace m k v = (if m k = None then m(k \<mapsto> v) else m)"

text \<open>
  Ordered assignments: the loop over the parameters of the definition stops when the
  assignments are used up and passes over local parameters (\<open>continue\<close>).
\<close>

fun assignOrdered ::
  "ParameterSymbolBase list \<Rightarrow> ExpressionSyntax list \<Rightarrow> nat \<Rightarrow> (string \<rightharpoonup> ExpressionSyntax)
     \<Rightarrow> nat \<times> (string \<rightharpoonup> ExpressionSyntax)" where
  "assignOrdered [] ordered orderedIndex paramOverrides = (orderedIndex, paramOverrides)"
| "assignOrdered (param # rest) ordered orderedIndex paramOverrides =
     (if orderedIndex \<ge> length ordered then (orderedIndex, paramOverrides)
      else if isLocalParam param then assignOrdered rest ordered orderedIndex paramOverrides
      else assignOrdered rest ordered (orderedIndex + 1)
             (emplace paramOverrides (paramName param) (ordered ! orderedIndex)))"

text \<open>\<open>it->second.second = true\<close> for the entry of a name.\<close>

fun markUsed ::
  "string \<Rightarrow> (string \<times> ExpressionSyntax option \<times> bool) list
     \<Rightarrow> (string \<times> ExpressionSyntax option \<times> bool) list" where
  "markUsed n [] = []"
| "markUsed n ((k, arg, used) # rest) =
     (if k = n then (k, arg, True) # rest else (k, arg, used) # markUsed n rest)"

text \<open>
  Named assignments: each parameter of the definition that has an entry marks it used; a
  local parameter is diagnosed, an argument without expression leaves the default.
\<close>

fun assignNamed ::
  "ParameterSymbolBase list \<Rightarrow> (string \<times> ExpressionSyntax option \<times> bool) list
     \<Rightarrow> (string \<rightharpoonup> ExpressionSyntax) \<Rightarrow> Diagnostic list
     \<Rightarrow> (string \<times> ExpressionSyntax option \<times> bool) list \<times> (string \<rightharpoonup> ExpressionSyntax)
         \<times> Diagnostic list" where
  "assignNamed [] named paramOverrides diags = (named, paramOverrides, diags)"
| "assignNamed (param # rest) named paramOverrides diags =
     (case map_of named (paramName param) of
        None \<Rightarrow> assignNamed rest named paramOverrides diags
      | Some (arg, used) \<Rightarrow>
          (let named1 = markUsed (paramName param) named in
           if isLocalParam param
           then assignNamed rest named1 paramOverrides
                  (diags @ [Diag (if isPortParam param then AssignedToLocalPortParam
                                  else AssignedToLocalBodyParam) []])
           else (case arg of
                   None \<Rightarrow> assignNamed rest named1 paramOverrides diags
                 | Some e \<Rightarrow>
                     assignNamed rest named1 (emplace paramOverrides (paramName param) e) diags)))"

text \<open>The loop over \<open>namedParams\<close> that diagnoses every entry left unused.\<close>

definition unusedDiags ::
  "string \<Rightarrow> (string \<times> ExpressionSyntax option \<times> bool) list \<Rightarrow> Diagnostic list" where
  "unusedDiags defName named =
     map (\<lambda>(n, arg, used). Diag ParameterDoesNotExist [Text n, Text defName])
         (filter (\<lambda>(n, arg, used). \<not> used) named)"

text \<open>The block \<open>if (syntax.parameters) { ... }\<close>, which builds \<open>paramOverrides\<close>.\<close>

definition buildParamOverrides ::
  "DefinitionSymbol \<Rightarrow> ParamAssignmentSyntax list option \<Rightarrow> Diagnostic list
     \<Rightarrow> (string \<rightharpoonup> ExpressionSyntax) \<times> Diagnostic list" where
  "buildParamOverrides defn assignments diags =
     (case assignments of
        None \<Rightarrow> (Map.empty, diags)
      | Some ps \<Rightarrow>
          (case collectParams ps noParamAssignments diags of
             (st, diags1) \<Rightarrow>
               if orderedAssignments st
               then (case assignOrdered (parameters defn) (orderedParams st) 0 Map.empty of
                       (orderedIndex, paramOverrides) \<Rightarrow>
                         (paramOverrides,
                          if orderedIndex < length (orderedParams st)
                          then diags1 @ [Diag TooManyParamAssignments
                                           [Text (definitionName defn),
                                            Number (length (orderedParams st)),
                                            Number orderedIndex]]
                          else diags1))
               else (case assignNamed (parameters defn) (namedParams st) Map.empty diags1 of
                       (named, paramOverrides, diags2) \<Rightarrow>
                         (paramOverrides, diags2 @ unusedDiags (definitionName defn) named))))"

subsection \<open>Parameter values\<close>

text \<open>
  The body of the loop that clones every parameter of the definition into the temporary
  scope and gives it its override. It returns the clone and the diagnostics it adds.
\<close>

definition evaluateParameter ::
  "(string \<rightharpoonup> ExpressionSyntax) \<Rightarrow> string \<Rightarrow> ParameterSymbolBase
     \<Rightarrow> ParameterSymbolBase \<times> Diagnostic list" where
  "evaluateParameter paramOverrides defName param =
     (let newParam = clone param in
      if paramKind param = Parameter
      then (case paramOverrides (paramName newParam) of
              Some expr \<Rightarrow>
                (newParam\<lparr>initializer := Some expr, resolution := ResolvedInContext\<rparr>, [])
            | None \<Rightarrow>
                if \<not> isLocalParam newParam \<and> isPortParam newParam \<and> initializer newParam = None
                then (newParam, [Diag ParamHasNoValue [Text defName, Text (paramName newParam)]])
                else (newParam\<lparr>resolution := Cleared\<rparr>, []))
      else (case paramOverrides (paramName newParam) of
              Some expr \<Rightarrow>
                if syntaxClass expr = NameSyntax
                then (newParam\<lparr>resolution := TypeFromName expr\<rparr>, [])
                else if syntaxClass expr \<noteq> DataTypeSyntax
                then (newParam\<lparr>resolution := Cleared\<rparr>,
                      [Diag BadTypeParamExpr [Text (paramName newParam)]])
                else (newParam\<lparr>resolution := TypeFromDataType expr\<rparr>, [])
            | None \<Rightarrow>
                if \<not> isLocalParam newParam \<and> isPortParam newParam \<and> initializer newParam = None
                then (newParam, [Diag ParamHasNoValue [Text defName, Text (paramName newParam)]])
                else (newParam\<lparr>resolution := Cleared\<rparr>, [])))"

text \<open>The loop \<open>for (auto param : definition->parameters)\<close> that fills \<open>parameters\<close>.\<close>

fun evaluateParameters ::
  "(string \<rightharpoonup> ExpressionSyntax) \<Rightarrow> string \<Rightarrow> ParameterSymbolBase list
     \<Rightarrow> ParameterSymbolBase list \<Rightarrow> Diagnostic list
     \<Rightarrow> ParameterSymbolBase list \<times> Diagnostic list" where
  "evaluateParameters paramOverrides defName [] params diags = (params, diags)"
| "evaluateParameters paramOverrides defName (param # rest) params diags =
     (case evaluateParameter paramOverrides defName param of
        (newParam, ds) \<Rightarrow>
          evaluateParameters paramOverrides defName rest (params @ [newParam]) (diags @ ds))"

subsection \<open>Hierarchy depth\<close>

text \<open>\<open>InstanceSymbol::isKind\<close>\<close>

fun isInstanceKind :: "SymbolKind \<Rightarrow> bool" where
  "isInstanceKind ModuleInstance = True"
| "isInstanceKind ProgramInstance = True"
| "isInstanceKind InterfaceInstance = True"
| "isInstanceKind k = False"

text \<open>
  The loop \<open>while (true)\<close> that walks from the symbol of the scope up its parents. \<open>None\<close> is
  the early return after \<open>MaxInstanceDepthExceeded\<close>; the depth is a \<open>uint32_t\<close>, so the
  increment wraps.
\<close>

fun computeHierarchyDepth :: "32 word \<Rightarrow> Scope \<Rightarrow> 32 word option" where
  "computeHierarchyDepth maxDepth (Scope k depth nt parent) =
     (if isInstanceKind k
      then (if depth + 1 > maxDepth then None else Some (depth + 1))
      else (case parent of
              None \<Rightarrow> Some 0
            | Some s \<Rightarrow> computeHierarchyDepth maxDepth s))"

subsection \<open>Implicit nets\<close>

text \<open>The \<open>switch (conn->kind)\<close> of \<open>createImplicitNets\<close>.\<close>

fun connectionExpr :: "PortConnectionSyntax \<Rightarrow> ExpressionSyntax option" where
  "connectionExpr (OrderedPortConnection e) = e"
| "connectionExpr (NamedPortConnection n e) = e"
| "connectionExpr WildcardPortConnection = None"

text \<open>
  The loop \<open>for (Token t : implicitNets)\<close>: a name that is new to \<open>implicitNetNames\<close> gets a
  net of the given net type and of type \<open>logic\<close>.
\<close>

fun addImplicitNets ::
  "NetType \<Rightarrow> string list \<Rightarrow> string list \<Rightarrow> Symbol list \<Rightarrow> string list \<times> Symbol list" where
  "addImplicitNets netType [] implicitNetNames results = (implicitNetNames, results)"
| "addImplicitNets netType (t # ts) implicitNetNames results =
     (if t \<notin> set implicitNetNames
      then addImplicitNets netType ts (implicitNetNames @ [t])
             (results @ [NetSym t netType LogicType])
      else addImplicitNets netType ts implicitNetNames results)"

text \<open>The loop \<open>for (auto conn : instance.connections)\<close>.\<close>

fun scanConnections ::
  "Compilation \<Rightarrow> Scope \<Rightarrow> NetType \<Rightarrow> PortConnectionSyntax list \<Rightarrow> string list \<Rightarrow> Symbol list
     \<Rightarrow> string list \<times> Symbol list" where
  "scanConnections compilation scope netType [] implicitNetNames results =
     (implicitNetNames, results)"
| "scanConnections compilation scope netType (conn # rest) implicitNetNames results =
     (case connectionExpr conn of
        None \<Rightarrow> scanConnections compilation scope netType rest implicitNetNames results
      | Some expr \<Rightarrow>
          (case addImplicitNets netType (findPotentiallyImplicitNets compilation scope expr)
                  implicitNetNames results of
             (names, results') \<Rightarrow> scanConnections compilation scope netType rest names results'))"

definition createImplicitNets ::
  "Compilation \<Rightarrow> Scope \<Rightarrow> HierarchicalInstanceSyntax \<Rightarrow> NetType \<Rightarrow> string list \<Rightarrow> Symbol list
     \<Rightarrow> string list \<times> Symbol list" where
  "createImplicitNets compilation scope syn netType implicitNetNames results =
     (if isError netType then (implicitNetNames, results)
      else scanConnections compilation scope netType (connections syn) implicitNetNames results)"

subsection \<open>The function\<close>

text \<open>The loop \<open>for (auto instanceSyntax : syntax.instances)\<close>.\<close>

fun instantiateAll ::
  "Compilation \<Rightarrow> DefinitionSymbol \<Rightarrow> ParameterSymbolBase list \<Rightarrow> Scope \<Rightarrow> 32 word
     \<Rightarrow> HierarchicalInstanceSyntax list \<Rightarrow> string list \<Rightarrow> Symbol list \<Rightarrow> error + Symbol list" where
  "instantiateAll compilation defn params scope depth [] implicitNetNames results = Inr results"
| "instantiateAll compilation defn params scope depth (syn # rest) implicitNetNames results =
     (case createImplicitNets compilation scope syn (defaultNetType scope) implicitNetNames results of
        (names, results1) \<Rightarrow>
          (case recurseInstanceArray compilation defn syn params scope (dimensions syn) [] depth of
             Inl e \<Rightarrow> Inl e
           | Inr symbol \<Rightarrow>
               instantiateAll compilation defn params scope depth rest names
                 (results1 @ [symbol])))"

text \<open>
  \<open>InstanceSymbol::fromSyntax\<close>. It appends to \<open>results\<close> and to the diagnostics of the
  scope. The temporary instance that holds the cloned parameters while they are evaluated is
  no member of any scope and is not modelled.
\<close>

definition fromSyntax ::
  "Compilation \<Rightarrow> HierarchyInstantiationSyntax \<Rightarrow> Scope \<Rightarrow> Symbol list \<Rightarrow> Diagnostic list
     \<Rightarrow> error + (Symbol list \<times> Diagnostic list)" where
  "fromSyntax compilation syn scope results diags =
     (case getDefinition compilation (typeName syn) scope of
        None \<Rightarrow> Inr (results, diags @ [Diag UnknownModule [Text (typeName syn)]])
      | Some defn \<Rightarrow>
          (case buildParamOverrides defn (parameterAssignments syn) diags of
             (paramOverrides, diags1) \<Rightarrow>
               (case evaluateParameters paramOverrides (definitionName defn) (parameters defn)
                       [] diags1 of
                  (params, diags2) \<Rightarrow>
                    (case computeHierarchyDepth (maxInstanceDepth compilation) scope of
                       None \<Rightarrow>
                         Inr (results,
                              diags2 @ [Diag MaxInstanceDepthExceeded
                                          [Number (unat (maxInstanceDepth compilation))]])
                     | Some depth \<Rightarrow>
                         (case instantiateAll compilation defn params scope depth
                                 (instances syn) [] results of
                            Inl e \<Rightarrow> Inl e
                          | Inr results' \<Rightarrow> Inr (results', diags2))))))"

section \<open>Elaboration of a hierarchy\<close>

text \<open>
  Modelled from the spec: the realisation of the members of a scope (\<open>Scope\<close>) and the
  creation of the root instances (\<open>Compilation\<close>), which call \<open>InstanceSymbol::fromSyntax\<close>
  and are not part of the sources at hand. The spec: ``Scopes lazily elaborate:
  member-introducing syntax is stored first and realized into symbols on first lookup'';
  ``Given a \<open>HierarchyInstantiation\<close> syntax inside some scope''; ``elaboration is triggered by
  requesting the root's instantiation list''. Every hierarchy instantiation among the
  members of an instance is given to \<open>fromSyntax\<close> with the instance as the scope, and every
  instance among its results is elaborated in turn. The recursion is bounded by fuel, one
  unit for each level of instances; \<open>OutOfFuel\<close> is the result when it is used up.
\<close>

datatype Hierarchy = HNode InstanceSymbol "Hierarchy list"

fun elaborateInstance ::
      "nat \<Rightarrow> Compilation \<Rightarrow> Scope option \<Rightarrow> InstanceSymbol \<Rightarrow> Diagnostic list
         \<Rightarrow> error + (Hierarchy \<times> Diagnostic list)"
  and elaborateMembers ::
      "nat \<Rightarrow> Compilation \<Rightarrow> Scope \<Rightarrow> Member list \<Rightarrow> Diagnostic list
         \<Rightarrow> error + (Hierarchy list \<times> Diagnostic list)"
  and elaborateInstances ::
      "nat \<Rightarrow> Compilation \<Rightarrow> Scope \<Rightarrow> InstanceSymbol list \<Rightarrow> Diagnostic list
         \<Rightarrow> error + (Hierarchy list \<times> Diagnostic list)" where
  "elaborateInstance 0 compilation parent inst diags = Inl OutOfFuel"
| "elaborateInstance (Suc fuel) compilation parent inst diags =
     (case elaborateMembers fuel compilation
             (Scope (instanceKind inst) (hierarchyDepth inst)
                (definitionNetType (definitionOf inst)) parent)
             (instanceMembers inst) diags of
        Inl e \<Rightarrow> Inl e
      | Inr (children, diags') \<Rightarrow> Inr (HNode inst children, diags'))"
| "elaborateMembers fuel compilation scope [] diags = Inr ([], diags)"
| "elaborateMembers fuel compilation scope (DeferredMember (HierarchyInstantiation syn) # ms) diags =
     (case fromSyntax compilation syn scope [] diags of
        Inl e \<Rightarrow> Inl e
      | Inr (symbols, diags1) \<Rightarrow>
          (case elaborateInstances fuel compilation scope (concat (map leaves symbols)) diags1 of
             Inl e \<Rightarrow> Inl e
           | Inr (hs, diags2) \<Rightarrow>
               (case elaborateMembers fuel compilation scope ms diags2 of
                  Inl e \<Rightarrow> Inl e
                | Inr (hs', diags3) \<Rightarrow> Inr (hs @ hs', diags3))))"
| "elaborateMembers fuel compilation scope (m # ms) diags =
     elaborateMembers fuel compilation scope ms diags"
| "elaborateInstances fuel compilation scope [] diags = Inr ([], diags)"
| "elaborateInstances fuel compilation scope (inst # insts) diags =
     (case elaborateInstance fuel compilation (Some scope) inst diags of
        Inl e \<Rightarrow> Inl e
      | Inr (h, diags1) \<Rightarrow>
          (case elaborateInstances fuel compilation scope insts diags1 of
             Inl e \<Rightarrow> Inl e
           | Inr (hs, diags2) \<Rightarrow> Inr (h # hs, diags2)))"

text \<open>
  The elaboration of a design from a top-level module: the root instance is created by
  \<open>ModuleInstanceSymbol::instantiate(compilation, name, loc, definition)\<close>.
\<close>

definition elaborateDesign ::
  "nat \<Rightarrow> Compilation \<Rightarrow> string \<Rightarrow> DefinitionSymbol \<Rightarrow> error + (Hierarchy \<times> Diagnostic list)" where
  "elaborateDesign fuel compilation n defn =
     (case instantiateTop n defn of
        Inl e \<Rightarrow> Inl e
      | Inr root \<Rightarrow> elaborateInstance fuel compilation None root [])"

text \<open>The instances of an elaborated hierarchy, parents before children.\<close>

fun hierarchyInstances :: "Hierarchy \<Rightarrow> InstanceSymbol list" where
  "hierarchyInstances (HNode inst children) = inst # concat (map hierarchyInstances children)"

section \<open>Example designs\<close>

text \<open>
  Concrete inputs on which the functions are evaluated: a module \<open>m\<close> with a port parameter
  \<open>P = 1\<close>, a module \<open>lm\<close> with a local port parameter \<open>L = 8\<close> before \<open>P\<close>, and a compilation
  that knows both, evaluates the dimensions \<open>[0:1]\<close> and \<open>[3:1]\<close> to ranges and no other, and
  takes every name but \<open>clk\<close> for undeclared.
\<close>

definition lit :: "string \<Rightarrow> ExpressionSyntax" where
  "lit t = \<lparr>syntaxClass = OtherExpressionSyntax, exprText = t\<rparr>"

definition nameExpr :: "string \<Rightarrow> ExpressionSyntax" where
  "nameExpr t = \<lparr>syntaxClass = NameSyntax, exprText = t\<rparr>"

definition paramL :: ParameterSymbolBase where
  "paramL = \<lparr>paramKind = Parameter, paramName = ''L'', isLocalParam = True, isPortParam = True,
             initializer = Some (lit ''8''), resolution = AsDeclared\<rparr>"

definition paramP :: ParameterSymbolBase where
  "paramP = \<lparr>paramKind = Parameter, paramName = ''P'', isLocalParam = False, isPortParam = True,
             initializer = Some (lit ''1''), resolution = AsDeclared\<rparr>"

definition defM :: DefinitionSymbol where
  "defM = \<lparr>definitionName = ''m'', definitionKind = Module, definitionNetType = Wire,
           parameters = [paramP],
           declSyntax = \<lparr>headerImports = [], headerPorts = None, members = []\<rparr>\<rparr>"

definition defLM :: DefinitionSymbol where
  "defLM = \<lparr>definitionName = ''lm'', definitionKind = Module, definitionNetType = Wire,
            parameters = [paramL, paramP],
            declSyntax = \<lparr>headerImports = [], headerPorts = None, members = []\<rparr>\<rparr>"

definition exampleCompilation :: Compilation where
  "exampleCompilation =
     \<lparr>getDefinition = (\<lambda>n s. if n = ''m'' then Some defM
                              else if n = ''lm'' then Some defLM else None),
      maxInstanceDepth = 4,
      evalDimension =
        (\<lambda>s d. if d = ''[0:1]'' then \<lparr>isRange = True, dimRange = \<lparr>lower = 0, upper = 1\<rparr>\<rparr>
               else if d = ''[3:1]'' then \<lparr>isRange = True, dimRange = \<lparr>lower = 1, upper = 3\<rparr>\<rparr>
               else \<lparr>isRange = False, dimRange = \<lparr>lower = 0, upper = 0\<rparr>\<rparr>),
      findPotentiallyImplicitNets =
        (\<lambda>s e. if syntaxClass e = NameSyntax \<and> exprText e \<noteq> ''clk'' then [exprText e] else [])\<rparr>"

definition instanceU :: HierarchicalInstanceSyntax where
  "instanceU = \<lparr>instanceName = ''u'', dimensions = [], connections = []\<rparr>"

definition topScope :: Scope where
  "topScope = Scope ModuleInstance 0 Wire None"

text \<open>
  The design \<open>module m; m x(); endmodule\<close> under a maximum instance depth of 4.
\<close>

definition selfInstantiation :: HierarchyInstantiationSyntax where
  "selfInstantiation =
     \<lparr>typeName = ''m'', parameterAssignments = None,
      instances = [\<lparr>instanceName = ''x'', dimensions = [], connections = []\<rparr>]\<rparr>"

definition defSelf :: DefinitionSymbol where
  "defSelf = \<lparr>definitionName = ''m'', definitionKind = Module, definitionNetType = Wire,
              parameters = [],
              declSyntax = \<lparr>headerImports = [], headerPorts = None,
                            members = [HierarchyInstantiation selfInstantiation]\<rparr>\<rparr>"

definition selfCompilation :: Compilation where
  "selfCompilation =
     \<lparr>getDefinition = (\<lambda>n s. if n = ''m'' then Some defSelf else None),
      maxInstanceDepth = 4,
      evalDimension = (\<lambda>s d. \<lparr>isRange = False, dimRange = \<lparr>lower = 0, upper = 0\<rparr>\<rparr>),
      findPotentiallyImplicitNets = (\<lambda>s e. [])\<rparr>"

text \<open>The instance of \<open>m\<close> of a given name, depth and port connections.\<close>

definition selfInstance ::
  "string \<Rightarrow> 32 word \<Rightarrow> PortConnectionSyntax list option \<Rightarrow> InstanceSymbol" where
  "selfInstance n d conns =
     \<lparr>instanceKind = ModuleInstance, instanceSymbolName = n, definitionOf = defSelf,
      hierarchyDepth = d, arrayPath = [],
      instanceMembers = [DeferredMember (HierarchyInstantiation selfInstantiation)],
      portConnections = conns\<rparr>"

text \<open>
  Instantiations: \<open>m #(.Q(2)) u();\<close>, \<open>lm #(.L(2)) u();\<close>, \<open>lm #(5) u();\<close>,
  \<open>lm #(5, .L(2)) u();\<close>, \<open>m u (a, clk, .x(a), .y(b));\<close> with a wildcard connection, and
  \<open>unknown u (a);\<close>.
\<close>

definition mkInstantiation ::
  "string \<Rightarrow> ParamAssignmentSyntax list option \<Rightarrow> HierarchicalInstanceSyntax list
     \<Rightarrow> HierarchyInstantiationSyntax" where
  "mkInstantiation t ps insts = \<lparr>typeName = t, parameterAssignments = ps, instances = insts\<rparr>"

definition synQ :: HierarchyInstantiationSyntax where
  "synQ = mkInstantiation ''m'' (Some [NamedArgument ''Q'' (Some (lit ''2''))]) [instanceU]"

definition synNamedL :: HierarchyInstantiationSyntax where
  "synNamedL = mkInstantiation ''lm'' (Some [NamedArgument ''L'' (Some (lit ''2''))]) [instanceU]"

definition synOrdered :: HierarchyInstantiationSyntax where
  "synOrdered = mkInstantiation ''lm'' (Some [OrderedArgument (lit ''5'')]) [instanceU]"

definition synMixed :: HierarchyInstantiationSyntax where
  "synMixed =
     mkInstantiation ''lm'' (Some [OrderedArgument (lit ''5''), NamedArgument ''L'' (Some (lit ''2''))])
       [instanceU]"

definition instanceNets :: HierarchicalInstanceSyntax where
  "instanceNets =
     \<lparr>instanceName = ''u'', dimensions = [],
      connections = [OrderedPortConnection (Some (nameExpr ''a'')),
                     OrderedPortConnection (Some (nameExpr ''clk'')),
                     NamedPortConnection ''x'' (Some (nameExpr ''a'')),
                     NamedPortConnection ''y'' (Some (nameExpr ''b'')),
                     WildcardPortConnection]\<rparr>"

definition synNets :: HierarchyInstantiationSyntax where
  "synNets = mkInstantiation ''m'' None [instanceNets]"

definition synUnknown :: HierarchyInstantiationSyntax where
  "synUnknown = mkInstantiation ''unknown'' None [instanceNets]"

text \<open>Scopes: a module instance at depth 4, and one whose default net type is \<open>none\<close>.\<close>

definition deepScope :: Scope where
  "deepScope = Scope ModuleInstance 4 Wire None"

definition noneScope :: Scope where
  "noneScope = Scope ModuleInstance 0 ErrorNetType None"

text \<open>
  Instantiations of \<open>m\<close> in which a named assignment to \<open>Q\<close> follows an ordered one:
  \<open>m #(5, .Q(2)) u();\<close> and \<open>m #(.P(1), 5, .Q(2)) u();\<close>. An instantiation that overrides \<open>P\<close>
  for an array and a single instance: \<open>m #(.P(5)) u[0:1] (), v ();\<close>.
\<close>

definition synOrderedQ :: HierarchyInstantiationSyntax where
  "synOrderedQ =
     mkInstantiation ''m'' (Some [OrderedArgument (lit ''5''), NamedArgument ''Q'' (Some (lit ''2''))])
       [instanceU]"

definition synNamedOrderedQ :: HierarchyInstantiationSyntax where
  "synNamedOrderedQ =
     mkInstantiation ''m''
       (Some [NamedArgument ''P'' (Some (lit ''1'')), OrderedArgument (lit ''5''),
              NamedArgument ''Q'' (Some (lit ''2''))])
       [instanceU]"


text \<open>
  A definition \<open>d\<close> with two port parameters of the name \<open>X\<close>, the second one local, a
  compilation that knows it, and the instantiations \<open>d #(.X(5)) u();\<close> and \<open>d #(5) u();\<close>.
\<close>

definition paramX :: ParameterSymbolBase where
  "paramX = \<lparr>paramKind = Parameter, paramName = ''X'', isLocalParam = False, isPortParam = True,
             initializer = Some (lit ''1''), resolution = AsDeclared\<rparr>"

definition paramLX :: ParameterSymbolBase where
  "paramLX = \<lparr>paramKind = Parameter, paramName = ''X'', isLocalParam = True, isPortParam = True,
              initializer = Some (lit ''8''), resolution = AsDeclared\<rparr>"

definition defDup :: DefinitionSymbol where
  "defDup = \<lparr>definitionName = ''d'', definitionKind = Module, definitionNetType = Wire,
             parameters = [paramX, paramLX],
             declSyntax = \<lparr>headerImports = [], headerPorts = None, members = []\<rparr>\<rparr>"

definition dupCompilation :: Compilation where
  "dupCompilation =
     \<lparr>getDefinition = (\<lambda>n s. if n = ''d'' then Some defDup else None),
      maxInstanceDepth = 4,
      evalDimension = (\<lambda>s d. \<lparr>isRange = False, dimRange = \<lparr>lower = 0, upper = 0\<rparr>\<rparr>),
      findPotentiallyImplicitNets = (\<lambda>s e. [])\<rparr>"

definition synDupNamed :: HierarchyInstantiationSyntax where
  "synDupNamed = mkInstantiation ''d'' (Some [NamedArgument ''X'' (Some (lit ''5''))]) [instanceU]"

definition synDupOrdered :: HierarchyInstantiationSyntax where
  "synDupOrdered = mkInstantiation ''d'' (Some [OrderedArgument (lit ''5'')]) [instanceU]"

section \<open>Notions used in the statements\<close>

text \<open>The diagnostic for an assignment to a local parameter: port or body.\<close>

definition localDiag :: "ParameterSymbolBase \<Rightarrow> Diagnostic" where
  "localDiag p =
     Diag (if isPortParam p then AssignedToLocalPortParam else AssignedToLocalBodyParam) []"

text \<open>
  The non-empty names of the named assignments of a list, and the names of those that stand
  before the first ordered assignment.
\<close>

fun namedArgumentNames :: "ParamAssignmentSyntax list \<Rightarrow> string list" where
  "namedArgumentNames [] = []"
| "namedArgumentNames (OrderedArgument e # ps) = namedArgumentNames ps"
| "namedArgumentNames (NamedArgument n e # ps) =
     (if n \<noteq> [] then n # namedArgumentNames ps else namedArgumentNames ps)"

definition collectedNames :: "ParamAssignmentSyntax list \<Rightarrow> string list" where
  "collectedNames ps = namedArgumentNames (takeWhile (\<lambda>a. \<not> isOrderedArgument a) ps)"

text \<open>
  The expressions of the ordered assignments that stand before the first named one.
\<close>

fun orderedExprs :: "ParamAssignmentSyntax list \<Rightarrow> ExpressionSyntax list" where
  "orderedExprs [] = []"
| "orderedExprs (OrderedArgument e # ps) = e # orderedExprs ps"
| "orderedExprs (NamedArgument n e # ps) = []"

text \<open>
  What a call added to the diagnostics, or to the results, it was given: calls only append.
\<close>

definition emitted :: "'a list \<Rightarrow> 'a list \<Rightarrow> 'a list" where
  "emitted before after = drop (length before) after"

text \<open>
  The parameter symbols among the members of an instance; the names that the parameter
  declarations of a module body declare; and the condition under which the assertions of
  \<open>populate\<close> hold for a definition: its parameters that follow the leading port parameters
  are, by name and in order, the parameters its body declares.
\<close>

fun parameterMembers :: "Member list \<Rightarrow> ParameterSymbolBase list" where
  "parameterMembers [] = []"
| "parameterMembers (ParameterMember p # ms) = p # parameterMembers ms"
| "parameterMembers (m # ms) = parameterMembers ms"

fun bodyDeclarators :: "MemberSyntax list \<Rightarrow> string list" where
  "bodyDeclarators [] = []"
| "bodyDeclarators (ParameterDeclarationStatement paramBase # ms) =
     declarators paramBase @ bodyDeclarators ms"
| "bodyDeclarators (m # ms) = bodyDeclarators ms"

definition parametersMatchSyntax :: "DefinitionSymbol \<Rightarrow> bool" where
  "parametersMatchSyntax defn =
     (map paramName (dropWhile isPortParam (parameters defn))
        = bodyDeclarators (members (declSyntax defn)))"

text \<open>The kind of instance \<open>createInstance\<close> makes of a definition.\<close>

fun instanceKindOf :: "DefinitionKind \<Rightarrow> SymbolKind" where
  "instanceKindOf Module = ModuleInstance"
| "instanceKindOf Interface = InterfaceInstance"
| "instanceKindOf Program = ProgramInstance"
| "instanceKindOf Package = Definition"

fun isNetSym :: "Symbol \<Rightarrow> bool" where
  "isNetSym (NetSym n nt t) = True"
| "isNetSym s = False"

text \<open>
  The names that \<open>findPotentiallyImplicitNets\<close> reports for the port connection expressions
  of an instance, and of all the instances of an instantiation.
\<close>

definition connectionTokens ::
  "Compilation \<Rightarrow> Scope \<Rightarrow> HierarchicalInstanceSyntax \<Rightarrow> string list" where
  "connectionTokens compilation scope syn =
     concat (map (\<lambda>conn. case connectionExpr conn of
                            None \<Rightarrow> []
                          | Some expr \<Rightarrow> findPotentiallyImplicitNets compilation scope expr)
                 (connections syn))"

definition implicitNetCandidates ::
  "Compilation \<Rightarrow> Scope \<Rightarrow> HierarchicalInstanceSyntax list \<Rightarrow> string list" where
  "implicitNetCandidates compilation scope insts =
     concat (map (connectionTokens compilation scope) insts)"

text \<open>
  What \<open>fromSyntax\<close> computes from the parameter assignments before it creates any instance:
  the overrides, the diagnostics of the assignments, the vector of cloned parameters
  (\<open>parameters\<close> in the source) and the diagnostics of their evaluation.
\<close>

definition paramOverridesOf ::
  "DefinitionSymbol \<Rightarrow> ParamAssignmentSyntax list option \<Rightarrow> (string \<rightharpoonup> ExpressionSyntax)" where
  "paramOverridesOf defn assignments = fst (buildParamOverrides defn assignments [])"

definition assignmentDiags ::
  "DefinitionSymbol \<Rightarrow> ParamAssignmentSyntax list option \<Rightarrow> Diagnostic list" where
  "assignmentDiags defn assignments = snd (buildParamOverrides defn assignments [])"

definition parameterVector ::
  "DefinitionSymbol \<Rightarrow> ParamAssignmentSyntax list option \<Rightarrow> ParameterSymbolBase list" where
  "parameterVector defn assignments =
     fst (evaluateParameters (paramOverridesOf defn assignments) (definitionName defn)
            (parameters defn) [] [])"

definition parameterDiags ::
  "DefinitionSymbol \<Rightarrow> ParamAssignmentSyntax list option \<Rightarrow> Diagnostic list" where
  "parameterDiags defn assignments =
     snd (evaluateParameters (paramOverridesOf defn assignments) (definitionName defn)
            (parameters defn) [] [])"

text \<open>
  A parameter of an instance holds the declared default of the parameter \<open>p\<close> of the
  definition: it is a clone of \<open>p\<close> with the initializer of the declaration, no override
  having been installed (the declared type is as declared, or cleared).
\<close>

definition holdsDefault :: "ParameterSymbolBase \<Rightarrow> ParameterSymbolBase \<Rightarrow> bool" where
  "holdsDefault p q = (q = clone p \<or> q = clone (p\<lparr>resolution := Cleared\<rparr>))"

text \<open>The instances among the symbols a call of \<open>fromSyntax\<close> appended to the results.\<close>

definition createdInstances :: "Symbol list \<Rightarrow> Symbol list \<Rightarrow> InstanceSymbol list" where
  "createdInstances before after = concat (map leaves (emitted before after))"

text \<open>
  The conditions under which creating the instances of an instantiation of a definition
  raises nothing: the definition is a module, an interface or a program; its parameters match
  its syntax; and no dimension of an instance is a range whose upper bound is \<open>INT32_MAX\<close>.
\<close>

definition instantiable ::
  "Compilation \<Rightarrow> Scope \<Rightarrow> DefinitionSymbol \<Rightarrow> HierarchyInstantiationSyntax \<Rightarrow> bool" where
  "instantiable compilation scope defn syn =
     (definitionKind defn \<noteq> Package
      \<and> parametersMatchSyntax defn
      \<and> (\<forall>inst \<in> set (instances syn). \<forall>d \<in> set (dimensions inst).
            isRange (evalDimension compilation scope d)
            \<longrightarrow> upper (dimRange (evalDimension compilation scope d)) < INT32_MAX))"

fun symbolNameOf :: "Symbol \<Rightarrow> string" where
  "symbolNameOf (InstanceSym i) = instanceSymbolName i"
| "symbolNameOf (InstanceArraySym n es r) = n"
| "symbolNameOf (NetSym n nt t) = n"

text \<open>
  The depth of the nearest instance on the chain of parents of a scope, the symbol of the
  scope itself first; \<open>None\<close> when no symbol on the chain is an instance.
\<close>

fun nearestInstance :: "Scope \<Rightarrow> 32 word option" where
  "nearestInstance (Scope k depth nt parent) =
     (if isInstanceKind k then Some depth
      else (case parent of None \<Rightarrow> None | Some s \<Rightarrow> nearestInstance s))"

text \<open>A hierarchy in which every instance has at most one child.\<close>

fun nestedChain :: "Hierarchy \<Rightarrow> bool" where
  "nestedChain (HNode inst []) = True"
| "nestedChain (HNode inst [child]) = nestedChain child"
| "nestedChain (HNode inst (c1 # c2 # cs)) = False"

section \<open>String literals\<close>

text \<open>
  Modelled from the spec: the scanner of string literals of the lexer, whose code is not
  among the sources at hand; the tests of the lexer are. The spec, section 4.D, Strings:
  a string is double-quoted; an unescaped newline terminates and diagnoses; a backslash
  followed by a newline continues; the standard escapes are the backslash followed by \<open>n\<close>,
  \<open>t\<close>, \<open>v\<close>, \<open>f\<close>, \<open>a\<close>, a backslash or a double quote; in an octal escape of digits \<open>ddd\<close>
  a ``value \<open>\<ge> 0x100\<close> diagnoses and yields empty contribution''; in a hex escape \<open>xHH\<close> a
  ``non-hex digit after \<open>x\<close> diagnoses and contributes the following char verbatim''; any
  other escaped \<open>c\<close> ``diagnoses and contributes \<open>c\<close>''. A token has a kind, its raw text
  (``\<open>raw_text\<close> slice into source'') and its value text (``decoded identifier or string
  content''). The tests give the diagnostic of a literal that the end of the input or a
  newline leaves open: \<open>ExpectedClosingQuote\<close>, the newline not being part of the token. Where
  the spec and the tests are silent the scanner is made to do this: a backslash that ends
  the input leaves the literal open, and an \<open>x\<close> escape that ends the input is diagnosed
  and contributes nothing. The kinds of tokens carry the suffix \<open>Token\<close>, \<open>StringLiteral\<close> being
  a kind of expression as well.
\<close>

datatype TokenKind = UnknownToken | EndOfFileToken | IdentifierToken | StringLiteralToken

record Token =
  tokenKind :: TokenKind
  rawText :: string
  valueText :: string

definition isOctalDigit :: "char \<Rightarrow> bool" where
  "isOctalDigit c = (48 \<le> (of_char c :: nat) \<and> (of_char c :: nat) \<le> 55)"

definition isDecimalDigit :: "char \<Rightarrow> bool" where
  "isDecimalDigit c = (48 \<le> (of_char c :: nat) \<and> (of_char c :: nat) \<le> 57)"

definition isHexDigit :: "char \<Rightarrow> bool" where
  "isHexDigit c =
     (isDecimalDigit c
      \<or> (97 \<le> (of_char c :: nat) \<and> (of_char c :: nat) \<le> 102)
      \<or> (65 \<le> (of_char c :: nat) \<and> (of_char c :: nat) \<le> 70))"

definition getDigitValue :: "char \<Rightarrow> nat" where
  "getDigitValue c = of_char c - 48"

definition getHexDigitValue :: "char \<Rightarrow> nat" where
  "getHexDigitValue c =
     (if isDecimalDigit c then of_char c - 48
      else if 97 \<le> (of_char c :: nat) then 10 + (of_char c - 97)
      else 10 + (of_char c - 65))"

text \<open>The value of a run of digits in a base, the first digit the most significant.\<close>

definition digitsValue :: "nat \<Rightarrow> (char \<Rightarrow> nat) \<Rightarrow> string \<Rightarrow> nat" where
  "digitsValue base digit ds = foldl (\<lambda>v d. v * base + digit d) 0 ds"

definition isNewline :: "char \<Rightarrow> bool" where
  "isNewline c = (c = CHR 0x0A \<or> c = CHR 0x0D)"

text \<open>
  An escape, from the text that follows its backslash: the number of characters of that
  text it takes, what it contributes to the value text, and its diagnostics. An octal
  escape takes up to three octal digits, a hex escape up to two hex digits.
\<close>

fun scanEscape :: "string \<Rightarrow> nat \<times> string \<times> Diagnostic list" where
  "scanEscape [] = (0, [], [])"
| "scanEscape (c # rest) =
     (if c = CHR ''n'' then (1, [CHR 0x0A], [])
      else if c = CHR ''t'' then (1, [CHR 0x09], [])
      else if c = CHR ''v'' then (1, [CHR 0x0B], [])
      else if c = CHR ''f'' then (1, [CHR 0x0C], [])
      else if c = CHR ''a'' then (1, [CHR 0x07], [])
      else if c = CHR 0x5C then (1, [CHR 0x5C], [])
      else if c = CHR 0x22 then (1, [CHR 0x22], [])
      else if c = CHR 0x0A then (1, [], [])
      else if c = CHR 0x0D then (if take 1 rest = [CHR 0x0A] then (2, [], []) else (1, [], []))
      else if isOctalDigit c then
        (let digits = c # takeWhile isOctalDigit (take 2 rest);
             charCode = digitsValue 8 getDigitValue digits
         in if charCode \<ge> 0x100
            then (length digits, [], [Diag OctalEscapeCodeTooBig []])
            else (length digits, [char_of charCode], []))
      else if c = CHR ''x'' then
        (case rest of
           [] \<Rightarrow> (1, [], [Diag InvalidHexEscapeCode []])
         | h # rest' \<Rightarrow>
             if \<not> isHexDigit h then (2, [h], [Diag InvalidHexEscapeCode []])
             else (let digits = h # takeWhile isHexDigit (take 1 rest')
                   in (1 + length digits, [char_of (digitsValue 16 getHexDigitValue digits)], [])))
      else (1, [c], [Diag UnknownEscapeCode []]))"

text \<open>
  The scanner, from the text that follows the opening quote: \<open>raw\<close> is the raw text taken so
  far, \<open>val\<close> the value text decoded so far. It returns the token, the text that remains and
  the diagnostics.
\<close>

definition stringToken :: "string \<Rightarrow> string \<Rightarrow> Token" where
  "stringToken raw val = \<lparr>tokenKind = StringLiteralToken, rawText = raw, valueText = val\<rparr>"

fun scanStringLiteral ::
  "string \<Rightarrow> string \<Rightarrow> string \<Rightarrow> Diagnostic list \<Rightarrow> Token \<times> string \<times> Diagnostic list" where
  "scanStringLiteral [] raw val diags =
     (stringToken raw val, [], diags @ [Diag ExpectedClosingQuote []])"
| "scanStringLiteral (c # rest) raw val diags =
     (if c = CHR 0x22 then (stringToken (raw @ [c]) val, rest, diags)
      else if isNewline c
      then (stringToken raw val, c # rest, diags @ [Diag ExpectedClosingQuote []])
      else if c = CHR 0x5C then
        (if rest = []
         then (stringToken (raw @ [c]) val, [], diags @ [Diag ExpectedClosingQuote []])
         else (case scanEscape rest of
                 (n, contribution, escapeDiags) \<Rightarrow>
                   scanStringLiteral (drop n rest) (raw @ c # take n rest) (val @ contribution)
                     (diags @ escapeDiags)))
      else scanStringLiteral rest (raw @ [c]) (val @ [c]) diags)"

text \<open>
  The token at the head of a text that begins with a double quote; \<open>None\<close> for any other
  text, whose tokens are of other kinds.
\<close>

definition lexStringLiteral ::
  "string \<Rightarrow> Diagnostic list \<Rightarrow> (Token \<times> string \<times> Diagnostic list) option" where
  "lexStringLiteral text diags =
     (case text of
        [] \<Rightarrow> None
      | c # rest \<Rightarrow> if c = CHR 0x22 then Some (scanStringLiteral rest [c] [] diags) else None)"

text \<open>
  A character that the scanner copies from the text to the value: no quote, no backslash,
  no newline. The text of the literal \<open>literal\<close> followed by the octal escape \<open>400\<close>, and the
  same with the octal escape \<open>377\<close>.
\<close>

definition isPlain :: "char \<Rightarrow> bool" where
  "isPlain c = (c \<noteq> CHR 0x22 \<and> c \<noteq> CHR 0x5C \<and> \<not> isNewline c)"

definition badOctalText :: string where
  "badOctalText = CHR 0x22 # ''literal'' @ CHR 0x5C # ''400'' @ [CHR 0x22]"

definition octalText :: string where
  "octalText = CHR 0x22 # ''literal'' @ CHR 0x5C # ''377'' @ [CHR 0x22]"

section \<open>Properties of \<open>getModportOrError\<close>\<close>

text \<open>
  C9. \<open>getModportOrError\<close> returns a modport (a non-null pointer) exactly when the requested
  name is non-empty, is found in the definition's scope and refers to a symbol of kind
  \<open>Modport\<close>; the result is then the symbol found and no diagnostic is added. Otherwise the
  result is null: for an empty name the diagnostics are unchanged; for a non-empty name
  exactly one diagnostic is appended, \<open>UnknownMember\<close> when the name is not found and
  \<open>NotAModport\<close> when the symbol found has another kind.
\<close>

theorem getModportOrError_result:
  "(fst (getModportOrError findMember defName modport diags) \<noteq> None
      \<longleftrightarrow> modport \<noteq> [] \<and> (\<exists>s. findMember modport = Some s \<and> kind s = Modport))
   \<and> (fst (getModportOrError findMember defName modport diags) \<noteq> None
      \<longrightarrow> fst (getModportOrError findMember defName modport diags) = findMember modport
          \<and> snd (getModportOrError findMember defName modport diags) = diags)
   \<and> (modport = []
      \<longrightarrow> getModportOrError findMember defName modport diags = (None, diags))
   \<and> (modport \<noteq> [] \<and> findMember modport = None
      \<longrightarrow> getModportOrError findMember defName modport diags
            = (None, diags @ [Diag UnknownMember [Text modport, Text defName]]))
   \<and> (modport \<noteq> [] \<and> (\<exists>s. findMember modport = Some s \<and> kind s \<noteq> Modport)
      \<longrightarrow> getModportOrError findMember defName modport diags
            = (None, diags @ [Diag NotAModport [Text modport]]))"
  by (auto simp: getModportOrError_def split: option.splits)

theorem getModportOrError_result_witness:
  "fst (getModportOrError modportIndex ''m'' ''mp'' []) = modportIndex ''mp''
   \<and> modportIndex ''mp'' = Some \<lparr>kind = Modport, symbolName = ''mp''\<rparr>
   \<and> snd (getModportOrError modportIndex ''m'' ''mp'' []) = []
   \<and> getModportOrError modportIndex ''m'' '''' [] = (None, [])
   \<and> getModportOrError modportIndex ''m'' ''zz'' []
        = (None, [Diag UnknownMember [Text ''zz'', Text ''m'']])
   \<and> getModportOrError modportIndex ''m'' ''v'' [] = (None, [Diag NotAModport [Text ''v'']])"
proof -
  have found: "modportIndex ''mp'' = Some \<lparr>kind = Modport, symbolName = ''mp''\<rparr>"
    by (simp add: modportIndex_def)
  have missing: "modportIndex ''zz'' = None"
    by (simp add: modportIndex_def)
  have other: "modportIndex ''v'' = Some \<lparr>kind = Variable, symbolName = ''v''\<rparr>"
    by (simp add: modportIndex_def)
  note a = getModportOrError_result [of modportIndex "''m''" "''mp''" "[]"]
  note b = getModportOrError_result [of modportIndex "''m''" "''''" "[]"]
  note c = getModportOrError_result [of modportIndex "''m''" "''zz''" "[]"]
  note d = getModportOrError_result [of modportIndex "''m''" "''v''" "[]"]
  show ?thesis
    using a b c d found missing other by simp
qed

section \<open>Properties of \<open>checkFormatValues\<close>\<close>

lemma checkSpecs_index:
  "argIndex \<le> length args \<Longrightarrow>
   fst (snd (checkSpecs sf args specs (ok, argIndex, diags))) = min (length args) (argIndex + length specs)"
  by (induction specs arbitrary: ok argIndex diags) auto

lemma checkSpecs_noArgument:
  "argIndex \<le> length args \<Longrightarrow>
   countDiags FormatNoArgument (snd (snd (checkSpecs sf args specs (ok, argIndex, diags))))
     = countDiags FormatNoArgument diags + (argIndex + length specs - length args)"
  by (induction specs arbitrary: ok argIndex diags) (auto simp: countDiags_def)

lemma checkSpecs_tooMany:
  "countDiags FormatTooManyArgs (snd (snd (checkSpecs sf args specs (ok, argIndex, diags))))
     = countDiags FormatTooManyArgs diags"
  by (induction specs arbitrary: ok argIndex diags) (auto simp: countDiags_def)

lemma checkSpecs_ok:
  "argIndex \<le> length args \<Longrightarrow> length args < argIndex + length specs \<Longrightarrow>
   \<not> fst (checkSpecs sf args specs (ok, argIndex, diags))"
proof (induction specs arbitrary: ok argIndex diags)
  case Nil
  then show ?case by simp
next
  case (Cons a specs)
  show ?case
  proof (cases "argIndex \<ge> length args")
    case True
    have stays: "\<not> fst (checkSpecs sf args specs' (False, i, ds))" for specs' i ds
      by (induction specs' arbitrary: i ds) auto
    from True show ?thesis by (simp add: stays)
  next
    case False
    with Cons.prems have "Suc argIndex \<le> length args" "length args < Suc argIndex + length specs"
      by auto
    with Cons.IH False show ?thesis by auto
  qed
qed

lemma checkSpecs_prefix:
  "\<exists>new. snd (snd (checkSpecs sf args specs (ok, argIndex, diags))) = diags @ new"
proof (induction specs arbitrary: ok argIndex diags)
  case Nil
  then show ?case by simp
next
  case (Cons a specs)
  have step: "\<exists>new. snd (snd (checkSpecs sf args specs (ok', i, diags @ x))) = diags @ new"
    for ok' i x
    using Cons.IH [of ok' i "diags @ x"] by auto
  show ?case
    using step Cons.IH by auto
qed

lemma countDiags_append: "countDiags c (xs @ ys) = countDiags c xs + countDiags c ys"
  by (simp add: countDiags_def)

text \<open>
  C10. On a non-empty argument list, \<open>checkFormatValues\<close> returns true and adds no diagnostic
  whenever the first argument is not a string literal. When it is a string literal whose text
  \<open>parseArgs\<close> accepts with the specifiers \<open>specs\<close>, the diagnostics added hold one
  \<open>FormatNoArgument\<close> per specifier that has no argument left for it (\<open>length specs - length rest\<close>
  of them, \<open>rest\<close> being the arguments after the format string), one \<open>FormatTooManyArgs\<close> exactly
  when arguments remain after all specifiers are consumed, and the result is false in both
  cases. When \<open>parseArgs\<close> rejects the text, the result is false and only the diagnostics of
  \<open>parseArgs\<close> are added.
\<close>

theorem checkFormatValues_spec:
  "(\<forall>lit rest. args = lit # rest \<and> exprKind lit \<noteq> StringLiteral
       \<longrightarrow> checkFormatValues sf args diags = Some (True, diags))
   \<and> (\<forall>lit rest specs parseDiags.
         args = lit # rest \<and> exprKind lit = StringLiteral
         \<and> parseArgs sf (stripQuotes (rawValue lit)) = (True, specs, parseDiags)
       \<longrightarrow> (\<exists>ok new. checkFormatValues sf args diags = Some (ok, diags @ new)
              \<and> countDiags FormatNoArgument new = length specs - length rest
              \<and> countDiags FormatTooManyArgs new = (if length specs < length rest then 1 else 0)
              \<and> (length specs \<noteq> length rest \<longrightarrow> \<not> ok)))
   \<and> (\<forall>lit rest specs parseDiags.
         args = lit # rest \<and> exprKind lit = StringLiteral
         \<and> parseArgs sf (stripQuotes (rawValue lit)) = (False, specs, parseDiags)
       \<longrightarrow> checkFormatValues sf args diags = Some (False, diags @ parseDiags))"
proof (intro conjI allI impI)
  fix lit rest
  assume "args = lit # rest \<and> exprKind lit \<noteq> StringLiteral"
  then show "checkFormatValues sf args diags = Some (True, diags)"
    by (simp add: checkFormatValues_def)
next
  fix lit rest specs parseDiags
  assume a: "args = lit # rest \<and> exprKind lit = StringLiteral
         \<and> parseArgs sf (stripQuotes (rawValue lit)) = (False, specs, parseDiags)"
  then show "checkFormatValues sf args diags = Some (False, diags @ parseDiags)"
    by (simp add: checkFormatValues_def)
next
  fix lit rest specs parseDiags
  assume a: "args = lit # rest \<and> exprKind lit = StringLiteral
         \<and> parseArgs sf (stripQuotes (rawValue lit)) = (True, specs, parseDiags)"
  obtain ok i ds where run: "checkSpecs sf args specs (True, 1, diags) = (ok, i, ds)"
    by (cases "checkSpecs sf args specs (True, 1, diags)") auto
  from a have len: "(1::nat) \<le> length args" "length args = Suc (length rest)"
    by auto
  obtain new where new: "ds = diags @ new"
    using checkSpecs_prefix [of sf args specs True 1 diags] run by auto
  have idx: "i = min (length args) (1 + length specs)"
    using checkSpecs_index [OF len(1), of sf specs True diags] run by simp
  have noArg: "countDiags FormatNoArgument new = length specs - length rest"
    using checkSpecs_noArgument [OF len(1), of sf specs True diags] run new len(2)
    by (simp add: countDiags_append)
  have tooMany: "countDiags FormatTooManyArgs new = 0"
    using checkSpecs_tooMany [of sf args specs True 1 diags] run new
    by (simp add: countDiags_append)
  have notOk: "length rest < length specs \<Longrightarrow> \<not> ok"
    using checkSpecs_ok [OF len(1), of specs sf True diags] run len(2) by simp
  show "\<exists>ok new. checkFormatValues sf args diags = Some (ok, diags @ new)
              \<and> countDiags FormatNoArgument new = length specs - length rest
              \<and> countDiags FormatTooManyArgs new = (if length specs < length rest then 1 else 0)
              \<and> (length specs \<noteq> length rest \<longrightarrow> \<not> ok)"
  proof (cases "length specs < length rest")
    case True
    then have "i < length args" using idx len(2) by simp
    then have res: "checkFormatValues sf args diags
                 = Some (False, diags @ (new @ [Diag FormatTooManyArgs []]))"
      using a run new by (simp add: checkFormatValues_def)
    have c1: "countDiags FormatNoArgument (new @ [Diag FormatTooManyArgs []]) = length specs - length rest"
      using noArg by (simp add: countDiags_def)
    have c2: "countDiags FormatTooManyArgs (new @ [Diag FormatTooManyArgs []]) = 1"
      using tooMany by (simp add: countDiags_def)
    show ?thesis
      using res c1 c2 True by auto
  next
    case False
    then have "\<not> i < length args" using idx len(2) by simp
    then have res: "checkFormatValues sf args diags = Some (ok, diags @ new)"
      using a run new by (simp add: checkFormatValues_def)
    show ?thesis
      using res noArg tooMany notOk False by auto
  qed
qed


theorem checkFormatValues_spec_witness:
  "checkFormatValues exampleSFormat [intArg, formatLiteral] [] = Some (True, [])
   \<and> checkFormatValues exampleSFormat [formatLiteral] []
       = Some (False, [Diag FormatNoArgument [Text ''d''], Diag FormatNoArgument [Text ''s'']])
   \<and> checkFormatValues exampleSFormat [formatLiteral, intArg, strArg] [] = Some (True, [])
   \<and> checkFormatValues exampleSFormat [formatLiteral, intArg, strArg, intArg] []
       = Some (False, [Diag FormatTooManyArgs []])
   \<and> checkFormatValues exampleSFormat [badLiteral, intArg] []
       = Some (False, [Diag FormatParseError [Text ''%q'']])"
proof -
  note a = checkFormatValues_spec [of "[intArg, formatLiteral]" exampleSFormat "[]"]
  note b = checkFormatValues_spec [of "[formatLiteral]" exampleSFormat "[]"]
  note c = checkFormatValues_spec [of "[badLiteral, intArg]" exampleSFormat "[]"]
  have 1: "checkFormatValues exampleSFormat [intArg, formatLiteral] [] = Some (True, [])"
    using a by (simp add: intArg_def)
  have 2: "checkFormatValues exampleSFormat [formatLiteral] []
       = Some (False, [Diag FormatNoArgument [Text ''d''], Diag FormatNoArgument [Text ''s'']])"
    using b by (simp add: checkFormatValues_def exampleSFormat_def formatLiteral_def stripQuotes_def)
  have 3: "checkFormatValues exampleSFormat [formatLiteral, intArg, strArg] [] = Some (True, [])"
    by (simp add: checkFormatValues_def exampleSFormat_def formatLiteral_def stripQuotes_def
        intArg_def strArg_def)
  have 4: "checkFormatValues exampleSFormat [formatLiteral, intArg, strArg, intArg] []
       = Some (False, [Diag FormatTooManyArgs []])"
    by (simp add: checkFormatValues_def exampleSFormat_def formatLiteral_def stripQuotes_def
        intArg_def strArg_def)
  have 5: "checkFormatValues exampleSFormat [badLiteral, intArg] []
       = Some (False, [Diag FormatParseError [Text ''%q'']])"
    using c by (simp add: exampleSFormat_def badLiteral_def stripQuotes_def)
  show ?thesis
    using 1 2 3 4 5 by simp
qed

lemma sequenceResults_map:
  "sequenceResults (map f xs) = Inr ys \<Longrightarrow> list_all2 (\<lambda>x y. f x = Inr y) xs ys"
  by (induction xs arbitrary: ys) (auto split: sum.splits)

lemma sequenceResults_ok:
  "(\<And>x. x \<in> set xs \<Longrightarrow> \<exists>y. f x = Inr y) \<Longrightarrow> \<exists>ys. sequenceResults (map f xs) = Inr ys"
proof (induction xs)
  case Nil
  then show ?case by simp
next
  case (Cons a xs)
  then obtain y ys where "f a = Inr y" "sequenceResults (map f xs) = Inr ys"
    by (meson list.set_intros)
  then show ?case by simp
qed

lemma arrayPath_leaves_setName:
  "map arrayPath (leaves (setName n s)) = map arrayPath (leaves s)"
  by (cases s) auto

lemma length_indexPaths: "length (indexPaths rs) = prod_list (map rangeSize rs)"
proof (induction rs)
  case Nil
  then show ?case by simp
next
  case (Cons r rs)
  have "length (concat (map (\<lambda>i. map ((#) i) (indexPaths rs)) xs))
          = length xs * length (indexPaths rs)" for xs :: "int list"
    by (induction xs) auto
  then show ?case
    using Cons by (simp add: rangeSize_def)
qed


lemma leaves_setName_empty: "leaves (setName n s) = [] \<longleftrightarrow> leaves s = []"
  by (cases s) auto

lemma placeholders_setName: "placeholders (setName n s) = placeholders s"
  by (cases s) auto

lemma concat_map_all2:
  "list_all2 (\<lambda>x y. g y = h x) xs ys \<Longrightarrow> concat (map g ys) = concat (map h xs)"
  by (induction xs ys rule: list_all2_induct) auto

lemma createInstance_path:
  "createInstance defn syn params path depth = Inr s \<Longrightarrow>
   \<exists>inst. s = InstanceSym inst \<and> arrayPath inst = path"
  by (auto simp: createInstance_def split: sum.splits)

lemma createInstance_any_path:
  "createInstance defn syn params path depth = Inr s \<Longrightarrow>
   \<exists>s'. createInstance defn syn params path' depth = Inr s'"
  by (auto simp: createInstance_def split: sum.splits)

lemma recurseInstanceArray_paths:
  "recurseInstanceArray compilation defn syn params scope dims path depth = Inr s \<Longrightarrow>
   \<forall>d \<in> set dims. isRange (evalDimension compilation scope d) \<Longrightarrow>
   map arrayPath (leaves s)
     = map ((@) path) (indexPaths (map (\<lambda>d. dimRange (evalDimension compilation scope d)) dims))"
proof (induction dims arbitrary: path s)
  case Nil
  then show ?case
    using createInstance_path [of defn syn params path depth s] by auto
next
  case (Cons it rest)
  let ?r = "dimRange (evalDimension compilation scope it)"
  let ?rs = "map (\<lambda>d. dimRange (evalDimension compilation scope d)) rest"
  let ?f = "\<lambda>i. recurseInstanceArray compilation defn syn params scope rest (path @ [i]) depth"
  from Cons.prems obtain elements where
    seq: "sequenceResults (map ?f [lower ?r..upper ?r]) = Inr elements" and
    s: "s = InstanceArraySym (instanceName syn) (map (setName []) elements) ?r"
    by (auto simp: Let_def split: sum.splits if_splits)
  have all2: "list_all2 (\<lambda>i y. ?f i = Inr y) [lower ?r..upper ?r] elements"
    using sequenceResults_map [OF seq] .
  have each: "list_all2 (\<lambda>i y. map arrayPath (leaves y) = map ((@) (path @ [i])) (indexPaths ?rs))
                [lower ?r..upper ?r] elements"
    using all2 Cons.IH Cons.prems(2) by (auto elim!: list_all2_mono)
  have "map arrayPath (leaves s)
          = concat (map (\<lambda>y. map arrayPath (leaves y)) elements)"
    by (simp add: s map_concat comp_def arrayPath_leaves_setName)
  also have "\<dots> = concat (map (\<lambda>i. map ((@) (path @ [i])) (indexPaths ?rs)) [lower ?r..upper ?r])"
    using concat_map_all2 [OF each] .
  also have "\<dots> = map ((@) path) (indexPaths (?r # ?rs))"
  proof -
    have "(@) (path @ [i]) = (\<lambda>xa. path @ i # xa)" for i
      by auto
    then show ?thesis
      by (simp add: map_concat comp_def)
  qed
  finally show ?case by simp
qed

lemma recurseInstanceArray_succeeds:
  "createInstance defn syn params [] depth = Inr s0 \<Longrightarrow>
   \<forall>d \<in> set dims. isRange (evalDimension compilation scope d)
        \<and> upper (dimRange (evalDimension compilation scope d)) < INT32_MAX \<Longrightarrow>
   \<exists>s. recurseInstanceArray compilation defn syn params scope dims path depth = Inr s"
proof (induction dims arbitrary: path)
  case Nil
  then show ?case
    using createInstance_any_path [of defn syn params "[]" depth s0 path] by simp
next
  case (Cons it rest)
  let ?r = "dimRange (evalDimension compilation scope it)"
  let ?f = "\<lambda>i. recurseInstanceArray compilation defn syn params scope rest (path @ [i]) depth"
  have "\<And>i. \<exists>y. ?f i = Inr y"
    using Cons by simp
  then obtain elements where "sequenceResults (map ?f [lower ?r..upper ?r]) = Inr elements"
    using sequenceResults_ok [of "[lower ?r..upper ?r]" ?f] by blast
  moreover have "isRange (evalDimension compilation scope it)" "upper ?r \<noteq> INT32_MAX"
    using Cons.prems(2) by auto
  ultimately show ?case by (simp add: Let_def)
qed

lemma recurseInstanceArray_placeholder:
  "\<forall>d \<in> set pre. isRange (evalDimension compilation scope d)
        \<and> lower (dimRange (evalDimension compilation scope d))
             \<le> upper (dimRange (evalDimension compilation scope d))
        \<and> upper (dimRange (evalDimension compilation scope d)) < INT32_MAX \<Longrightarrow>
   \<not> isRange (evalDimension compilation scope bad) \<Longrightarrow>
   \<exists>s. recurseInstanceArray compilation defn syn params scope (pre @ bad # post) path depth = Inr s
       \<and> leaves s = []
       \<and> placeholders s
           = prod_list (map (\<lambda>d. rangeSize (dimRange (evalDimension compilation scope d))) pre)"
proof (induction pre arbitrary: path)
  case Nil
  then show ?case by (simp add: Let_def)
next
  case (Cons it rest)
  let ?r = "dimRange (evalDimension compilation scope it)"
  let ?n = "prod_list (map (\<lambda>d. rangeSize (dimRange (evalDimension compilation scope d))) rest)"
  let ?f = "\<lambda>i. recurseInstanceArray compilation defn syn params scope (rest @ bad # post)
                 (path @ [i]) depth"
  have ih: "\<And>i. \<exists>y. ?f i = Inr y \<and> leaves y = [] \<and> placeholders y = ?n"
    using Cons by simp
  then obtain elements where seq: "sequenceResults (map ?f [lower ?r..upper ?r]) = Inr elements"
    using sequenceResults_ok [of "[lower ?r..upper ?r]" ?f] by blast
  have all2: "list_all2 (\<lambda>i y. ?f i = Inr y) [lower ?r..upper ?r] elements"
    using sequenceResults_map [OF seq] .
  have each: "list_all2 (\<lambda>i y. leaves y = [] \<and> placeholders y = ?n) [lower ?r..upper ?r] elements"
  proof (rule list_all2_mono [OF all2])
    fix i y
    assume "?f i = Inr y"
    with ih [of i] show "leaves y = [] \<and> placeholders y = ?n"
      by auto
  qed
  then have every: "\<forall>y \<in> set elements. leaves y = [] \<and> placeholders y = ?n"
    by (auto simp: list_all2_conv_all_nth in_set_conv_nth)
  have len: "length elements = rangeSize ?r"
    using list_all2_lengthD [OF all2] by (simp add: rangeSize_def)
  have range: "isRange (evalDimension compilation scope it)" "lower ?r \<le> upper ?r"
      "upper ?r \<noteq> INT32_MAX"
    using Cons.prems(1) by auto
  then have nonempty: "elements \<noteq> []"
    using len by (auto simp: rangeSize_def)
  have res: "recurseInstanceArray compilation defn syn params scope ((it # rest) @ bad # post)
               path depth
             = Inr (InstanceArraySym (instanceName syn) (map (setName []) elements) ?r)"
    using seq range by (simp add: Let_def)
  have l: "concat (map (leaves \<circ> setName []) elements) = []"
    using every by (auto simp: leaves_setName_empty)
  have "map (placeholders \<circ> setName []) elements = replicate (length elements) ?n"
    using every by (auto simp: placeholders_setName map_replicate_const [symmetric] intro!: map_cong)
  then have p: "sum_list (map (placeholders \<circ> setName []) elements) = rangeSize ?r * ?n"
    using len by (simp add: sum_list_replicate)
  show ?case
    using res l p nonempty by simp
qed


lemma recurseInstanceArray_returns:
  "createInstance defn syn params [] depth = Inr s0 \<Longrightarrow>
   \<forall>d \<in> set dims. isRange (evalDimension compilation scope d)
        \<longrightarrow> upper (dimRange (evalDimension compilation scope d)) < INT32_MAX \<Longrightarrow>
   \<exists>s. recurseInstanceArray compilation defn syn params scope dims path depth = Inr s"
proof (induction dims arbitrary: path)
  case Nil
  then show ?case
    using createInstance_any_path [of defn syn params "[]" depth s0 path] by simp
next
  case (Cons it rest)
  let ?r = "dimRange (evalDimension compilation scope it)"
  let ?f = "\<lambda>i. recurseInstanceArray compilation defn syn params scope rest (path @ [i]) depth"
  show ?case
  proof (cases "isRange (evalDimension compilation scope it)")
    case False
    then show ?thesis by (simp add: Let_def)
  next
    case True
    have "\<And>i. \<exists>y. ?f i = Inr y"
      using Cons by simp
    then obtain elements where "sequenceResults (map ?f [lower ?r..upper ?r]) = Inr elements"
      using sequenceResults_ok [of "[lower ?r..upper ?r]" ?f] by blast
    moreover have "upper ?r \<noteq> INT32_MAX"
      using Cons.prems(2) True by auto
    ultimately show ?thesis
      using True by (simp add: Let_def)
  qed
qed

text \<open>
  C3, as the code has it. For an instance name whose dimensions all evaluate to constant
  ranges (with upper bounds below \<open>INT32_MAX\<close>, and a definition of which an instance can be
  created), \<open>recurseInstanceArray\<close> returns a symbol with exactly one concrete instance per
  index combination: the array paths of its instances, in order, are the index vectors of
  the ranges, so their number is the product of the sizes of the ranges. When the first
  dimension does not evaluate to a constant range, the result is an array without elements.
  When a later dimension does not, while those before it are proper ranges, no concrete
  instance is created and there is one array without elements under each index combination
  of the dimensions before it: the result itself is then an array that has elements.
\<close>

theorem recurseInstanceArray_leaves:
  "(createInstance defn syn params [] depth = Inr s0
      \<and> (\<forall>d \<in> set dims. isRange (evalDimension compilation scope d)
             \<and> upper (dimRange (evalDimension compilation scope d)) < INT32_MAX)
     \<longrightarrow> (\<exists>s. recurseInstanceArray compilation defn syn params scope dims [] depth = Inr s
            \<and> map arrayPath (leaves s)
                = indexPaths (map (\<lambda>d. dimRange (evalDimension compilation scope d)) dims)
            \<and> length (leaves s)
                = prod_list (map (\<lambda>d. rangeSize (dimRange (evalDimension compilation scope d))) dims)))
   \<and> (\<not> isRange (evalDimension compilation scope bad)
     \<longrightarrow> recurseInstanceArray compilation defn syn params scope (bad # post) [] depth
           = Inr (InstanceArraySym (instanceName syn) [] \<lparr>lower = 0, upper = 0\<rparr>))
   \<and> ((\<forall>d \<in> set pre. isRange (evalDimension compilation scope d)
             \<and> lower (dimRange (evalDimension compilation scope d))
                  \<le> upper (dimRange (evalDimension compilation scope d))
             \<and> upper (dimRange (evalDimension compilation scope d)) < INT32_MAX)
        \<and> \<not> isRange (evalDimension compilation scope bad)
     \<longrightarrow> (\<exists>s. recurseInstanceArray compilation defn syn params scope (pre @ bad # post) [] depth
                 = Inr s
            \<and> leaves s = []
            \<and> placeholders s
                = prod_list (map (\<lambda>d. rangeSize (dimRange (evalDimension compilation scope d))) pre)))"
proof (intro conjI impI)
  assume a: "createInstance defn syn params [] depth = Inr s0
      \<and> (\<forall>d \<in> set dims. isRange (evalDimension compilation scope d)
             \<and> upper (dimRange (evalDimension compilation scope d)) < INT32_MAX)"
  then obtain s where
    s: "recurseInstanceArray compilation defn syn params scope dims [] depth = Inr s"
    using recurseInstanceArray_succeeds [of defn syn params depth s0 dims compilation scope "[]"]
    by blast
  have paths: "map arrayPath (leaves s)
                = indexPaths (map (\<lambda>d. dimRange (evalDimension compilation scope d)) dims)"
  proof -
    have "map ((@) []) xs = xs" for xs :: "int list list"
      by (rule map_idI) simp
    then show ?thesis
      using recurseInstanceArray_paths [OF s] a by simp
  qed
  have "length (map arrayPath (leaves s))
          = prod_list (map rangeSize (map (\<lambda>d. dimRange (evalDimension compilation scope d)) dims))"
    unfolding paths by (rule length_indexPaths)
  then have "length (leaves s)
          = prod_list (map (\<lambda>d. rangeSize (dimRange (evalDimension compilation scope d))) dims)"
    by (simp add: comp_def)
  with s paths show "\<exists>s. recurseInstanceArray compilation defn syn params scope dims [] depth = Inr s
            \<and> map arrayPath (leaves s)
                = indexPaths (map (\<lambda>d. dimRange (evalDimension compilation scope d)) dims)
            \<and> length (leaves s)
                = prod_list (map (\<lambda>d. rangeSize (dimRange (evalDimension compilation scope d))) dims)"
    by blast
next
  assume "\<not> isRange (evalDimension compilation scope bad)"
  then show "recurseInstanceArray compilation defn syn params scope (bad # post) [] depth
           = Inr (InstanceArraySym (instanceName syn) [] \<lparr>lower = 0, upper = 0\<rparr>)"
    by (simp add: Let_def)
next
  assume "(\<forall>d \<in> set pre. isRange (evalDimension compilation scope d)
             \<and> lower (dimRange (evalDimension compilation scope d))
                  \<le> upper (dimRange (evalDimension compilation scope d))
             \<and> upper (dimRange (evalDimension compilation scope d)) < INT32_MAX)
        \<and> \<not> isRange (evalDimension compilation scope bad)"
  then show "\<exists>s. recurseInstanceArray compilation defn syn params scope (pre @ bad # post) [] depth
                 = Inr s
            \<and> leaves s = []
            \<and> placeholders s
                = prod_list (map (\<lambda>d. rangeSize (dimRange (evalDimension compilation scope d))) pre)"
    using recurseInstanceArray_placeholder [of pre compilation scope bad defn syn params post "[]" depth]
    by blast
qed

lemma createInstance_example:
  "createInstance defM instanceU [] [] 1
     = Inr (InstanceSym \<lparr>instanceKind = ModuleInstance, instanceSymbolName = ''u'',
              definitionOf = defM, hierarchyDepth = 1, arrayPath = [],
              instanceMembers = [], portConnections = Some []\<rparr>)"
  by (simp add: createInstance_def instantiate_def populate_def newInstance_def defM_def
      instanceU_def)

lemma evalDimension_example:
  "evalDimension exampleCompilation sc ''[0:1]'' = \<lparr>isRange = True, dimRange = \<lparr>lower = 0, upper = 1\<rparr>\<rparr>"
  "evalDimension exampleCompilation sc ''[3:1]'' = \<lparr>isRange = True, dimRange = \<lparr>lower = 1, upper = 3\<rparr>\<rparr>"
  "evalDimension exampleCompilation sc ''[x]'' = \<lparr>isRange = False, dimRange = \<lparr>lower = 0, upper = 0\<rparr>\<rparr>"
  by (simp_all add: exampleCompilation_def)

theorem recurseInstanceArray_leaves_witness:
  "(\<exists>s. recurseInstanceArray exampleCompilation defM instanceU [] topScope
           [''[0:1]'', ''[3:1]''] [] 1 = Inr s
        \<and> map arrayPath (leaves s) = [[0, 1], [0, 2], [0, 3], [1, 1], [1, 2], [1, 3]]
        \<and> length (leaves s) = 6)
   \<and> recurseInstanceArray exampleCompilation defM instanceU [] topScope [''[x]'', ''[0:1]''] [] 1
       = Inr (InstanceArraySym ''u'' [] \<lparr>lower = 0, upper = 0\<rparr>)
   \<and> (\<exists>s. recurseInstanceArray exampleCompilation defM instanceU [] topScope
           [''[0:1]'', ''[x]'', ''[0:1]''] [] 1 = Inr s
        \<and> leaves s = [] \<and> placeholders s = 2)"
proof -
  note all = recurseInstanceArray_leaves
    [of defM instanceU "[]" 1 _ "[''[0:1]'', ''[3:1]'']" exampleCompilation topScope
        "''[x]''" "[''[0:1]'']" "[''[0:1]'']"]
  have ranges: "\<forall>d \<in> set [''[0:1]'', ''[3:1]''].
           isRange (evalDimension exampleCompilation topScope d)
         \<and> upper (dimRange (evalDimension exampleCompilation topScope d)) < INT32_MAX"
    by (simp add: evalDimension_example INT32_MAX_def)
  have pre: "\<forall>d \<in> set [''[0:1]''].
           isRange (evalDimension exampleCompilation topScope d)
         \<and> lower (dimRange (evalDimension exampleCompilation topScope d))
              \<le> upper (dimRange (evalDimension exampleCompilation topScope d))
         \<and> upper (dimRange (evalDimension exampleCompilation topScope d)) < INT32_MAX"
    by (simp add: evalDimension_example INT32_MAX_def)
  have bad: "\<not> isRange (evalDimension exampleCompilation topScope ''[x]'')"
    by (simp add: evalDimension_example)
  have paths: "indexPaths (map (\<lambda>d. dimRange (evalDimension exampleCompilation topScope d))
                 [''[0:1]'', ''[3:1]''])
               = [[0, 1], [0, 2], [0, 3], [1, 1], [1, 2], [1, 3]]"
    by (simp add: evalDimension_example upto.simps)
  have sizes: "prod_list (map (\<lambda>d. rangeSize (dimRange (evalDimension exampleCompilation topScope d)))
                 [''[0:1]'', ''[3:1]'']) = 6"
       "prod_list (map (\<lambda>d. rangeSize (dimRange (evalDimension exampleCompilation topScope d)))
                 [''[0:1]'']) = 2"
    by (simp_all add: evalDimension_example rangeSize_def)
  have name: "instanceName instanceU = ''u''"
    by (simp add: instanceU_def)
  have p1: "\<exists>s. recurseInstanceArray exampleCompilation defM instanceU [] topScope
           [''[0:1]'', ''[3:1]''] [] 1 = Inr s
        \<and> map arrayPath (leaves s)
            = indexPaths (map (\<lambda>d. dimRange (evalDimension exampleCompilation topScope d))
                 [''[0:1]'', ''[3:1]''])
        \<and> length (leaves s)
            = prod_list (map (\<lambda>d. rangeSize (dimRange (evalDimension exampleCompilation topScope d)))
                 [''[0:1]'', ''[3:1]''])"
    using all createInstance_example ranges by blast
  have p2: "recurseInstanceArray exampleCompilation defM instanceU [] topScope
              [''[x]'', ''[0:1]''] [] 1
            = Inr (InstanceArraySym (instanceName instanceU) [] \<lparr>lower = 0, upper = 0\<rparr>)"
    using all bad by blast
  have p3: "\<exists>s. recurseInstanceArray exampleCompilation defM instanceU [] topScope
           ([''[0:1]''] @ ''[x]'' # [''[0:1]'']) [] 1 = Inr s
        \<and> leaves s = []
        \<and> placeholders s
            = prod_list (map (\<lambda>d. rangeSize (dimRange (evalDimension exampleCompilation topScope d)))
                 [''[0:1]''])"
    using all pre bad by blast
  have p3': "\<exists>s. recurseInstanceArray exampleCompilation defM instanceU [] topScope
           [''[0:1]'', ''[x]'', ''[0:1]''] [] 1 = Inr s
        \<and> leaves s = [] \<and> placeholders s = 2"
    using p3 unfolding sizes by (simp only: append.simps)
  show ?thesis
    using p1 p2 p3' unfolding paths sizes name by blast
qed

theorem recurseInstanceArray_placeholder_counterexample:
  "\<not> isRange (evalDimension exampleCompilation topScope ''[x]'')
   \<and> recurseInstanceArray exampleCompilation defM instanceU [] topScope [''[0:1]'', ''[x]''] [] 1
       = Inr (InstanceArraySym ''u''
                [InstanceArraySym [] [] \<lparr>lower = 0, upper = 0\<rparr>,
                 InstanceArraySym [] [] \<lparr>lower = 0, upper = 0\<rparr>]
                \<lparr>lower = 0, upper = 1\<rparr>)
   \<and> recurseInstanceArray exampleCompilation defM instanceU [] topScope [''[0:1]'', ''[x]''] [] 1
       \<noteq> Inr (InstanceArraySym ''u'' [] \<lparr>lower = 0, upper = 0\<rparr>)"
  by (simp add: evalDimension_example Let_def upto.simps INT32_MAX_def instanceU_def)

section \<open>Properties of the parameter assignments\<close>

lemma collectParams_named:
  "\<forall>a \<in> set ps. \<not> isOrderedArgument a \<Longrightarrow>
   hasParamAssignments st \<longrightarrow> \<not> orderedAssignments st \<Longrightarrow>
   collectParams ps st diags = (st', diags') \<Longrightarrow>
   fst ` set (namedParams st')
     = fst ` set (namedParams st) \<union> {n. n \<noteq> [] \<and> (\<exists>e. NamedArgument n e \<in> set ps)}
   \<and> (distinct (map fst (namedParams st)) \<longrightarrow> distinct (map fst (namedParams st')))
   \<and> (ps \<noteq> [] \<longrightarrow> \<not> orderedAssignments st')
   \<and> (ps = [] \<longrightarrow> st' = st)
   \<and> ((\<forall>x \<in> set (namedParams st). \<not> snd (snd x)) \<longrightarrow> (\<forall>x \<in> set (namedParams st'). \<not> snd (snd x)))
   \<and> (\<exists>new. diags' = diags @ new \<and> (\<forall>d \<in> set new. diagCode d = DuplicateParamAssignment))"
proof (induction ps arbitrary: st diags)
  case Nil
  then show ?case by simp
next
  case (Cons a ps)
  then obtain n e where a: "a = NamedArgument n e"
    by (cases a) auto
  let ?st1 = "if hasParamAssignments st then st
              else st\<lparr>hasParamAssignments := True, orderedAssignments := False\<rparr>"
  have st1: "hasParamAssignments ?st1" "\<not> orderedAssignments ?st1"
      "namedParams ?st1 = namedParams st"
    using Cons.prems(2) by auto
  show ?case
  proof (cases "n = []")
    case True
    then have run: "collectParams ps ?st1 diags = (st', diags')"
      using Cons.prems(2,3) a by (auto simp: Let_def)
    have ih: "fst ` set (namedParams st')
         = fst ` set (namedParams ?st1) \<union> {n. n \<noteq> [] \<and> (\<exists>e. NamedArgument n e \<in> set ps)}
       \<and> (distinct (map fst (namedParams ?st1)) \<longrightarrow> distinct (map fst (namedParams st')))
       \<and> (ps \<noteq> [] \<longrightarrow> \<not> orderedAssignments st')
       \<and> (ps = [] \<longrightarrow> st' = ?st1)
       \<and> ((\<forall>x \<in> set (namedParams ?st1). \<not> snd (snd x)) \<longrightarrow> (\<forall>x \<in> set (namedParams st'). \<not> snd (snd x)))
       \<and> (\<exists>new. diags' = diags @ new \<and> (\<forall>d \<in> set new. diagCode d = DuplicateParamAssignment))"
      using Cons.IH [OF _ _ run] Cons.prems(1) st1 by simp
    have names: "{m. m \<noteq> [] \<and> (\<exists>e. NamedArgument m e \<in> set (a # ps))}
                = {m. m \<noteq> [] \<and> (\<exists>e. NamedArgument m e \<in> set ps)}"
      using a True by auto
    have ord: "\<not> orderedAssignments st'"
      using ih st1 by (cases "ps = []") auto
    show ?thesis
      unfolding names using ih st1 ord by auto
  next
    case False
    show ?thesis
    proof (cases "map_of (namedParams st) n")
      case None
      let ?st2 = "?st1\<lparr>namedParams := namedParams ?st1 @ [(n, e, False)]\<rparr>"
      have run: "collectParams ps ?st2 diags = (st', diags')"
        using Cons.prems(2,3) a False None by (auto simp: Let_def)
      have st2: "hasParamAssignments ?st2 \<longrightarrow> \<not> orderedAssignments ?st2"
        using st1 by simp
      have nm2: "namedParams ?st2 = namedParams st @ [(n, e, False)]"
        using st1 by simp
      have notin: "n \<notin> fst ` set (namedParams st)"
        using None by (simp add: map_of_eq_None_iff)
      have ih: "fst ` set (namedParams st')
         = fst ` set (namedParams ?st2) \<union> {n. n \<noteq> [] \<and> (\<exists>e. NamedArgument n e \<in> set ps)}
       \<and> (distinct (map fst (namedParams ?st2)) \<longrightarrow> distinct (map fst (namedParams st')))
       \<and> (ps \<noteq> [] \<longrightarrow> \<not> orderedAssignments st')
       \<and> (ps = [] \<longrightarrow> st' = ?st2)
       \<and> ((\<forall>x \<in> set (namedParams ?st2). \<not> snd (snd x)) \<longrightarrow> (\<forall>x \<in> set (namedParams st'). \<not> snd (snd x)))
       \<and> (\<exists>new. diags' = diags @ new \<and> (\<forall>d \<in> set new. diagCode d = DuplicateParamAssignment))"
        using Cons.IH [OF _ st2 run] Cons.prems(1) by simp
      have names: "{m. m \<noteq> [] \<and> (\<exists>e. NamedArgument m e \<in> set (a # ps))}
                = insert n {m. m \<noteq> [] \<and> (\<exists>e. NamedArgument m e \<in> set ps)}"
        using a False by auto
      have ord: "\<not> orderedAssignments st'"
        using ih st1 by (cases "ps = []") auto
      show ?thesis
        unfolding names using ih nm2 notin ord by auto
    next
      case (Some previous)
      have run: "collectParams ps ?st1 (diags @ [Diag DuplicateParamAssignment [Text n]])
                   = (st', diags')"
        using Cons.prems(2,3) a False Some by (auto simp: Let_def)
      have isin: "n \<in> fst ` set (namedParams st)"
        using Some by (meson domI domIff map_of_eq_None_iff)
      have ih: "fst ` set (namedParams st')
         = fst ` set (namedParams ?st1) \<union> {n. n \<noteq> [] \<and> (\<exists>e. NamedArgument n e \<in> set ps)}
       \<and> (distinct (map fst (namedParams ?st1)) \<longrightarrow> distinct (map fst (namedParams st')))
       \<and> (ps \<noteq> [] \<longrightarrow> \<not> orderedAssignments st')
       \<and> (ps = [] \<longrightarrow> st' = ?st1)
       \<and> ((\<forall>x \<in> set (namedParams ?st1). \<not> snd (snd x)) \<longrightarrow> (\<forall>x \<in> set (namedParams st'). \<not> snd (snd x)))
       \<and> (\<exists>new. diags' = (diags @ [Diag DuplicateParamAssignment [Text n]]) @ new
              \<and> (\<forall>d \<in> set new. diagCode d = DuplicateParamAssignment))"
        using Cons.IH [OF _ _ run] Cons.prems(1) st1 by simp
      then obtain new where new: "diags' = (diags @ [Diag DuplicateParamAssignment [Text n]]) @ new"
          "\<forall>d \<in> set new. diagCode d = DuplicateParamAssignment"
        by blast
      have dg: "\<exists>new'. diags' = diags @ new' \<and> (\<forall>d \<in> set new'. diagCode d = DuplicateParamAssignment)"
        using new by (intro exI [of _ "Diag DuplicateParamAssignment [Text n] # new"]) simp
      have names: "{m. m \<noteq> [] \<and> (\<exists>e. NamedArgument m e \<in> set (a # ps))}
                = insert n {m. m \<noteq> [] \<and> (\<exists>e. NamedArgument m e \<in> set ps)}"
        using a False by auto
      have ord: "\<not> orderedAssignments st'"
        using ih st1 by (cases "ps = []") auto
      show ?thesis
        unfolding names using ih st1 isin ord dg by auto
    qed
  qed
qed


lemma markUsed_map:
  "distinct (map fst named) \<Longrightarrow>
   markUsed n named = map (\<lambda>(k, a, u). (k, a, u \<or> k = n)) named"
proof (induction named)
  case Nil
  then show ?case by simp
next
  case (Cons x named)
  obtain k a u where x: "x = (k, a, u)"
    by (cases x) auto
  show ?case
  proof (cases "k = n")
    case True
    then have "n \<notin> fst ` set named"
      using Cons.prems x by auto
    then have "map (\<lambda>(k, a, u). (k, a, u \<or> k = n)) named = named"
      by (intro map_idI) force
    then show ?thesis
      using True x by simp
  next
    case False
    then show ?thesis
      using Cons x by simp
  qed
qed

lemma map_of_named_Some:
  "map_of named n = Some (a, u) \<Longrightarrow> n \<in> fst ` set named"
  by (meson domI domIff map_of_eq_None_iff)

lemma assignNamed_step:
  assumes keys: "fst ` set named1 = fst ` set named"
    and named: "map (\<lambda>(k, a, u). (k, a, u \<or> k \<in> paramName ` set params)) named1
              = map (\<lambda>(k, a, u). (k, a, u \<or> k \<in> paramName ` set (p # params))) named"
    and diags: "diags1 @ map localDiag
                  (filter (\<lambda>q. isLocalParam q \<and> paramName q \<in> fst ` set named) params)
              = diags @ map localDiag
                  (filter (\<lambda>q. isLocalParam q \<and> paramName q \<in> fst ` set named) (p # params))"
    and ov: "\<And>m x. ov1 m = Some x \<Longrightarrow>
               ov m = Some x \<or> (m = paramName p \<and> \<not> isLocalParam p \<and> m \<in> fst ` set named)"
    and ih: "named' = map (\<lambda>(k, a, u). (k, a, u \<or> k \<in> paramName ` set params)) named1
       \<and> diags' = diags1 @ map localDiag
                 (filter (\<lambda>p. isLocalParam p \<and> paramName p \<in> fst ` set named1) params)
       \<and> (\<forall>n e. ov' n = Some e \<longrightarrow>
              ov1 n = Some e
              \<or> (n \<in> fst ` set named1 \<and> (\<exists>p \<in> set params. paramName p = n \<and> \<not> isLocalParam p)))"
  shows "named' = map (\<lambda>(k, a, u). (k, a, u \<or> k \<in> paramName ` set (p # params))) named
       \<and> diags' = diags @ map localDiag
                 (filter (\<lambda>p. isLocalParam p \<and> paramName p \<in> fst ` set named) (p # params))
       \<and> (\<forall>n e. ov' n = Some e \<longrightarrow>
              ov n = Some e
              \<or> (n \<in> fst ` set named
                  \<and> (\<exists>q \<in> set (p # params). paramName q = n \<and> \<not> isLocalParam q)))"
proof (intro conjI allI impI)
  show "named' = map (\<lambda>(k, a, u). (k, a, u \<or> k \<in> paramName ` set (p # params))) named"
    using ih named by simp
  show "diags' = diags @ map localDiag
                 (filter (\<lambda>p. isLocalParam p \<and> paramName p \<in> fst ` set named) (p # params))"
    using ih diags keys by simp
  fix n e
  assume "ov' n = Some e"
  then consider "ov1 n = Some e"
    | "n \<in> fst ` set named" "\<exists>q \<in> set params. paramName q = n \<and> \<not> isLocalParam q"
    using ih keys by blast
  then show "ov n = Some e
              \<or> (n \<in> fst ` set named
                  \<and> (\<exists>q \<in> set (p # params). paramName q = n \<and> \<not> isLocalParam q))"
  proof cases
    case 1
    from ov [OF this] show ?thesis by auto
  next
    case 2
    then show ?thesis by auto
  qed
qed

lemma assignNamed_result:
  "distinct (map fst named) \<Longrightarrow>
   assignNamed params named ov diags = (named', ov', diags') \<Longrightarrow>
   named' = map (\<lambda>(k, a, u). (k, a, u \<or> k \<in> paramName ` set params)) named
   \<and> diags' = diags @ map localDiag
                 (filter (\<lambda>p. isLocalParam p \<and> paramName p \<in> fst ` set named) params)
   \<and> (\<forall>n e. ov' n = Some e \<longrightarrow>
          ov n = Some e
          \<or> (n \<in> fst ` set named \<and> (\<exists>p \<in> set params. paramName p = n \<and> \<not> isLocalParam p)))"
proof (induction params arbitrary: named ov diags)
  case Nil
  have "map (\<lambda>(k, a, u). (k, a, u \<or> k \<in> paramName ` set [])) named = named"
    by (intro map_idI) auto
  then show ?case
    using Nil by simp
next
  case (Cons p params)
  let ?n = "paramName p"
  show ?case
  proof (cases "map_of named ?n")
    case None
    then have notin: "?n \<notin> fst ` set named"
      by (simp add: map_of_eq_None_iff)
    have run: "assignNamed params named ov diags = (named', ov', diags')"
      using Cons.prems(2) None by simp
    have eq: "map (\<lambda>(k, a, u). (k, a, u \<or> k \<in> paramName ` set params)) named
            = map (\<lambda>(k, a, u). (k, a, u \<or> k \<in> paramName ` set (p # params))) named"
      using notin by (intro map_cong) force+
    show ?thesis
    proof (rule assignNamed_step [where ?named1.0 = named and ?diags1.0 = diags and ?ov1.0 = ov])
      show "map (\<lambda>(k, a, u). (k, a, u \<or> k \<in> paramName ` set params)) named
            = map (\<lambda>(k, a, u). (k, a, u \<or> k \<in> paramName ` set (p # params))) named"
        by (rule eq)
      show "diags @ map localDiag
                  (filter (\<lambda>q. isLocalParam q \<and> paramName q \<in> fst ` set named) params)
              = diags @ map localDiag
                  (filter (\<lambda>q. isLocalParam q \<and> paramName q \<in> fst ` set named) (p # params))"
        using notin by simp
    qed (use Cons.IH [OF Cons.prems(1) run] in auto)
  next
    case (Some entry)
    obtain arg used where entry: "entry = (arg, used)"
      by (cases entry) auto
    have isin: "?n \<in> fst ` set named"
      using Some entry map_of_named_Some by fast
    let ?named1 = "markUsed ?n named"
    have named1: "?named1 = map (\<lambda>(k, a, u). (k, a, u \<or> k = ?n)) named"
      using markUsed_map [OF Cons.prems(1)] .
    have keys1: "map fst ?named1 = map fst named"
      unfolding named1 by (induction named) auto
    then have dist1: "distinct (map fst ?named1)"
      using Cons.prems(1) by simp
    have keyset1: "fst ` set ?named1 = fst ` set named"
      using keys1 by (metis list.set_map)
    have comp: "map (\<lambda>(k, a, u). (k, a, u \<or> k \<in> paramName ` set params)) ?named1
              = map (\<lambda>(k, a, u). (k, a, u \<or> k \<in> paramName ` set (p # params))) named"
      unfolding named1 by (induction named) auto
    show ?thesis
    proof (cases "isLocalParam p")
      case True
      have run: "assignNamed params ?named1 ov (diags @ [localDiag p]) = (named', ov', diags')"
        using Cons.prems(2) Some entry True by (simp add: Let_def localDiag_def)
      show ?thesis
      proof (rule assignNamed_step [where ?named1.0 = ?named1
            and ?diags1.0 = "diags @ [localDiag p]" and ?ov1.0 = ov])
        show "(diags @ [localDiag p]) @ map localDiag
                  (filter (\<lambda>q. isLocalParam q \<and> paramName q \<in> fst ` set named) params)
              = diags @ map localDiag
                  (filter (\<lambda>q. isLocalParam q \<and> paramName q \<in> fst ` set named) (p # params))"
          using True isin by simp
      qed (use Cons.IH [OF dist1 run] keyset1 comp in auto)
    next
      case False
      show ?thesis
      proof (cases arg)
        case None
        have run: "assignNamed params ?named1 ov diags = (named', ov', diags')"
          using Cons.prems(2) Some entry False None by (simp add: Let_def)
        show ?thesis
        proof (rule assignNamed_step [where ?named1.0 = ?named1
              and ?diags1.0 = diags and ?ov1.0 = ov])
          show "diags @ map localDiag
                  (filter (\<lambda>q. isLocalParam q \<and> paramName q \<in> fst ` set named) params)
              = diags @ map localDiag
                  (filter (\<lambda>q. isLocalParam q \<and> paramName q \<in> fst ` set named) (p # params))"
            using False by simp
        qed (use Cons.IH [OF dist1 run] keyset1 comp in auto)
      next
        case (Some e)
        have run: "assignNamed params ?named1 (emplace ov ?n e) diags = (named', ov', diags')"
          using Cons.prems(2) \<open>map_of named ?n = Some entry\<close> entry False Some
          by (simp add: Let_def)
        have emp: "emplace ov ?n e m = Some x \<Longrightarrow> ov m = Some x \<or> m = ?n" for m x
          by (auto simp: emplace_def split: if_splits)
        show ?thesis
        proof (rule assignNamed_step [where ?named1.0 = ?named1
              and ?diags1.0 = diags and ?ov1.0 = "emplace ov ?n e"])
          show "diags @ map localDiag
                  (filter (\<lambda>q. isLocalParam q \<and> paramName q \<in> fst ` set named) params)
              = diags @ map localDiag
                  (filter (\<lambda>q. isLocalParam q \<and> paramName q \<in> fst ` set named) (p # params))"
            using False by simp
          show "\<And>m x. emplace ov ?n e m = Some x \<Longrightarrow>
               ov m = Some x \<or> (m = paramName p \<and> \<not> isLocalParam p \<and> m \<in> fst ` set named)"
            using emp False isin by blast
        qed (use Cons.IH [OF dist1 run] keyset1 comp in auto)
      qed
    qed
  qed
qed

lemma assignOrdered_result:
  "assignOrdered params ordered i ov = (i', ov') \<Longrightarrow>
   \<forall>n e. ov' n = Some e \<longrightarrow>
     ov n = Some e \<or> (\<exists>p \<in> set params. paramName p = n \<and> \<not> isLocalParam p)"
proof (induction params arbitrary: i ov)
  case Nil
  then show ?case by simp
next
  case (Cons p params)
  have emp: "emplace ov (paramName p) x m = Some y \<Longrightarrow> ov m = Some y \<or> m = paramName p"
    for m x y
    by (auto simp: emplace_def split: if_splits)
  show ?case
  proof (cases "i \<ge> length ordered")
    case True
    then show ?thesis using Cons.prems by simp
  next
    case False
    show ?thesis
    proof (cases "isLocalParam p")
      case True
      then have "assignOrdered params ordered i ov = (i', ov')"
        using Cons.prems False by simp
      from Cons.IH [OF this] show ?thesis by auto
    next
      case local: False
      then have "assignOrdered params ordered (i + 1) (emplace ov (paramName p) (ordered ! i))
                   = (i', ov')"
        using Cons.prems False by simp
      from Cons.IH [OF this] emp local show ?thesis by fastforce
    qed
  qed
qed


lemma set_namedArgumentNames:
  "set (namedArgumentNames ps) = {n. n \<noteq> [] \<and> (\<exists>e. NamedArgument n e \<in> set ps)}"
  by (induction ps rule: namedArgumentNames.induct) auto

lemma collectParams_prefix:
  "hasParamAssignments st \<Longrightarrow> \<not> orderedAssignments st \<Longrightarrow>
   collectParams ps st diags = (st', diags') \<Longrightarrow>
   \<exists>d1. collectParams (takeWhile (\<lambda>a. \<not> isOrderedArgument a) ps) st diags = (st', d1)
        \<and> (diags' = d1 \<or> diags' = d1 @ [Diag MixingOrderedAndNamedParams []])"
proof (induction ps arbitrary: st diags)
  case Nil
  then show ?case by simp
next
  case (Cons a ps)
  show ?case
  proof (cases a)
    case (OrderedArgument e)
    then show ?thesis
      using Cons.prems by simp
  next
    case (NamedArgument n e)
    show ?thesis
    proof (cases "n = []")
      case True
      then have run: "collectParams ps st diags = (st', diags')"
        using Cons.prems NamedArgument by (simp add: Let_def)
      from Cons.IH [OF Cons.prems(1,2) run] show ?thesis
        using NamedArgument True Cons.prems(1,2) by (simp add: Let_def)
    next
      case False
      show ?thesis
      proof (cases "map_of (namedParams st) n")
        case None
        let ?st2 = "st\<lparr>namedParams := namedParams st @ [(n, e, False)]\<rparr>"
        have run: "collectParams ps ?st2 diags = (st', diags')"
          using Cons.prems NamedArgument False None by (simp add: Let_def)
        have "hasParamAssignments ?st2" "\<not> orderedAssignments ?st2"
          using Cons.prems(1,2) by simp_all
        from Cons.IH [OF this run] show ?thesis
          using NamedArgument False None Cons.prems(1,2) by (simp add: Let_def)
      next
        case (Some previous)
        have run: "collectParams ps st (diags @ [Diag DuplicateParamAssignment [Text n]])
                     = (st', diags')"
          using Cons.prems NamedArgument False Some by (simp add: Let_def)
        from Cons.IH [OF Cons.prems(1,2) run] show ?thesis
          using NamedArgument False Some Cons.prems(1,2) by (simp add: Let_def)
      qed
    qed
  qed
qed

lemma collectParams_first_named:
  "collectParams (NamedArgument n e # ps) noParamAssignments diags
     = collectParams (NamedArgument n e # ps)
         (noParamAssignments\<lparr>hasParamAssignments := True, orderedAssignments := False\<rparr>) diags"
  by (simp add: noParamAssignments_def Let_def)

text \<open>
  The state of the first loop when the first assignment is named: the names collected are
  those of the named assignments before the first ordered one, each once, none marked used;
  the diagnostics added are \<open>DuplicateParamAssignment\<close> and \<open>MixingOrderedAndNamedParams\<close> only.
\<close>

lemma collectParams_named_form:
  assumes run: "collectParams (NamedArgument n e # rest) noParamAssignments diags = (st', diags')"
  shows "\<not> orderedAssignments st'"
    and "fst ` set (namedParams st') = set (collectedNames (NamedArgument n e # rest))"
    and "distinct (map fst (namedParams st'))"
    and "\<forall>x \<in> set (namedParams st'). \<not> snd (snd x)"
    and "\<exists>new. diags' = diags @ new
           \<and> (\<forall>d \<in> set new. diagCode d = DuplicateParamAssignment
                              \<or> diagCode d = MixingOrderedAndNamedParams)"
proof -
  let ?ps = "NamedArgument n e # rest"
  let ?st0 = "noParamAssignments\<lparr>hasParamAssignments := True, orderedAssignments := False\<rparr>"
  let ?pre = "takeWhile (\<lambda>a. \<not> isOrderedArgument a) ?ps"
  have run0: "collectParams ?ps ?st0 diags = (st', diags')"
    using run collectParams_first_named by simp
  have st0: "hasParamAssignments ?st0" "\<not> orderedAssignments ?st0" "namedParams ?st0 = []"
    by (simp_all add: noParamAssignments_def)
  obtain d1 where pre: "collectParams ?pre ?st0 diags = (st', d1)"
    and d1: "diags' = d1 \<or> diags' = d1 @ [Diag MixingOrderedAndNamedParams []]"
    using collectParams_prefix [OF st0(1,2) run0] by blast
  have named: "\<forall>a \<in> set ?pre. \<not> isOrderedArgument a"
    by (metis (mono_tags, lifting) set_takeWhileD)
  have nonempty: "?pre \<noteq> []"
    by simp
  have imp: "hasParamAssignments ?st0 \<longrightarrow> \<not> orderedAssignments ?st0"
    using st0 by simp
  note facts = collectParams_named [OF named imp pre]
  show "\<not> orderedAssignments st'"
    using facts nonempty by blast
  show "fst ` set (namedParams st') = set (collectedNames ?ps)"
    using facts st0(3) unfolding collectedNames_def set_namedArgumentNames by simp
  show "distinct (map fst (namedParams st'))"
    using facts st0(3) by simp
  show "\<forall>x \<in> set (namedParams st'). \<not> snd (snd x)"
    using facts st0(3) by simp
  from facts obtain new where new: "d1 = diags @ new"
      "\<forall>d \<in> set new. diagCode d = DuplicateParamAssignment"
    by blast
  from d1 show "\<exists>new. diags' = diags @ new
           \<and> (\<forall>d \<in> set new. diagCode d = DuplicateParamAssignment
                              \<or> diagCode d = MixingOrderedAndNamedParams)"
  proof
    assume "diags' = d1"
    then show ?thesis using new by auto
  next
    assume "diags' = d1 @ [Diag MixingOrderedAndNamedParams []]"
    then have "diags' = diags @ (new @ [Diag MixingOrderedAndNamedParams []])"
      using new by simp
    moreover have "\<forall>d \<in> set (new @ [Diag MixingOrderedAndNamedParams []]).
                     diagCode d = DuplicateParamAssignment
                   \<or> diagCode d = MixingOrderedAndNamedParams"
      using new by auto
    ultimately show ?thesis by blast
  qed
qed

text \<open>
  The state of the first loop when the first assignment is ordered: the form stays ordered,
  and the only diagnostic that can be added is \<open>MixingOrderedAndNamedParams\<close>.
\<close>

lemma collectParams_ordered_form:
  "hasParamAssignments st \<longrightarrow> orderedAssignments st \<Longrightarrow>
   ps = [] \<or> isOrderedArgument (hd ps) \<Longrightarrow> orderedAssignments st \<Longrightarrow>
   collectParams ps st diags = (st', diags') \<Longrightarrow>
   orderedAssignments st'
   \<and> (diags' = diags \<or> diags' = diags @ [Diag MixingOrderedAndNamedParams []])"
proof (induction ps arbitrary: st)
  case Nil
  then show ?case by simp
next
  case (Cons a ps)
  then obtain e where a: "a = OrderedArgument e"
    by (cases a) auto
  let ?st1 = "(if hasParamAssignments st then st
               else st\<lparr>hasParamAssignments := True, orderedAssignments := True\<rparr>)
              \<lparr>orderedParams := orderedParams (if hasParamAssignments st then st
               else st\<lparr>hasParamAssignments := True, orderedAssignments := True\<rparr>) @ [e]\<rparr>"
  have run: "collectParams ps ?st1 diags = (st', diags')"
    using Cons.prems a by (auto simp: Let_def)
  have st1: "hasParamAssignments ?st1" "orderedAssignments ?st1"
    using Cons.prems(3) by auto
  show ?case
  proof (cases ps)
    case Nil
    then show ?thesis using run st1 by auto
  next
    case (Cons b ps')
    show ?thesis
    proof (cases "isOrderedArgument b")
      case True
      then have "ps = [] \<or> isOrderedArgument (hd ps)"
        using Cons by simp
      from Cons.IH [OF _ this st1(2) run] st1 show ?thesis by simp
    next
      case False
      then show ?thesis
        using run st1 Cons by (auto simp: Let_def)
    qed
  qed
qed


lemma emitted_append: "emitted xs (xs @ ys) = ys"
  by (simp add: emitted_def)

lemma count_unused:
  "distinct (map fst named) \<Longrightarrow>
   count_list (map (\<lambda>x. Diag ParameterDoesNotExist [Text (fst x), Text dn])
                 (filter (\<lambda>x. P (fst x)) named))
              (Diag ParameterDoesNotExist [Text n, Text dn])
     = (if n \<in> fst ` set named \<and> P n then 1 else 0)"
proof (induction named)
  case Nil
  then show ?case by simp
next
  case (Cons x named)
  have ih: "count_list (map (\<lambda>x. Diag ParameterDoesNotExist [Text (fst x), Text dn])
                 (filter (\<lambda>x. P (fst x)) named))
              (Diag ParameterDoesNotExist [Text n, Text dn])
     = (if n \<in> fst ` set named \<and> P n then 1 else 0)"
    by (rule Cons.IH) (use Cons.prems in simp)
  have notin: "fst x \<notin> fst ` set named"
    using Cons.prems by auto
  show ?case
  proof (cases "fst x = n")
    case True
    then show ?thesis
      using ih notin by auto
  next
    case False
    then show ?thesis
      using ih by auto
  qed
qed

lemma unusedDiags_marked:
  "\<forall>x \<in> set named. \<not> snd (snd x) \<Longrightarrow>
   unusedDiags dn (map (\<lambda>(k, a, u). (k, a, u \<or> k \<in> S)) named)
     = map (\<lambda>x. Diag ParameterDoesNotExist [Text (fst x), Text dn])
         (filter (\<lambda>x. fst x \<notin> S) named)"
  by (induction named) (auto simp: unusedDiags_def)

lemma count_list_other:
  "\<forall>d \<in> set ds. diagCode d \<noteq> c \<Longrightarrow> count_list ds (Diag c as) = 0"
  by (induction ds) auto

lemma countDiags_other:
  "\<forall>d \<in> set ds. diagCode d \<noteq> c \<Longrightarrow> countDiags c ds = 0"
  by (induction ds) (auto simp: countDiags_def)

lemma countDiags_localDiag_port:
  "countDiags AssignedToLocalPortParam (map localDiag ps) = length (filter isPortParam ps)"
  by (induction ps) (auto simp: countDiags_def localDiag_def)

lemma countDiags_localDiag_body:
  "countDiags AssignedToLocalBodyParam (map localDiag ps)
     = length (filter (\<lambda>p. \<not> isPortParam p) ps)"
  by (induction ps) (auto simp: countDiags_def localDiag_def)

text \<open>
  The overrides and the diagnostics when the first assignment is named: after the
  diagnostics of the first loop come one diagnostic for each local parameter of the
  definition whose name was collected, and one \<open>ParameterDoesNotExist\<close> for each collected
  name that no parameter of the definition has.
\<close>

lemma buildParamOverrides_named_form:
  assumes run: "buildParamOverrides defn (Some (NamedArgument n0 e0 # rest)) diags = (ov, diags')"
  shows "\<exists>early unused.
           diags' = diags @ early
                      @ map localDiag
                          (filter (\<lambda>p. isLocalParam p
                                     \<and> paramName p \<in> set (collectedNames (NamedArgument n0 e0 # rest)))
                             (parameters defn))
                      @ unused
         \<and> (\<forall>d \<in> set early. diagCode d = DuplicateParamAssignment
                              \<or> diagCode d = MixingOrderedAndNamedParams)
         \<and> (\<forall>d \<in> set unused. diagCode d = ParameterDoesNotExist)
         \<and> (\<forall>n. count_list unused (Diag ParameterDoesNotExist [Text n, Text (definitionName defn)])
                = (if n \<in> set (collectedNames (NamedArgument n0 e0 # rest))
                      \<and> n \<notin> paramName ` set (parameters defn) then 1 else 0))"
    and "\<forall>n e. ov n = Some e \<longrightarrow>
           n \<in> set (collectedNames (NamedArgument n0 e0 # rest))
           \<and> (\<exists>p \<in> set (parameters defn). paramName p = n \<and> \<not> isLocalParam p)"
proof -
  let ?ps = "NamedArgument n0 e0 # rest"
  obtain st d1 where collect: "collectParams ?ps noParamAssignments diags = (st, d1)"
    by (cases "collectParams ?ps noParamAssignments diags") auto
  note c = collectParams_named_form [OF collect]
  obtain named ov1 d2 where assign:
    "assignNamed (parameters defn) (namedParams st) Map.empty d1 = (named, ov1, d2)"
    by (cases "assignNamed (parameters defn) (namedParams st) Map.empty d1") auto
  have res: "ov = ov1" "diags' = d2 @ unusedDiags (definitionName defn) named"
    using run collect assign c(1) by (simp_all add: buildParamOverrides_def)
  note a = assignNamed_result [OF c(3) assign]
  obtain early where early: "d1 = diags @ early"
      "\<forall>d \<in> set early. diagCode d = DuplicateParamAssignment
                       \<or> diagCode d = MixingOrderedAndNamedParams"
    using c(5) by blast
  let ?unused = "map (\<lambda>x. Diag ParameterDoesNotExist [Text (fst x), Text (definitionName defn)])
                   (filter (\<lambda>x. fst x \<notin> paramName ` set (parameters defn)) (namedParams st))"
  have unused: "unusedDiags (definitionName defn) named = ?unused"
    using a unusedDiags_marked [OF c(4)] by simp
  have d2: "d2 = d1 @ map localDiag
                 (filter (\<lambda>p. isLocalParam p \<and> paramName p \<in> set (collectedNames ?ps))
                    (parameters defn))"
    using a c(2) by simp
  have shape: "diags' = diags @ early
                      @ map localDiag
                          (filter (\<lambda>p. isLocalParam p \<and> paramName p \<in> set (collectedNames ?ps))
                             (parameters defn))
                      @ ?unused"
    using res(2) d2 early(1) unused by simp
  have codes: "\<forall>d \<in> set ?unused. diagCode d = ParameterDoesNotExist"
    by auto
  have counts: "\<forall>n. count_list ?unused (Diag ParameterDoesNotExist [Text n, Text (definitionName defn)])
                = (if n \<in> set (collectedNames ?ps)
                      \<and> n \<notin> paramName ` set (parameters defn) then 1 else 0)"
    using count_unused [OF c(3), of "definitionName defn"
        "\<lambda>k. k \<notin> paramName ` set (parameters defn)"] c(2)
    by simp
  show "\<exists>early unused.
           diags' = diags @ early
                      @ map localDiag
                          (filter (\<lambda>p. isLocalParam p \<and> paramName p \<in> set (collectedNames ?ps))
                             (parameters defn))
                      @ unused
         \<and> (\<forall>d \<in> set early. diagCode d = DuplicateParamAssignment
                              \<or> diagCode d = MixingOrderedAndNamedParams)
         \<and> (\<forall>d \<in> set unused. diagCode d = ParameterDoesNotExist)
         \<and> (\<forall>n. count_list unused (Diag ParameterDoesNotExist [Text n, Text (definitionName defn)])
                = (if n \<in> set (collectedNames ?ps)
                      \<and> n \<notin> paramName ` set (parameters defn) then 1 else 0))"
    using shape early(2) codes counts by blast
  show "\<forall>n e. ov n = Some e \<longrightarrow>
           n \<in> set (collectedNames ?ps)
           \<and> (\<exists>p \<in> set (parameters defn). paramName p = n \<and> \<not> isLocalParam p)"
    using a res(1) c(2) by simp
qed

text \<open>
  The overrides and the diagnostics in the ordered form (no assignment, or a first
  assignment that is ordered): the only diagnostics are \<open>MixingOrderedAndNamedParams\<close> and
  \<open>TooManyParamAssignments\<close>.
\<close>

lemma buildParamOverrides_ordered_form:
  assumes run: "buildParamOverrides defn (Some ps) diags = (ov, diags')"
    and form: "ps = [] \<or> isOrderedArgument (hd ps)"
  shows "\<exists>new. diags' = diags @ new
           \<and> (\<forall>d \<in> set new. diagCode d = MixingOrderedAndNamedParams
                              \<or> diagCode d = TooManyParamAssignments)"
    and "\<forall>n e. ov n = Some e \<longrightarrow>
           (\<exists>p \<in> set (parameters defn). paramName p = n \<and> \<not> isLocalParam p)"
proof -
  obtain st d1 where collect: "collectParams ps noParamAssignments diags = (st, d1)"
    by (cases "collectParams ps noParamAssignments diags") auto
  have init: "hasParamAssignments noParamAssignments \<longrightarrow> orderedAssignments noParamAssignments"
      "orderedAssignments noParamAssignments"
    by (simp_all add: noParamAssignments_def)
  note c = collectParams_ordered_form [OF init(1) form init(2) collect]
  obtain i ov1 where assign:
    "assignOrdered (parameters defn) (orderedParams st) 0 Map.empty = (i, ov1)"
    by (cases "assignOrdered (parameters defn) (orderedParams st) 0 Map.empty") auto
  have res: "ov = ov1"
      "diags' = (if i < length (orderedParams st)
                 then d1 @ [Diag TooManyParamAssignments
                              [Text (definitionName defn), Number (length (orderedParams st)),
                               Number i]]
                 else d1)"
    using run collect assign c by (simp_all add: buildParamOverrides_def)
  from c have "d1 = diags @ [] \<or> d1 = diags @ [Diag MixingOrderedAndNamedParams []]"
    by simp
  then obtain m where m: "d1 = diags @ m" "\<forall>d \<in> set m. diagCode d = MixingOrderedAndNamedParams"
    by (metis empty_iff empty_set list.set_cases list.inject Diagnostic.sel(1) set_ConsD)
  show "\<exists>new. diags' = diags @ new
           \<and> (\<forall>d \<in> set new. diagCode d = MixingOrderedAndNamedParams
                              \<or> diagCode d = TooManyParamAssignments)"
  proof (cases "i < length (orderedParams st)")
    case True
    then have "diags' = diags @ (m @ [Diag TooManyParamAssignments
                              [Text (definitionName defn), Number (length (orderedParams st)),
                               Number i]])"
      using res(2) m(1) by simp
    moreover have "\<forall>d \<in> set (m @ [Diag TooManyParamAssignments
                              [Text (definitionName defn), Number (length (orderedParams st)),
                               Number i]]).
                     diagCode d = MixingOrderedAndNamedParams
                   \<or> diagCode d = TooManyParamAssignments"
      using m(2) by auto
    ultimately show ?thesis by blast
  next
    case False
    then have "diags' = diags @ m"
      using res(2) m(1) by simp
    then show ?thesis using m(2) by blast
  qed
  show "\<forall>n e. ov n = Some e \<longrightarrow>
           (\<exists>p \<in> set (parameters defn). paramName p = n \<and> \<not> isLocalParam p)"
    using assignOrdered_result [OF assign] res(1) by simp
qed

section \<open>Properties of \<open>populate\<close> and \<open>createInstance\<close>\<close>

lemma parameterMembers_append:
  "parameterMembers (xs @ ys) = parameterMembers xs @ parameterMembers ys"
  by (induction xs rule: parameterMembers.induct) auto

lemma parameterMembers_map_ParameterMember:
  "parameterMembers (map (\<lambda>p. ParameterMember (f p)) ps) = map f ps"
  by (induction ps) auto

lemma parameterMembers_map_ImportMember: "parameterMembers (map ImportMember xs) = []"
  by (induction xs) auto

lemma addDeclarators_ok:
  "map paramName (take (length ds) paramIt) = ds \<Longrightarrow>
   addDeclarators ds paramIt ms
     = Inr (drop (length ds) paramIt,
            ms @ map (\<lambda>p. ParameterMember (clone p)) (take (length ds) paramIt))"
proof (induction ds arbitrary: paramIt ms)
  case Nil
  then show ?case by simp
next
  case (Cons d ds)
  then obtain p rest where paramIt: "paramIt = p # rest"
    by (cases paramIt) auto
  with Cons.prems have "d = paramName p" "map paramName (take (length ds) rest) = ds"
    by auto
  with Cons.IH [of rest] paramIt show ?case
    by simp
qed

lemma addBodyMembers_ok:
  "map paramName paramIt = bodyDeclarators body \<Longrightarrow>
   \<exists>ms'. addBodyMembers body paramIt ms = Inr ms'
        \<and> parameterMembers ms' = parameterMembers ms @ map clone paramIt"
proof (induction body paramIt ms rule: addBodyMembers.induct)
  case (1 paramIt ms)
  then show ?case by simp
next
  case (2 paramBase rest paramIt ms)
  let ?ds = "declarators paramBase"
  from "2.prems" have names: "map paramName paramIt = ?ds @ bodyDeclarators rest"
    by simp
  then have len: "length ?ds \<le> length paramIt"
    by (metis length_append length_map le_add1)
  have tk: "map paramName (take (length ?ds) paramIt) = ?ds"
    using names by (metis append_eq_conv_conj take_map)
  have dr: "map paramName (drop (length ?ds) paramIt) = bodyDeclarators rest"
    using names by (metis append_eq_conv_conj drop_map)
  note step = addDeclarators_ok [OF tk, of ms]
  from "2.IH" [OF step refl dr]
  obtain ms' where ms': "addBodyMembers rest (drop (length ?ds) paramIt)
         (ms @ map (\<lambda>p. ParameterMember (clone p)) (take (length ?ds) paramIt)) = Inr ms'"
    "parameterMembers ms'
       = parameterMembers (ms @ map (\<lambda>p. ParameterMember (clone p)) (take (length ?ds) paramIt))
         @ map clone (drop (length ?ds) paramIt)"
    by blast
  have "parameterMembers ms' = parameterMembers ms @ map clone paramIt"
    unfolding ms'(2) parameterMembers_append parameterMembers_map_ParameterMember
    by (simp add: map_append [symmetric] del: map_append)
  then show ?case
    using step ms'(1) by simp
qed (simp_all add: parameterMembers_append)


text \<open>
  When the parameters given to \<open>populate\<close> are, after the leading port parameters, the ones
  the body declares, no assertion fails and the parameter members of the instance are the
  clones of all the parameters given, in order.
\<close>

lemma populate_ok:
  assumes "map paramName (dropWhile isPortParam params) = bodyDeclarators (members (declSyntax defn))"
  shows "\<exists>ms. populate defn instanceSyntax params inst
               = Inr (inst\<lparr>instanceMembers := ms,
                          portConnections := map_option connections instanceSyntax\<rparr>)
             \<and> parameterMembers ms = map clone params"
proof -
  let ?ms2 = "map ImportMember (headerImports (declSyntax defn))
              @ map (\<lambda>p. ParameterMember (clone p)) (takeWhile isPortParam params)"
  let ?ms3 = "case headerPorts (declSyntax defn) of
                None \<Rightarrow> ?ms2 | Some ports \<Rightarrow> ?ms2 @ [PortsMember ports]"
  have pm3: "parameterMembers ?ms3 = map clone (takeWhile isPortParam params)"
    by (cases "headerPorts (declSyntax defn)")
       (simp_all add: parameterMembers_append parameterMembers_map_ParameterMember
          parameterMembers_map_ImportMember)
  obtain ms where ms: "addBodyMembers (members (declSyntax defn)) (dropWhile isPortParam params) ?ms3
                        = Inr ms"
      "parameterMembers ms = parameterMembers ?ms3 @ map clone (dropWhile isPortParam params)"
    using addBodyMembers_ok [OF assms, of ?ms3] by blast
  have "parameterMembers ms = map clone params"
    unfolding ms(2) pm3 by (simp add: map_append [symmetric] del: map_append)
  moreover have "populate defn instanceSyntax params inst
               = Inr (inst\<lparr>instanceMembers := ms,
                          portConnections := map_option connections instanceSyntax\<rparr>)"
    using ms(1) by (cases instanceSyntax) (simp_all add: populate_def Let_def)
  ultimately show ?thesis by blast
qed

lemma createInstance_ok:
  assumes "map paramName (dropWhile isPortParam params) = bodyDeclarators (members (declSyntax defn))"
    and "definitionKind defn \<noteq> Package"
  shows "\<exists>inst. createInstance defn syn params path depth = Inr (InstanceSym inst)
             \<and> parameterMembers (instanceMembers inst) = map clone params
             \<and> hierarchyDepth inst = depth
             \<and> arrayPath inst = path
             \<and> instanceKind inst = instanceKindOf (definitionKind defn)
             \<and> instanceSymbolName inst = instanceName syn
             \<and> definitionOf inst = defn"
proof -
  let ?k = "instanceKindOf (definitionKind defn)"
  obtain ms where ms: "populate defn (Some syn) params (newInstance ?k (instanceName syn) defn depth)
               = Inr ((newInstance ?k (instanceName syn) defn depth)
                        \<lparr>instanceMembers := ms, portConnections := Some (connections syn)\<rparr>)"
      "parameterMembers ms = map clone params"
    using populate_ok [OF assms(1), of "Some syn" "newInstance ?k (instanceName syn) defn depth"]
    by auto
  have "createInstance defn syn params path depth
          = Inr (InstanceSym ((newInstance ?k (instanceName syn) defn depth)
                        \<lparr>instanceMembers := ms, portConnections := Some (connections syn),
                         arrayPath := path\<rparr>))"
    using ms(1) assms(2)
    by (cases "definitionKind defn") (simp_all add: createInstance_def instantiate_def)
  then show ?thesis
    using ms(2) by (simp add: newInstance_def)
qed

lemma createInstance_fields:
  assumes "createInstance defn syn params path depth = Inr s"
  shows "\<exists>inst. s = InstanceSym inst
             \<and> hierarchyDepth inst = depth
             \<and> arrayPath inst = path
             \<and> instanceKind inst = instanceKindOf (definitionKind defn)
             \<and> definitionOf inst = defn"
  using assms
  by (cases "definitionKind defn")
     (auto simp: createInstance_def instantiate_def populate_def newInstance_def Let_def
           split: sum.splits)

section \<open>Properties of the parameter values\<close>

lemma evaluateParameters_eq:
  "evaluateParameters ov dn params acc diags
     = (acc @ map (\<lambda>p. fst (evaluateParameter ov dn p)) params,
        diags @ concat (map (\<lambda>p. snd (evaluateParameter ov dn p)) params))"
  by (induction params arbitrary: acc diags) (auto split: prod.splits)

lemma evaluateParameter_header:
  "paramName (fst (evaluateParameter ov dn p)) = paramName p"
  "isPortParam (fst (evaluateParameter ov dn p)) = isPortParam p"
  "isLocalParam (fst (evaluateParameter ov dn p)) = isLocalParam p"
  "paramKind (fst (evaluateParameter ov dn p)) = paramKind p"
  by (auto simp: evaluateParameter_def clone_def Let_def split: option.splits)

lemma evaluateParameter_default:
  "ov (paramName p) = None \<Longrightarrow>
   fst (evaluateParameter ov dn p) = p \<or> fst (evaluateParameter ov dn p) = p\<lparr>resolution := Cleared\<rparr>"
  by (auto simp: evaluateParameter_def clone_def Let_def)

lemma evaluateParameter_codes:
  "d \<in> set (snd (evaluateParameter ov dn p)) \<Longrightarrow>
   diagCode d = ParamHasNoValue \<or> diagCode d = BadTypeParamExpr"
  by (auto simp: evaluateParameter_def clone_def Let_def split: option.splits if_splits)

lemma evaluateParameters_codes:
  "d \<in> set (concat (map (\<lambda>p. snd (evaluateParameter ov dn p)) params)) \<Longrightarrow>
   diagCode d = ParamHasNoValue \<or> diagCode d = BadTypeParamExpr"
  using evaluateParameter_codes by auto

lemma dropWhile_names:
  "map paramName ps = map paramName qs \<Longrightarrow> map isPortParam ps = map isPortParam qs \<Longrightarrow>
   map paramName (dropWhile isPortParam ps) = map paramName (dropWhile isPortParam qs)"
proof (induction ps arbitrary: qs)
  case Nil
  then show ?case by simp
next
  case (Cons p ps)
  then obtain q qs' where "qs = q # qs'"
    by (cases qs) auto
  with Cons show ?case by auto
qed

lemma evaluated_match:
  "parametersMatchSyntax defn \<Longrightarrow>
   map paramName (dropWhile isPortParam (map (\<lambda>p. fst (evaluateParameter ov dn p)) (parameters defn)))
     = bodyDeclarators (members (declSyntax defn))"
proof -
  assume m: "parametersMatchSyntax defn"
  have "map paramName (map (\<lambda>p. fst (evaluateParameter ov dn p)) (parameters defn))
          = map paramName (parameters defn)"
       "map isPortParam (map (\<lambda>p. fst (evaluateParameter ov dn p)) (parameters defn))
          = map isPortParam (parameters defn)"
    by (simp_all add: evaluateParameter_header)
  from dropWhile_names [OF this] m show ?thesis
    by (simp add: parametersMatchSyntax_def)
qed

section \<open>Properties of the instances under a symbol\<close>

lemma recurseInstanceArray_leaves_inv:
  assumes create: "\<And>path s. createInstance defn syn params path depth = Inr s
                     \<Longrightarrow> \<forall>inst \<in> set (leaves s). Q inst"
    and name: "\<And>inst n. Q inst \<Longrightarrow> Q (inst\<lparr>instanceSymbolName := n\<rparr>)"
  shows "recurseInstanceArray compilation defn syn params scope dims path depth = Inr s
         \<Longrightarrow> \<forall>inst \<in> set (leaves s). Q inst"
proof (induction dims arbitrary: path s)
  case Nil
  then show ?case using create by simp
next
  case (Cons it rest)
  let ?r = "dimRange (evalDimension compilation scope it)"
  let ?f = "\<lambda>i. recurseInstanceArray compilation defn syn params scope rest (path @ [i]) depth"
  show ?case
  proof (cases "isRange (evalDimension compilation scope it)")
    case False
    then show ?thesis using Cons.prems by (auto simp: Let_def)
  next
    case True
    with Cons.prems obtain elements where
      seq: "sequenceResults (map ?f [lower ?r..upper ?r]) = Inr elements" and
      s: "s = InstanceArraySym (instanceName syn) (map (setName []) elements) ?r"
      by (auto simp: Let_def split: sum.splits if_splits)
    have all2: "list_all2 (\<lambda>i y. ?f i = Inr y) [lower ?r..upper ?r] elements"
      using sequenceResults_map [OF seq] .
    have each: "\<forall>y \<in> set elements. \<forall>inst \<in> set (leaves y). Q inst"
    proof
      fix y
      assume "y \<in> set elements"
      then obtain k where "k < length elements" "y = elements ! k"
        by (auto simp: in_set_conv_nth)
      then have "?f ([lower ?r..upper ?r] ! k) = Inr y"
        using all2 by (auto simp: list_all2_conv_all_nth)
      then show "\<forall>inst \<in> set (leaves y). Q inst"
        by (rule Cons.IH)
    qed
    have "\<forall>inst \<in> set (leaves (setName [] y)). Q inst" if "y \<in> set elements" for y
      using each that name by (cases y) auto
    then show ?thesis
      unfolding s by auto
  qed
qed

lemma recurseInstanceArray_not_net:
  "recurseInstanceArray compilation defn syn params scope dims path depth = Inr s
   \<Longrightarrow> \<not> isNetSym s"
proof (cases dims)
  case Nil
  assume "recurseInstanceArray compilation defn syn params scope dims path depth = Inr s"
  with Nil show ?thesis
    using createInstance_path [of defn syn params path depth s] by auto
next
  case (Cons it rest)
  assume "recurseInstanceArray compilation defn syn params scope dims path depth = Inr s"
  with Cons show ?thesis
    by (auto simp: Let_def split: sum.splits if_splits)
qed


section \<open>Properties of the implicit nets\<close>

lemma addImplicitNets_result:
  "\<exists>added. addImplicitNets nt ts names results
             = (names @ added, results @ map (\<lambda>t. NetSym t nt LogicType) added)
           \<and> distinct added \<and> set added = set ts - set names"
proof (induction ts arbitrary: names results)
  case Nil
  then show ?case by simp
next
  case (Cons t ts)
  show ?case
  proof (cases "t \<in> set names")
    case True
    from Cons [of names results] obtain added where
      "addImplicitNets nt ts names results
         = (names @ added, results @ map (\<lambda>t. NetSym t nt LogicType) added)"
      "distinct added" "set added = set ts - set names"
      by blast
    with True show ?thesis by auto
  next
    case False
    from Cons [of "names @ [t]" "results @ [NetSym t nt LogicType]"] obtain added where a:
      "addImplicitNets nt ts (names @ [t]) (results @ [NetSym t nt LogicType])
         = ((names @ [t]) @ added,
            (results @ [NetSym t nt LogicType]) @ map (\<lambda>t. NetSym t nt LogicType) added)"
      "distinct added" "set added = set ts - set (names @ [t])"
      by blast
    have "addImplicitNets nt (t # ts) names results
            = (names @ (t # added), results @ map (\<lambda>t. NetSym t nt LogicType) (t # added))"
      using a(1) False by simp
    moreover have "distinct (t # added)" "set (t # added) = set (t # ts) - set names"
      using a(2,3) False by auto
    ultimately show ?thesis by blast
  qed
qed

lemma scanConnections_result:
  "\<exists>added. scanConnections compilation scope nt conns names results
             = (names @ added, results @ map (\<lambda>t. NetSym t nt LogicType) added)
           \<and> distinct added
           \<and> set added
               = set (concat (map (\<lambda>conn. case connectionExpr conn of
                                              None \<Rightarrow> []
                                            | Some expr \<Rightarrow>
                                                findPotentiallyImplicitNets compilation scope expr)
                                conns)) - set names"
proof (induction conns arbitrary: names results)
  case Nil
  then show ?case by simp
next
  case (Cons conn conns)
  let ?toks = "\<lambda>conn. case connectionExpr conn of
                         None \<Rightarrow> []
                       | Some expr \<Rightarrow> findPotentiallyImplicitNets compilation scope expr"
  show ?case
  proof (cases "connectionExpr conn")
    case None
    from Cons [of names results] None show ?thesis by simp
  next
    case (Some expr)
    obtain a1 where a1:
      "addImplicitNets nt (findPotentiallyImplicitNets compilation scope expr) names results
         = (names @ a1, results @ map (\<lambda>t. NetSym t nt LogicType) a1)"
      "distinct a1"
      "set a1 = set (findPotentiallyImplicitNets compilation scope expr) - set names"
      using addImplicitNets_result by blast
    obtain a2 where a2:
      "scanConnections compilation scope nt conns (names @ a1)
           (results @ map (\<lambda>t. NetSym t nt LogicType) a1)
         = ((names @ a1) @ a2,
            (results @ map (\<lambda>t. NetSym t nt LogicType) a1) @ map (\<lambda>t. NetSym t nt LogicType) a2)"
      "distinct a2"
      "set a2 = set (concat (map ?toks conns)) - set (names @ a1)"
      using Cons [of "names @ a1" "results @ map (\<lambda>t. NetSym t nt LogicType) a1"] by blast
    have "scanConnections compilation scope nt (conn # conns) names results
            = (names @ (a1 @ a2), results @ map (\<lambda>t. NetSym t nt LogicType) (a1 @ a2))"
      using Some a1(1) a2(1) by simp
    moreover have "distinct (a1 @ a2)"
      using a1(2) a2(2,3) by auto
    moreover have "set (a1 @ a2) = set (concat (map ?toks (conn # conns))) - set names"
      using a1(3) a2(3) Some by auto
    ultimately show ?thesis by blast
  qed
qed

lemma createImplicitNets_result:
  "\<exists>added. createImplicitNets compilation scope syn nt names results
             = (names @ added, results @ map (\<lambda>t. NetSym t nt LogicType) added)
           \<and> distinct added
           \<and> set added
               = (if isError nt then {} else set (connectionTokens compilation scope syn) - set names)"
proof (cases "isError nt")
  case True
  then have "createImplicitNets compilation scope syn nt names results
               = (names @ [], results @ map (\<lambda>t. NetSym t nt LogicType) [])"
    by (simp add: createImplicitNets_def)
  with True show ?thesis by (intro exI [of _ "[]"]) simp
next
  case False
  then show ?thesis
    using scanConnections_result [of compilation scope nt "connections syn" names results]
    by (simp add: createImplicitNets_def connectionTokens_def)
qed

lemma filter_nets_map:
  "filter isNetSym (map (\<lambda>t. NetSym t nt LogicType) xs) = map (\<lambda>t. NetSym t nt LogicType) xs"
  "filter (\<lambda>s. \<not> isNetSym s) (map (\<lambda>t. NetSym t nt LogicType) xs) = []"
  by (induction xs) auto

text \<open>
  The loop over the instances of an instantiation appends, for every instance in turn, the
  nets of its new names and then the symbol \<open>recurseInstanceArray\<close> returns for it.
\<close>

lemma instantiateAll_result:
  "instantiateAll compilation defn params scope depth insts names results = Inr results' \<Longrightarrow>
   \<exists>new added.
     results' = results @ new
     \<and> filter isNetSym new = map (\<lambda>t. NetSym t (defaultNetType scope) LogicType) added
     \<and> distinct added
     \<and> set added = (if isError (defaultNetType scope) then {}
                    else set (implicitNetCandidates compilation scope insts) - set names)
     \<and> list_all2 (\<lambda>syn s. recurseInstanceArray compilation defn syn params scope
                             (dimensions syn) [] depth = Inr s)
         insts (filter (\<lambda>s. \<not> isNetSym s) new)"
proof (induction insts arbitrary: names results)
  case Nil
  then show ?case
    by (intro exI [of _ "[]"]) (simp add: implicitNetCandidates_def)
next
  case (Cons syn insts)
  let ?nt = "defaultNetType scope"
  let ?mk = "\<lambda>t. NetSym t ?nt LogicType"
  obtain a1 where a1:
    "createImplicitNets compilation scope syn ?nt names results
       = (names @ a1, results @ map ?mk a1)"
    "distinct a1"
    "set a1 = (if isError ?nt then {} else set (connectionTokens compilation scope syn) - set names)"
    using createImplicitNets_result by blast
  from Cons.prems a1(1) obtain symbol where
    symbol: "recurseInstanceArray compilation defn syn params scope (dimensions syn) [] depth
               = Inr symbol"
    and rest: "instantiateAll compilation defn params scope depth insts (names @ a1)
                 ((results @ map ?mk a1) @ [symbol]) = Inr results'"
    by (auto split: sum.splits)
  from Cons.IH [OF rest] obtain new added where ih:
    "results' = ((results @ map ?mk a1) @ [symbol]) @ new"
    "filter isNetSym new = map ?mk added"
    "distinct added"
    "set added = (if isError ?nt then {}
                  else set (implicitNetCandidates compilation scope insts) - set (names @ a1))"
    "list_all2 (\<lambda>syn s. recurseInstanceArray compilation defn syn params scope
                           (dimensions syn) [] depth = Inr s)
       insts (filter (\<lambda>s. \<not> isNetSym s) new)"
    by blast
  have notnet: "\<not> isNetSym symbol"
    using recurseInstanceArray_not_net [OF symbol] .
  let ?new = "map ?mk a1 @ [symbol] @ new"
  have 1: "results' = results @ ?new"
    using ih(1) by simp
  have 2: "filter isNetSym ?new = map ?mk (a1 @ added)"
    using ih(2) notnet by (simp add: filter_nets_map)
  have 3: "distinct (a1 @ added)"
    using a1(2,3) ih(3,4) by (auto split: if_splits)
  have 4: "set (a1 @ added) = (if isError ?nt then {}
                    else set (implicitNetCandidates compilation scope (syn # insts)) - set names)"
    using a1(3) ih(4) by (auto simp: implicitNetCandidates_def split: if_splits)
  have 5: "list_all2 (\<lambda>syn s. recurseInstanceArray compilation defn syn params scope
                             (dimensions syn) [] depth = Inr s)
         (syn # insts) (filter (\<lambda>s. \<not> isNetSym s) ?new)"
    using ih(5) symbol notnet by (simp add: filter_nets_map)
  show ?case
    using 1 2 3 4 5 by blast
qed

lemma instantiateAll_returns:
  "\<forall>syn \<in> set insts. \<exists>s. recurseInstanceArray compilation defn syn params scope
                             (dimensions syn) [] depth = Inr s \<Longrightarrow>
   \<exists>results'. instantiateAll compilation defn params scope depth insts names results = Inr results'"
proof (induction insts arbitrary: names results)
  case Nil
  then show ?case by simp
next
  case (Cons syn insts)
  then obtain s where "recurseInstanceArray compilation defn syn params scope
                             (dimensions syn) [] depth = Inr s"
    by auto
  with Cons show ?case
    by (auto split: prod.splits)
qed

section \<open>The shape of \<open>fromSyntax\<close>\<close>

lemma collectParams_diags:
  "collectParams ps st diags
     = (fst (collectParams ps st []), diags @ snd (collectParams ps st []))"
proof (induction ps arbitrary: st diags)
  case Nil
  then show ?case by simp
next
  case (Cons a ps)
  note ih = Cons.IH
  show ?case
  proof (cases a)
    case (OrderedArgument e)
    then show ?thesis
      using ih [of _ diags] by (simp add: Let_def)
  next
    case (NamedArgument n e)
    show ?thesis
    proof (cases "hasParamAssignments st \<and> orderedAssignments st")
      case True
      then show ?thesis using NamedArgument by (simp add: Let_def)
    next
      case False
      let ?st1 = "if hasParamAssignments st then st
                  else st\<lparr>hasParamAssignments := True, orderedAssignments := False\<rparr>"
      show ?thesis
      proof (cases "n \<noteq> [] \<and> map_of (namedParams ?st1) n \<noteq> None")
        case True
        then obtain previous where "map_of (namedParams ?st1) n = Some previous" "n \<noteq> []"
          by auto
        then show ?thesis
          using NamedArgument False
            ih [of ?st1 "diags @ [Diag DuplicateParamAssignment [Text n]]"]
            ih [of ?st1 "[Diag DuplicateParamAssignment [Text n]]"]
          by (auto simp: Let_def)
      next
        case nodup: False
        then show ?thesis
          using NamedArgument False ih [of _ diags]
          by (auto simp: Let_def split: option.splits)
      qed
    qed
  qed
qed

lemma assignNamed_diags:
  "assignNamed params named ov diags
     = (fst (assignNamed params named ov []),
        fst (snd (assignNamed params named ov [])),
        diags @ snd (snd (assignNamed params named ov [])))"
proof (induction params arbitrary: named ov diags)
  case Nil
  then show ?case by simp
next
  case (Cons p params)
  note ih = Cons.IH
  show ?case
  proof (cases "map_of named (paramName p)")
    case None
    then show ?thesis using ih [of named ov diags] by simp
  next
    case (Some entry)
    obtain arg used where entry: "entry = (arg, used)"
      by (cases entry) auto
    show ?thesis
    proof (cases "isLocalParam p")
      case True
      let ?d = "Diag (if isPortParam p then AssignedToLocalPortParam
                      else AssignedToLocalBodyParam) []"
      show ?thesis
        using Some entry True
          ih [of "markUsed (paramName p) named" ov "diags @ [?d]"]
          ih [of "markUsed (paramName p) named" ov "[?d]"]
        by (simp add: Let_def)
    next
      case False
      then show ?thesis
        using Some entry ih [of _ _ diags]
        by (cases arg) (simp_all add: Let_def)
    qed
  qed
qed

lemma buildParamOverrides_diags:
  "buildParamOverrides defn assignments diags
     = (paramOverridesOf defn assignments, diags @ assignmentDiags defn assignments)"
proof (cases assignments)
  case None
  then show ?thesis
    by (simp add: buildParamOverrides_def paramOverridesOf_def assignmentDiags_def)
next
  case (Some ps)
  obtain st d where c: "collectParams ps noParamAssignments [] = (st, d)"
    by (cases "collectParams ps noParamAssignments []") auto
  then have c': "collectParams ps noParamAssignments diags = (st, diags @ d)"
    using collectParams_diags [of ps noParamAssignments diags] by simp
  show ?thesis
  proof (cases "orderedAssignments st")
    case True
    then show ?thesis
      using Some c c'
      by (auto simp: buildParamOverrides_def paramOverridesOf_def assignmentDiags_def
            split: prod.splits)
  next
    case False
    obtain named ov d2 where a: "assignNamed (parameters defn) (namedParams st) Map.empty d
                                   = (named, ov, d2)"
      by (cases "assignNamed (parameters defn) (namedParams st) Map.empty d") auto
    obtain named0 ov0 d0 where a0: "assignNamed (parameters defn) (namedParams st) Map.empty []
                                   = (named0, ov0, d0)"
      by (cases "assignNamed (parameters defn) (namedParams st) Map.empty []") auto
    have a1: "named = named0" "ov = ov0" "d2 = d @ d0"
      using a a0 assignNamed_diags [of "parameters defn" "namedParams st" Map.empty d] by simp_all
    have a': "assignNamed (parameters defn) (namedParams st) Map.empty (diags @ d)
                = (named0, ov0, (diags @ d) @ d0)"
      using a0 assignNamed_diags [of "parameters defn" "namedParams st" Map.empty "diags @ d"]
      by simp
    show ?thesis
      using Some c c' False a a1 a'
      by (simp add: buildParamOverrides_def paramOverridesOf_def assignmentDiags_def)
  qed
qed

lemma parameterVector_eq:
  "parameterVector defn assignments
     = map (\<lambda>p. fst (evaluateParameter (paramOverridesOf defn assignments) (definitionName defn) p))
         (parameters defn)"
  by (simp add: parameterVector_def evaluateParameters_eq)

lemma parameterDiags_eq:
  "parameterDiags defn assignments
     = concat (map (\<lambda>p. snd (evaluateParameter (paramOverridesOf defn assignments)
                              (definitionName defn) p))
         (parameters defn))"
  by (simp add: parameterDiags_def evaluateParameters_eq)

text \<open>
  \<open>fromSyntax\<close> for an instantiation whose definition resolves: the diagnostics of the
  parameter assignments and of the parameter values are added in every case; then either
  the depth limit is diagnosed and the results are left as they were, or the instances are
  created with the one parameter vector.
\<close>

lemma fromSyntax_eq:
  assumes "getDefinition compilation (typeName syn) scope = Some defn"
  shows "fromSyntax compilation syn scope results diags =
     (case computeHierarchyDepth (maxInstanceDepth compilation) scope of
        None \<Rightarrow>
          Inr (results,
               diags @ assignmentDiags defn (parameterAssignments syn)
                 @ parameterDiags defn (parameterAssignments syn)
                 @ [Diag MaxInstanceDepthExceeded [Number (unat (maxInstanceDepth compilation))]])
      | Some depth \<Rightarrow>
          (case instantiateAll compilation defn (parameterVector defn (parameterAssignments syn))
                  scope depth (instances syn) [] results of
             Inl e \<Rightarrow> Inl e
           | Inr results' \<Rightarrow>
               Inr (results',
                    diags @ assignmentDiags defn (parameterAssignments syn)
                      @ parameterDiags defn (parameterAssignments syn))))"
proof -
  let ?pa = "parameterAssignments syn"
  have ev: "evaluateParameters (paramOverridesOf defn ?pa) (definitionName defn) (parameters defn)
              [] (diags @ assignmentDiags defn ?pa)
            = (parameterVector defn ?pa,
               (diags @ assignmentDiags defn ?pa) @ parameterDiags defn ?pa)"
    by (simp add: evaluateParameters_eq parameterVector_eq parameterDiags_eq)
  show ?thesis
    unfolding fromSyntax_def
    using assms buildParamOverrides_diags [of defn ?pa diags] ev
    by (simp split: option.splits sum.splits)
qed

lemma fromSyntax_unknown:
  "getDefinition compilation (typeName syn) scope = None \<Longrightarrow>
   fromSyntax compilation syn scope results diags
     = Inr (results, diags @ [Diag UnknownModule [Text (typeName syn)]])"
  by (simp add: fromSyntax_def)

section \<open>Diagnostics of the parameter assignments\<close>

lemma fromSyntax_emitted:
  assumes "getDefinition compilation (typeName syn) scope = Some defn"
    and "fromSyntax compilation syn scope results diags = Inr (results', diags')"
  shows "emitted diags diags'
           = assignmentDiags defn (parameterAssignments syn)
             @ parameterDiags defn (parameterAssignments syn)
             @ (case computeHierarchyDepth (maxInstanceDepth compilation) scope of
                  None \<Rightarrow> [Diag MaxInstanceDepthExceeded
                              [Number (unat (maxInstanceDepth compilation))]]
                | Some depth \<Rightarrow> [])"
  using assms(2) unfolding fromSyntax_eq [OF assms(1)]
  by (auto simp: emitted_def split: option.splits sum.splits)

lemma parameterDiags_codes:
  "d \<in> set (parameterDiags defn assignments) \<Longrightarrow>
   diagCode d = ParamHasNoValue \<or> diagCode d = BadTypeParamExpr"
  unfolding parameterDiags_eq by (rule evaluateParameters_codes)

lemma countDiags_fromSyntax:
  assumes "getDefinition compilation (typeName syn) scope = Some defn"
    and "fromSyntax compilation syn scope results diags = Inr (results', diags')"
    and "c \<noteq> ParamHasNoValue" "c \<noteq> BadTypeParamExpr" "c \<noteq> MaxInstanceDepthExceeded"
  shows "countDiags c (emitted diags diags')
           = countDiags c (assignmentDiags defn (parameterAssignments syn))"
proof -
  have "countDiags c (parameterDiags defn (parameterAssignments syn)) = 0"
    using parameterDiags_codes assms(3,4) by (intro countDiags_other) auto
  then show ?thesis
    unfolding fromSyntax_emitted [OF assms(1,2)] using assms(5)
    by (auto simp: countDiags_append countDiags_def split: option.splits)
qed

lemma count_list_fromSyntax:
  assumes "getDefinition compilation (typeName syn) scope = Some defn"
    and "fromSyntax compilation syn scope results diags = Inr (results', diags')"
    and "c \<noteq> ParamHasNoValue" "c \<noteq> BadTypeParamExpr" "c \<noteq> MaxInstanceDepthExceeded"
  shows "count_list (emitted diags diags') (Diag c as)
           = count_list (assignmentDiags defn (parameterAssignments syn)) (Diag c as)"
proof -
  have "count_list (parameterDiags defn (parameterAssignments syn)) (Diag c as) = 0"
    using parameterDiags_codes assms(3,4) by (intro count_list_other) auto
  then show ?thesis
    unfolding fromSyntax_emitted [OF assms(1,2)] using assms(5)
    by (auto split: option.splits)
qed

lemma assignmentDiags_named_form:
  fixes defn n0 e0 rest
  defines "ps \<equiv> NamedArgument n0 e0 # rest"
  shows "countDiags AssignedToLocalPortParam (assignmentDiags defn (Some ps))
           = length (filter (\<lambda>p. isLocalParam p \<and> isPortParam p
                               \<and> paramName p \<in> set (collectedNames ps)) (parameters defn))"
    and "countDiags AssignedToLocalBodyParam (assignmentDiags defn (Some ps))
           = length (filter (\<lambda>p. isLocalParam p \<and> \<not> isPortParam p
                               \<and> paramName p \<in> set (collectedNames ps)) (parameters defn))"
    and "count_list (assignmentDiags defn (Some ps))
             (Diag ParameterDoesNotExist [Text n, Text (definitionName defn)])
           = (if n \<in> set (collectedNames ps) \<and> n \<notin> paramName ` set (parameters defn)
              then 1 else 0)"
proof -
  let ?locals = "filter (\<lambda>p. isLocalParam p \<and> paramName p \<in> set (collectedNames ps))
                   (parameters defn)"
  have run: "buildParamOverrides defn (Some (NamedArgument n0 e0 # rest)) []
               = (paramOverridesOf defn (Some ps), assignmentDiags defn (Some ps))"
    by (simp add: paramOverridesOf_def assignmentDiags_def ps_def)
  from buildParamOverrides_named_form(1) [OF run]
  obtain early unused where
    shape: "assignmentDiags defn (Some ps) = early @ map localDiag ?locals @ unused" and
    early: "\<forall>d \<in> set early. diagCode d = DuplicateParamAssignment
                            \<or> diagCode d = MixingOrderedAndNamedParams" and
    unused: "\<forall>d \<in> set unused. diagCode d = ParameterDoesNotExist" and
    counts: "\<forall>n. count_list unused (Diag ParameterDoesNotExist [Text n, Text (definitionName defn)])
                = (if n \<in> set (collectedNames ps)
                      \<and> n \<notin> paramName ` set (parameters defn) then 1 else 0)"
    unfolding ps_def by auto
  have e1: "countDiags AssignedToLocalPortParam early = 0"
           "countDiags AssignedToLocalBodyParam early = 0"
           "count_list early (Diag ParameterDoesNotExist [Text n, Text (definitionName defn)]) = 0"
    using early by (auto intro!: countDiags_other count_list_other)
  have u1: "countDiags AssignedToLocalPortParam unused = 0"
           "countDiags AssignedToLocalBodyParam unused = 0"
    using unused by (auto intro!: countDiags_other)
  have l1: "count_list (map localDiag ?locals)
              (Diag ParameterDoesNotExist [Text n, Text (definitionName defn)]) = 0"
    by (intro count_list_other) (auto simp: localDiag_def)
  have f1: "filter isPortParam ?locals
              = filter (\<lambda>p. isLocalParam p \<and> isPortParam p
                               \<and> paramName p \<in> set (collectedNames ps)) (parameters defn)"
           "filter (\<lambda>p. \<not> isPortParam p) ?locals
              = filter (\<lambda>p. isLocalParam p \<and> \<not> isPortParam p
                               \<and> paramName p \<in> set (collectedNames ps)) (parameters defn)"
    by (auto intro: filter_cong)
  show "countDiags AssignedToLocalPortParam (assignmentDiags defn (Some ps))
           = length (filter (\<lambda>p. isLocalParam p \<and> isPortParam p
                               \<and> paramName p \<in> set (collectedNames ps)) (parameters defn))"
    unfolding shape countDiags_append e1 u1 countDiags_localDiag_port f1 by simp
  show "countDiags AssignedToLocalBodyParam (assignmentDiags defn (Some ps))
           = length (filter (\<lambda>p. isLocalParam p \<and> \<not> isPortParam p
                               \<and> paramName p \<in> set (collectedNames ps)) (parameters defn))"
    unfolding shape countDiags_append e1 u1 countDiags_localDiag_body f1 by simp
  show "count_list (assignmentDiags defn (Some ps))
             (Diag ParameterDoesNotExist [Text n, Text (definitionName defn)])
           = (if n \<in> set (collectedNames ps) \<and> n \<notin> paramName ` set (parameters defn)
              then 1 else 0)"
    unfolding shape using e1(3) l1 counts by simp
qed

lemma assignmentDiags_ordered_form:
  assumes "ps = [] \<or> isOrderedArgument (hd ps)"
  shows "countDiags AssignedToLocalPortParam (assignmentDiags defn (Some ps)) = 0"
    and "countDiags AssignedToLocalBodyParam (assignmentDiags defn (Some ps)) = 0"
    and "countDiags ParameterDoesNotExist (assignmentDiags defn (Some ps)) = 0"
proof -
  have run: "buildParamOverrides defn (Some ps) []
               = (paramOverridesOf defn (Some ps), assignmentDiags defn (Some ps))"
    by (simp add: paramOverridesOf_def assignmentDiags_def)
  from buildParamOverrides_ordered_form(1) [OF run assms]
  have codes: "\<forall>d \<in> set (assignmentDiags defn (Some ps)).
                 diagCode d = MixingOrderedAndNamedParams \<or> diagCode d = TooManyParamAssignments"
    by auto
  show "countDiags AssignedToLocalPortParam (assignmentDiags defn (Some ps)) = 0"
    using codes by (intro countDiags_other) auto
  show "countDiags AssignedToLocalBodyParam (assignmentDiags defn (Some ps)) = 0"
    using codes by (intro countDiags_other) auto
  show "countDiags ParameterDoesNotExist (assignmentDiags defn (Some ps)) = 0"
    using codes by (intro countDiags_other) auto
qed

lemma paramOverridesOf_nonlocal:
  "paramOverridesOf defn assignments n = Some e \<Longrightarrow>
   \<exists>p \<in> set (parameters defn). paramName p = n \<and> \<not> isLocalParam p"
proof (cases assignments)
  case None
  assume "paramOverridesOf defn assignments n = Some e"
  with None show ?thesis
    by (simp add: paramOverridesOf_def buildParamOverrides_def)
next
  case (Some ps)
  assume ov: "paramOverridesOf defn assignments n = Some e"
  have run: "buildParamOverrides defn (Some ps) []
               = (paramOverridesOf defn (Some ps), assignmentDiags defn (Some ps))"
    by (simp add: paramOverridesOf_def assignmentDiags_def)
  show ?thesis
  proof (cases "ps = [] \<or> isOrderedArgument (hd ps)")
    case True
    from buildParamOverrides_ordered_form(2) [OF run True] ov Some show ?thesis
      by blast
  next
    case False
    then obtain n0 e0 rest where ps: "ps = NamedArgument n0 e0 # rest"
      by (cases ps; cases "hd ps") auto
    from buildParamOverrides_named_form(2) [OF run [unfolded ps]] ov Some ps show ?thesis
      by blast
  qed
qed

lemma paramOverridesOf_collected:
  "paramOverridesOf defn (Some (NamedArgument n0 e0 # rest)) n = Some e \<Longrightarrow>
   n \<in> set (collectedNames (NamedArgument n0 e0 # rest))"
proof -
  assume ov: "paramOverridesOf defn (Some (NamedArgument n0 e0 # rest)) n = Some e"
  have run: "buildParamOverrides defn (Some (NamedArgument n0 e0 # rest)) []
               = (paramOverridesOf defn (Some (NamedArgument n0 e0 # rest)),
                  assignmentDiags defn (Some (NamedArgument n0 e0 # rest)))"
    by (simp add: paramOverridesOf_def assignmentDiags_def)
  from buildParamOverrides_named_form(2) [OF run] ov show ?thesis
    by blast
qed

text \<open>
  A parameter whose name has no override holds its declared default in the parameter
  vector; so does every local parameter whose name no other, assignable parameter shares.
\<close>

lemma parameterVector_length:
  "length (parameterVector defn assignments) = length (parameters defn)"
  by (simp add: parameterVector_eq)

lemma parameterVector_default:
  assumes "i < length (parameters defn)"
    and "paramOverridesOf defn assignments (paramName (parameters defn ! i)) = None"
  shows "holdsDefault (parameters defn ! i) (parameterVector defn assignments ! i)"
  using assms
    evaluateParameter_default [of "paramOverridesOf defn assignments" "parameters defn ! i"
      "definitionName defn"]
  by (auto simp: parameterVector_eq holdsDefault_def clone_def)

lemma parameterVector_local:
  assumes "i < length (parameters defn)"
    and "\<forall>q \<in> set (parameters defn).
           paramName q = paramName (parameters defn ! i) \<longrightarrow> isLocalParam q"
  shows "holdsDefault (parameters defn ! i) (parameterVector defn assignments ! i)"
proof (rule parameterVector_default [OF assms(1)])
  show "paramOverridesOf defn assignments (paramName (parameters defn ! i)) = None"
  proof (rule ccontr)
    assume "paramOverridesOf defn assignments (paramName (parameters defn ! i)) \<noteq> None"
    then obtain e where
      "paramOverridesOf defn assignments (paramName (parameters defn ! i)) = Some e"
      by auto
    from paramOverridesOf_nonlocal [OF this] assms(2) show False
      by auto
  qed
qed

section \<open>The symbols \<open>fromSyntax\<close> creates\<close>

lemma fromSyntax_created:
  assumes "getDefinition compilation (typeName syn) scope = Some defn"
    and "computeHierarchyDepth (maxInstanceDepth compilation) scope = Some depth"
    and "fromSyntax compilation syn scope results diags = Inr (results', diags')"
  shows "\<exists>new added.
     results' = results @ new
     \<and> filter isNetSym new = map (\<lambda>t. NetSym t (defaultNetType scope) LogicType) added
     \<and> distinct added
     \<and> set added = (if isError (defaultNetType scope) then {}
                    else set (implicitNetCandidates compilation scope (instances syn)))
     \<and> list_all2 (\<lambda>i s. recurseInstanceArray compilation defn i
                           (parameterVector defn (parameterAssignments syn)) scope
                           (dimensions i) [] depth = Inr s)
         (instances syn) (filter (\<lambda>s. \<not> isNetSym s) new)"
proof -
  from assms(3) have "instantiateAll compilation defn
          (parameterVector defn (parameterAssignments syn)) scope depth (instances syn) []
          results = Inr results'"
    unfolding fromSyntax_eq [OF assms(1)] using assms(2) by (simp split: sum.splits)
  from instantiateAll_result [OF this] obtain new added where
    "results' = results @ new"
    "filter isNetSym new = map (\<lambda>t. NetSym t (defaultNetType scope) LogicType) added"
    "distinct added"
    "set added = (if isError (defaultNetType scope) then {}
                  else set (implicitNetCandidates compilation scope (instances syn)) - set [])"
    "list_all2 (\<lambda>i s. recurseInstanceArray compilation defn i
                           (parameterVector defn (parameterAssignments syn)) scope
                           (dimensions i) [] depth = Inr s)
         (instances syn) (filter (\<lambda>s. \<not> isNetSym s) new)"
    by blast
  then show ?thesis
    by (intro exI [of _ new] exI [of _ added]) simp
qed

lemma fromSyntax_exceeded:
  assumes "getDefinition compilation (typeName syn) scope = Some defn"
    and "computeHierarchyDepth (maxInstanceDepth compilation) scope = None"
  shows "fromSyntax compilation syn scope results diags
           = Inr (results,
               diags @ assignmentDiags defn (parameterAssignments syn)
                 @ parameterDiags defn (parameterAssignments syn)
                 @ [Diag MaxInstanceDepthExceeded [Number (unat (maxInstanceDepth compilation))]])"
  unfolding fromSyntax_eq [OF assms(1)] using assms(2) by simp

lemma fromSyntax_returns:
  assumes "getDefinition compilation (typeName syn) scope = Some defn"
    and "instantiable compilation scope defn syn"
  shows "\<exists>results' diags'. fromSyntax compilation syn scope results diags = Inr (results', diags')"
proof (cases "computeHierarchyDepth (maxInstanceDepth compilation) scope")
  case None
  then show ?thesis
    using fromSyntax_exceeded [OF assms(1)] by simp
next
  case (Some depth)
  let ?V = "parameterVector defn (parameterAssignments syn)"
  have m: "map paramName (dropWhile isPortParam ?V) = bodyDeclarators (members (declSyntax defn))"
    unfolding parameterVector_eq using assms(2) by (intro evaluated_match) (simp add: instantiable_def)
  have k: "definitionKind defn \<noteq> Package"
    using assms(2) by (simp add: instantiable_def)
  have "\<forall>i \<in> set (instances syn). \<exists>s. recurseInstanceArray compilation defn i ?V scope
                             (dimensions i) [] depth = Inr s"
  proof
    fix i
    assume i: "i \<in> set (instances syn)"
    obtain s0 where "createInstance defn i ?V [] depth = Inr s0"
      using createInstance_ok [OF m k, of i "[]" depth] by blast
    moreover have "\<forall>d \<in> set (dimensions i). isRange (evalDimension compilation scope d)
        \<longrightarrow> upper (dimRange (evalDimension compilation scope d)) < INT32_MAX"
      using assms(2) i by (simp add: instantiable_def)
    ultimately show "\<exists>s. recurseInstanceArray compilation defn i ?V scope
                             (dimensions i) [] depth = Inr s"
      by (rule recurseInstanceArray_returns)
  qed
  from instantiateAll_returns [OF this, of "[]" results] show ?thesis
    unfolding fromSyntax_eq [OF assms(1)] using Some by auto
qed

text \<open>
  A property of the instance \<open>createInstance\<close> returns, which does not depend on the name of
  the instance, holds of every instance that \<open>fromSyntax\<close> creates.
\<close>

lemma createdInstances_inv:
  assumes "getDefinition compilation (typeName syn) scope = Some defn"
    and "computeHierarchyDepth (maxInstanceDepth compilation) scope = Some depth"
    and "fromSyntax compilation syn scope results diags = Inr (results', diags')"
    and create: "\<And>i path s. createInstance defn i
                    (parameterVector defn (parameterAssignments syn)) path depth = Inr s
                     \<Longrightarrow> \<forall>inst \<in> set (leaves s). Q inst"
    and name: "\<And>inst n. Q inst \<Longrightarrow> Q (inst\<lparr>instanceSymbolName := n\<rparr>)"
  shows "\<forall>inst \<in> set (createdInstances results results'). Q inst"
proof -
  from fromSyntax_created [OF assms(1,2,3)] obtain new added where
    new: "results' = results @ new" and
    nets: "filter isNetSym new = map (\<lambda>t. NetSym t (defaultNetType scope) LogicType) added" and
    insts: "list_all2 (\<lambda>i s. recurseInstanceArray compilation defn i
                           (parameterVector defn (parameterAssignments syn)) scope
                           (dimensions i) [] depth = Inr s)
         (instances syn) (filter (\<lambda>s. \<not> isNetSym s) new)"
    by blast
  have "\<forall>inst \<in> set (leaves s). Q inst" if "s \<in> set new" for s
  proof (cases "isNetSym s")
    case True
    then show ?thesis by (cases s) auto
  next
    case False
    with that have "s \<in> set (filter (\<lambda>s. \<not> isNetSym s) new)"
      by simp
    then obtain k where k: "k < length (filter (\<lambda>s. \<not> isNetSym s) new)"
        "s = filter (\<lambda>s. \<not> isNetSym s) new ! k"
      unfolding in_set_conv_nth by blast
    then have "recurseInstanceArray compilation defn (instances syn ! k)
                 (parameterVector defn (parameterAssignments syn)) scope
                 (dimensions (instances syn ! k)) [] depth = Inr s"
      using insts by (auto simp: list_all2_conv_all_nth)
    then show ?thesis
      by (rule recurseInstanceArray_leaves_inv [rotated 2]) (use create name in auto)
  qed
  then show ?thesis
    unfolding createdInstances_def new emitted_append by auto
qed

lemma createInstance_leaf_fields:
  assumes "createInstance defn i params path depth = Inr s"
  shows "\<forall>inst \<in> set (leaves s). hierarchyDepth inst = depth
           \<and> instanceKind inst = instanceKindOf (definitionKind defn)
           \<and> definitionOf inst = defn"
  using createInstance_fields [OF assms] by auto

lemma createInstance_leaf_parameters:
  assumes "map paramName (dropWhile isPortParam params) = bodyDeclarators (members (declSyntax defn))"
    and "createInstance defn i params path depth = Inr s"
  shows "\<forall>inst \<in> set (leaves s). parameterMembers (instanceMembers inst) = map clone params"
proof -
  have "definitionKind defn \<noteq> Package"
    using assms(2) by (auto simp: createInstance_def)
  from createInstance_ok [OF assms(1) this, of i path depth] assms(2) show ?thesis
    by auto
qed

lemma recurseInstanceArray_name:
  assumes "recurseInstanceArray compilation defn syn params scope dims path depth = Inr s"
  shows "symbolNameOf s = instanceName syn"
proof (cases dims)
  case Nil
  then have "createInstance defn syn params path depth = Inr s"
    using assms by simp
  then show ?thesis
    by (cases "definitionKind defn")
       (auto simp: createInstance_def instantiate_def populate_def newInstance_def Let_def
             split: sum.splits)
next
  case (Cons it rest)
  with assms show ?thesis
    by (auto simp: Let_def split: sum.splits if_splits)
qed

section \<open>Assignments to parameters that do not exist\<close>

lemma list_all2_map_eq:
  "list_all2 (\<lambda>x y. f y = g x) xs ys \<Longrightarrow> map f ys = map g xs"
  by (induction xs ys rule: list_all2_induct) auto

lemma created_symbol_names:
  assumes "getDefinition compilation (typeName syn) scope = Some defn"
    and "computeHierarchyDepth (maxInstanceDepth compilation) scope = Some depth"
    and "fromSyntax compilation syn scope results diags = Inr (results', diags')"
  shows "map symbolNameOf (filter (\<lambda>s. \<not> isNetSym s) (emitted results results'))
           = map instanceName (instances syn)"
proof -
  from fromSyntax_created [OF assms] obtain new where
    new: "results' = results @ new" and
    insts: "list_all2 (\<lambda>i s. recurseInstanceArray compilation defn i
                           (parameterVector defn (parameterAssignments syn)) scope
                           (dimensions i) [] depth = Inr s)
         (instances syn) (filter (\<lambda>s. \<not> isNetSym s) new)"
    by blast
  have "list_all2 (\<lambda>i s. symbolNameOf s = instanceName i)
          (instances syn) (filter (\<lambda>s. \<not> isNetSym s) new)"
    using insts recurseInstanceArray_name by (auto elim!: list_all2_mono)
  from list_all2_map_eq [OF this] show ?thesis
    unfolding new emitted_append .
qed

lemma created_parameters:
  assumes "getDefinition compilation (typeName syn) scope = Some defn"
    and "parametersMatchSyntax defn"
    and "fromSyntax compilation syn scope results diags = Inr (results', diags')"
  shows "\<forall>inst \<in> set (createdInstances results results').
           parameterMembers (instanceMembers inst)
             = map clone (parameterVector defn (parameterAssignments syn))"
proof (cases "computeHierarchyDepth (maxInstanceDepth compilation) scope")
  case None
  from assms(3) have "results' = results"
    unfolding fromSyntax_exceeded [OF assms(1) None] by simp
  then show ?thesis
    by (simp add: createdInstances_def emitted_def)
next
  case (Some depth)
  let ?V = "parameterVector defn (parameterAssignments syn)"
  have m: "map paramName (dropWhile isPortParam ?V) = bodyDeclarators (members (declSyntax defn))"
    unfolding parameterVector_eq using assms(2) by (rule evaluated_match)
  show ?thesis
    by (rule createdInstances_inv [OF assms(1) Some assms(3)])
       (use createInstance_leaf_parameters [OF m] in auto)
qed

lemma fromSyntax_synQ:
  "fromSyntax exampleCompilation synQ topScope [] []
     = Inr ([InstanceSym \<lparr>instanceKind = ModuleInstance, instanceSymbolName = ''u'',
               definitionOf = defM, hierarchyDepth = 1, arrayPath = [],
               instanceMembers = [ParameterMember (paramP\<lparr>resolution := Cleared\<rparr>)],
               portConnections = Some []\<rparr>],
            [Diag ParameterDoesNotExist [Text ''Q'', Text ''m'']])"
  by code_simp

lemma fromSyntax_synOrderedQ:
  "fromSyntax exampleCompilation synOrderedQ topScope [] []
     = Inr ([InstanceSym \<lparr>instanceKind = ModuleInstance, instanceSymbolName = ''u'',
               definitionOf = defM, hierarchyDepth = 1, arrayPath = [],
               instanceMembers = [ParameterMember (paramP\<lparr>initializer := Some (lit ''5''),
                                                       resolution := ResolvedInContext\<rparr>)],
               portConnections = Some []\<rparr>],
            [Diag MixingOrderedAndNamedParams []])"
  by code_simp

lemma fromSyntax_synNamedOrderedQ:
  "fromSyntax exampleCompilation synNamedOrderedQ topScope [] []
     = Inr ([InstanceSym \<lparr>instanceKind = ModuleInstance, instanceSymbolName = ''u'',
               definitionOf = defM, hierarchyDepth = 1, arrayPath = [],
               instanceMembers = [ParameterMember (paramP\<lparr>initializer := Some (lit ''1''),
                                                       resolution := ResolvedInContext\<rparr>)],
               portConnections = Some []\<rparr>],
            [Diag MixingOrderedAndNamedParams []])"
  by code_simp

lemma named_form:
  assumes "ps \<noteq> []" "\<not> isOrderedArgument (hd ps)"
  obtains n0 e0 rest where "ps = NamedArgument n0 e0 # rest"
  using assms by (cases ps; cases "hd ps") auto

lemma created_default:
  assumes "getDefinition compilation (typeName syn) scope = Some defn"
    and "parametersMatchSyntax defn"
    and "fromSyntax compilation syn scope results diags = Inr (results', diags')"
    and "inst \<in> set (createdInstances results results')"
    and "i < length (parameters defn)"
    and "paramOverridesOf defn (parameterAssignments syn) (paramName (parameters defn ! i)) = None"
  shows "holdsDefault (parameters defn ! i) (parameterMembers (instanceMembers inst) ! i)"
proof -
  have "parameterMembers (instanceMembers inst)
          = map clone (parameterVector defn (parameterAssignments syn))"
    using created_parameters [OF assms(1-3)] assms(4) by blast
  then show ?thesis
    using parameterVector_default [OF assms(5,6)] assms(5)
    by (simp add: parameterVector_length clone_def)
qed

text \<open>
  C5, as the code has it. Take an instantiation with parameter assignments whose definition
  resolves and whose instances can be created; \<open>fromSyntax\<close> returns. When the first
  assignment is named, the names assigned are the non-empty names of the named assignments
  that stand before the first ordered one, and for every name the diagnostics added hold
  the \<open>ParameterDoesNotExist\<close> of that name and the definition exactly once when the name is
  assigned and no parameter of the definition has it, and not at all otherwise. When the
  first assignment is ordered, or there is none, no \<open>ParameterDoesNotExist\<close> is added,
  whatever names the later assignments have. When the depth is within the limit, the symbols
  added, nets apart, are one for each instance name, in order. In every instance created
  the parameter members are as many as the parameters of the definition, every parameter
  for whose name there is no override holds its declared default, and when the first
  assignment is named there is none for a name that is not assigned.
\<close>

theorem unknown_named_parameter:
  assumes "getDefinition compilation (typeName syn) scope = Some defn"
    and "parameterAssignments syn = Some ps"
    and "instantiable compilation scope defn syn"
  shows "\<exists>results' diags'.
     fromSyntax compilation syn scope results diags = Inr (results', diags')
     \<and> (ps \<noteq> [] \<and> \<not> isOrderedArgument (hd ps) \<longrightarrow>
          (\<forall>n. count_list (emitted diags diags')
                  (Diag ParameterDoesNotExist [Text n, Text (definitionName defn)])
                = (if n \<in> set (collectedNames ps) \<and> n \<notin> paramName ` set (parameters defn)
                   then 1 else 0)))
     \<and> (ps = [] \<or> isOrderedArgument (hd ps) \<longrightarrow>
          countDiags ParameterDoesNotExist (emitted diags diags') = 0)
     \<and> (computeHierarchyDepth (maxInstanceDepth compilation) scope \<noteq> None \<longrightarrow>
          map symbolNameOf (filter (\<lambda>s. \<not> isNetSym s) (emitted results results'))
            = map instanceName (instances syn))
     \<and> (\<forall>inst \<in> set (createdInstances results results').
           length (parameterMembers (instanceMembers inst)) = length (parameters defn)
           \<and> (\<forall>i < length (parameters defn).
                 paramOverridesOf defn (Some ps) (paramName (parameters defn ! i)) = None \<longrightarrow>
                 holdsDefault (parameters defn ! i) (parameterMembers (instanceMembers inst) ! i)))
     \<and> (ps \<noteq> [] \<and> \<not> isOrderedArgument (hd ps) \<longrightarrow>
          (\<forall>n. n \<notin> set (collectedNames ps) \<longrightarrow> paramOverridesOf defn (Some ps) n = None))"
proof -
  obtain results' diags' where
    run: "fromSyntax compilation syn scope results diags = Inr (results', diags')"
    using fromSyntax_returns [OF assms(1,3)] by blast
  have counts: "\<forall>n. count_list (emitted diags diags')
                  (Diag ParameterDoesNotExist [Text n, Text (definitionName defn)])
                = (if n \<in> set (collectedNames ps) \<and> n \<notin> paramName ` set (parameters defn)
                   then 1 else 0)"
    if "ps \<noteq> []" "\<not> isOrderedArgument (hd ps)"
  proof -
    from that obtain n0 e0 rest where ps: "ps = NamedArgument n0 e0 # rest"
      by (rule named_form)
    show ?thesis
      using count_list_fromSyntax [OF assms(1) run, of ParameterDoesNotExist]
        assignmentDiags_named_form(3) [of defn n0 e0 rest] assms(2)
      unfolding ps by simp
  qed
  have ordered: "countDiags ParameterDoesNotExist (emitted diags diags') = 0"
    if "ps = [] \<or> isOrderedArgument (hd ps)"
    using countDiags_fromSyntax [OF assms(1) run, of ParameterDoesNotExist]
      assignmentDiags_ordered_form(3) [OF that, of defn] assms(2)
    by simp
  have names: "map symbolNameOf (filter (\<lambda>s. \<not> isNetSym s) (emitted results results'))
         = map instanceName (instances syn)"
    if "computeHierarchyDepth (maxInstanceDepth compilation) scope \<noteq> None"
  proof -
    from that obtain depth where
      "computeHierarchyDepth (maxInstanceDepth compilation) scope = Some depth"
      by blast
    from created_symbol_names [OF assms(1) this run] show ?thesis .
  qed
  have match: "parametersMatchSyntax defn"
    using assms(3) by (simp add: instantiable_def)
  have params: "\<forall>inst \<in> set (createdInstances results results').
           length (parameterMembers (instanceMembers inst)) = length (parameters defn)
           \<and> (\<forall>i < length (parameters defn).
                 paramOverridesOf defn (Some ps) (paramName (parameters defn ! i)) = None \<longrightarrow>
                 holdsDefault (parameters defn ! i) (parameterMembers (instanceMembers inst) ! i))"
  proof
    fix inst
    assume inst: "inst \<in> set (createdInstances results results')"
    then have "parameterMembers (instanceMembers inst)
                     = map clone (parameterVector defn (Some ps))"
      using created_parameters [OF assms(1) match run] assms(2) by simp
    then have "length (parameterMembers (instanceMembers inst)) = length (parameters defn)"
      by (simp add: parameterVector_length)
    moreover have "\<forall>i < length (parameters defn).
                 paramOverridesOf defn (Some ps) (paramName (parameters defn ! i)) = None \<longrightarrow>
                 holdsDefault (parameters defn ! i) (parameterMembers (instanceMembers inst) ! i)"
      using created_default [OF assms(1) match run inst] assms(2) by simp
    ultimately show "length (parameterMembers (instanceMembers inst)) = length (parameters defn)
           \<and> (\<forall>i < length (parameters defn).
                 paramOverridesOf defn (Some ps) (paramName (parameters defn ! i)) = None \<longrightarrow>
                 holdsDefault (parameters defn ! i) (parameterMembers (instanceMembers inst) ! i))"
      by blast
  qed
  have none: "\<forall>n. n \<notin> set (collectedNames ps) \<longrightarrow> paramOverridesOf defn (Some ps) n = None"
    if "ps \<noteq> []" "\<not> isOrderedArgument (hd ps)"
  proof -
    from that obtain n0 e0 rest where ps: "ps = NamedArgument n0 e0 # rest"
      by (rule named_form)
    show ?thesis
      unfolding ps using paramOverridesOf_collected [of defn n0 e0 rest]
      by (metis not_Some_eq)
  qed
  show ?thesis
    using run counts ordered names params none by blast
qed

theorem unknown_named_parameter_witness:
  "getDefinition exampleCompilation (typeName synQ) topScope = Some defM
   \<and> parameterAssignments synQ = Some [NamedArgument ''Q'' (Some (lit ''2''))]
   \<and> instantiable exampleCompilation topScope defM synQ
   \<and> computeHierarchyDepth (maxInstanceDepth exampleCompilation) topScope = Some 1
   \<and> collectedNames [NamedArgument ''Q'' (Some (lit ''2''))] = [''Q'']
   \<and> ''Q'' \<notin> paramName ` set (parameters defM)
   \<and> (\<exists>results' diags' inst.
         fromSyntax exampleCompilation synQ topScope [] [] = Inr (results', diags')
         \<and> count_list (emitted [] diags')
               (Diag ParameterDoesNotExist [Text ''Q'', Text (definitionName defM)]) = 1
         \<and> count_list (emitted [] diags')
               (Diag ParameterDoesNotExist [Text ''P'', Text (definitionName defM)]) = 0
         \<and> map symbolNameOf (filter (\<lambda>s. \<not> isNetSym s) (emitted [] results'))
               = map instanceName (instances synQ)
         \<and> createdInstances [] results' = [inst]
         \<and> length (parameterMembers (instanceMembers inst)) = length (parameters defM)
         \<and> paramOverridesOf defM (Some [NamedArgument ''Q'' (Some (lit ''2''))]) ''P'' = None
         \<and> holdsDefault (parameters defM ! 0) (parameterMembers (instanceMembers inst) ! 0))"
proof -
  let ?ps = "[NamedArgument ''Q'' (Some (lit ''2''))]"
  have resolved: "getDefinition exampleCompilation (typeName synQ) topScope = Some defM"
    by (simp add: exampleCompilation_def synQ_def mkInstantiation_def)
  have assignments: "parameterAssignments synQ = Some ?ps"
    by (simp add: synQ_def mkInstantiation_def)
  have depth: "computeHierarchyDepth (maxInstanceDepth exampleCompilation) topScope = Some 1"
    by (simp add: exampleCompilation_def topScope_def)
  have able: "instantiable exampleCompilation topScope defM synQ"
    by (simp add: instantiable_def parametersMatchSyntax_def defM_def paramP_def synQ_def
        mkInstantiation_def instanceU_def)
  have collected: "collectedNames ?ps = [''Q'']"
    by (simp add: collectedNames_def)
  have unknown: "''Q'' \<notin> paramName ` set (parameters defM)"
    by (simp add: defM_def paramP_def)
  have first: "(0::nat) < length (parameters defM)" "paramName (parameters defM ! 0) = ''P''"
    by (simp_all add: defM_def paramP_def)
  have form: "?ps \<noteq> [] \<and> \<not> isOrderedArgument (hd ?ps)"
    by simp
  from unknown_named_parameter [OF resolved assignments able, of "[]" "[]"]
  obtain results' diags' where
    run: "fromSyntax exampleCompilation synQ topScope [] [] = Inr (results', diags')" and
    count: "\<forall>n. count_list (emitted [] diags')
                  (Diag ParameterDoesNotExist [Text n, Text (definitionName defM)])
                = (if n \<in> set (collectedNames ?ps) \<and> n \<notin> paramName ` set (parameters defM)
                   then 1 else 0)" and
    names: "map symbolNameOf (filter (\<lambda>s. \<not> isNetSym s) (emitted [] results'))
               = map instanceName (instances synQ)" and
    params: "\<forall>inst \<in> set (createdInstances [] results').
           length (parameterMembers (instanceMembers inst)) = length (parameters defM)
           \<and> (\<forall>i < length (parameters defM).
                 paramOverridesOf defM (Some ?ps) (paramName (parameters defM ! i)) = None \<longrightarrow>
                 holdsDefault (parameters defM ! i) (parameterMembers (instanceMembers inst) ! i))" and
    none: "\<forall>n. n \<notin> set (collectedNames ?ps) \<longrightarrow> paramOverridesOf defM (Some ?ps) n = None"
    using form depth by auto
  have countQ: "count_list (emitted [] diags')
               (Diag ParameterDoesNotExist [Text ''Q'', Text (definitionName defM)]) = 1"
    using count unknown unfolding collected by simp
  have countP: "count_list (emitted [] diags')
               (Diag ParameterDoesNotExist [Text ''P'', Text (definitionName defM)]) = 0"
    using count unfolding collected by simp
  have noneP: "paramOverridesOf defM (Some ?ps) ''P'' = None"
    using none unfolding collected by simp
  have "length (createdInstances [] results') = 1"
    using run unfolding fromSyntax_synQ by (auto simp: createdInstances_def emitted_def)
  then obtain inst where one: "createdInstances [] results' = [inst]"
    by (cases "createdInstances [] results'") auto
  with params first noneP have
    "length (parameterMembers (instanceMembers inst)) = length (parameters defM)"
    "holdsDefault (parameters defM ! 0) (parameterMembers (instanceMembers inst) ! 0)"
    by auto
  with run countQ countP names one noneP have "\<exists>results' diags' inst.
         fromSyntax exampleCompilation synQ topScope [] [] = Inr (results', diags')
         \<and> count_list (emitted [] diags')
               (Diag ParameterDoesNotExist [Text ''Q'', Text (definitionName defM)]) = 1
         \<and> count_list (emitted [] diags')
               (Diag ParameterDoesNotExist [Text ''P'', Text (definitionName defM)]) = 0
         \<and> map symbolNameOf (filter (\<lambda>s. \<not> isNetSym s) (emitted [] results'))
               = map instanceName (instances synQ)
         \<and> createdInstances [] results' = [inst]
         \<and> length (parameterMembers (instanceMembers inst)) = length (parameters defM)
         \<and> paramOverridesOf defM (Some ?ps) ''P'' = None
         \<and> holdsDefault (parameters defM ! 0) (parameterMembers (instanceMembers inst) ! 0)"
    by blast
  with resolved assignments depth able collected unknown show ?thesis
    by simp
qed

text \<open>
  The claim as the specification words it fails for a named assignment that follows an
  ordered one. In \<open>m #(5, .Q(2)) u();\<close> and in \<open>m #(.P(1), 5, .Q(2)) u();\<close> the module \<open>m\<close> has
  no parameter \<open>Q\<close>, and the only diagnostic is \<open>MixingOrderedAndNamedParams\<close>: the loop
  over the assignments ends at the first assignment of the other form, before it has
  looked at \<open>.Q(2)\<close>.
\<close>

theorem unknown_named_parameter_counterexample:
  "getDefinition exampleCompilation (typeName synOrderedQ) topScope = Some defM
   \<and> getDefinition exampleCompilation (typeName synNamedOrderedQ) topScope = Some defM
   \<and> ''Q'' \<notin> paramName ` set (parameters defM)
   \<and> parameterAssignments synOrderedQ
       = Some [OrderedArgument (lit ''5''), NamedArgument ''Q'' (Some (lit ''2''))]
   \<and> (\<exists>results'. fromSyntax exampleCompilation synOrderedQ topScope [] []
                     = Inr (results', [Diag MixingOrderedAndNamedParams []]))
   \<and> parameterAssignments synNamedOrderedQ
       = Some [NamedArgument ''P'' (Some (lit ''1'')), OrderedArgument (lit ''5''),
               NamedArgument ''Q'' (Some (lit ''2''))]
   \<and> (\<exists>results'. fromSyntax exampleCompilation synNamedOrderedQ topScope [] []
                     = Inr (results', [Diag MixingOrderedAndNamedParams []]))"
  by (simp add: fromSyntax_synOrderedQ fromSyntax_synNamedOrderedQ)
     (simp add: exampleCompilation_def synOrderedQ_def synNamedOrderedQ_def mkInstantiation_def
        defM_def paramP_def)

section \<open>Assignments to local parameters\<close>

lemma collectParams_orderedParams:
  "hasParamAssignments st \<Longrightarrow> orderedAssignments st \<Longrightarrow>
   collectParams ps st diags = (st', diags') \<Longrightarrow>
   orderedAssignments st' \<and> orderedParams st' = orderedParams st @ orderedExprs ps"
proof (induction ps arbitrary: st)
  case Nil
  then show ?case by simp
next
  case (Cons a ps)
  show ?case
  proof (cases a)
    case (OrderedArgument e)
    let ?st1 = "st\<lparr>orderedParams := orderedParams st @ [e]\<rparr>"
    have "collectParams ps ?st1 diags = (st', diags')"
      using Cons.prems OrderedArgument by (simp add: Let_def)
    from Cons.IH [OF _ _ this] Cons.prems(1,2) show ?thesis
      unfolding OrderedArgument by simp
  next
    case (NamedArgument n e)
    with Cons.prems show ?thesis
      by (simp add: Let_def)
  qed
qed

lemma collectParams_ordered_exprs:
  assumes "ps = [] \<or> isOrderedArgument (hd ps)"
    and "collectParams ps noParamAssignments diags = (st', diags')"
  shows "orderedAssignments st' \<and> orderedParams st' = orderedExprs ps"
proof (cases ps)
  case Nil
  with assms(2) show ?thesis
    by (auto simp: noParamAssignments_def)
next
  case (Cons a rest)
  with assms(1) obtain e where a: "a = OrderedArgument e"
    by (cases a) auto
  let ?st1 = "noParamAssignments\<lparr>hasParamAssignments := True, orderedAssignments := True,
                                  orderedParams := [e]\<rparr>"
  have "collectParams rest ?st1 diags = (st', diags')"
    using assms(2) unfolding Cons a by (simp add: Let_def noParamAssignments_def)
  from collectParams_orderedParams [OF _ _ this] show ?thesis
    unfolding Cons a by simp
qed

lemma assignOrdered_map:
  "assignOrdered params ordered i ov = (i', ov') \<Longrightarrow>
   ov' = (\<lambda>n. case ov n of
                 Some e \<Rightarrow> Some e
               | None \<Rightarrow> map_of (zip (map paramName (filter (\<lambda>p. \<not> isLocalParam p) params))
                                      (drop i ordered)) n)"
proof (induction params arbitrary: i ov)
  case Nil
  then show ?case
    by (auto split: option.splits)
next
  case (Cons p params)
  show ?case
  proof (cases "i \<ge> length ordered")
    case True
    with Cons.prems show ?thesis
      by (auto split: option.splits)
  next
    case False
    show ?thesis
    proof (cases "isLocalParam p")
      case True
      then have run: "assignOrdered params ordered i ov = (i', ov')"
        using Cons.prems False by simp
      have same: "filter (\<lambda>p. \<not> isLocalParam p) (p # params)
                    = filter (\<lambda>p. \<not> isLocalParam p) params"
        using True by simp
      show ?thesis
        unfolding same by (rule Cons.IH [OF run])
    next
      case nonlocal: False
      have run: "assignOrdered params ordered (i + 1) (emplace ov (paramName p) (ordered ! i))
                   = (i', ov')"
        using Cons.prems False nonlocal by simp
      have drop: "drop i ordered = ordered ! i # drop (i + 1) ordered"
        using False by (simp add: Cons_nth_drop_Suc)
      have names: "map paramName (filter (\<lambda>p. \<not> isLocalParam p) (p # params))
                     = paramName p # map paramName (filter (\<lambda>p. \<not> isLocalParam p) params)"
        using nonlocal by simp
      show ?thesis
        unfolding Cons.IH [OF run] names drop
        by (auto simp: emplace_def fun_eq_iff split: option.splits)
    qed
  qed
qed

lemma paramOverridesOf_ordered:
  assumes "ps = [] \<or> isOrderedArgument (hd ps)"
  shows "paramOverridesOf defn (Some ps)
           = map_of (zip (map paramName (filter (\<lambda>p. \<not> isLocalParam p) (parameters defn)))
                         (orderedExprs ps))"
proof -
  obtain st d1 where collect: "collectParams ps noParamAssignments [] = (st, d1)"
    by (cases "collectParams ps noParamAssignments []") auto
  from collectParams_ordered_exprs [OF assms collect] have
    st: "orderedAssignments st" "orderedParams st = orderedExprs ps"
    by simp_all
  obtain i' ov' where run: "assignOrdered (parameters defn) (orderedExprs ps) 0 Map.empty = (i', ov')"
    by (cases "assignOrdered (parameters defn) (orderedExprs ps) 0 Map.empty") auto
  have "paramOverridesOf defn (Some ps) = ov'"
    by (simp add: paramOverridesOf_def buildParamOverrides_def collect st run)
  then show ?thesis
    unfolding assignOrdered_map [OF run] by simp
qed

lemma parameterVector_override:
  assumes "i < length (parameters defn)"
    and "paramOverridesOf defn assignments (paramName (parameters defn ! i)) = Some e"
    and "paramKind (parameters defn ! i) = Parameter"
  shows "parameterVector defn assignments ! i
           = (parameters defn ! i)\<lparr>initializer := Some e, resolution := ResolvedInContext\<rparr>"
  unfolding parameterVector_eq using assms
  by (simp add: evaluateParameter_def clone_def)

lemma fromSyntax_synNamedL:
  "fromSyntax exampleCompilation synNamedL topScope [] []
     = Inr ([InstanceSym \<lparr>instanceKind = ModuleInstance, instanceSymbolName = ''u'',
               definitionOf = defLM, hierarchyDepth = 1, arrayPath = [],
               instanceMembers = [ParameterMember (paramL\<lparr>resolution := Cleared\<rparr>),
                                  ParameterMember (paramP\<lparr>resolution := Cleared\<rparr>)],
               portConnections = Some []\<rparr>],
            [Diag AssignedToLocalPortParam []])"
  by code_simp

lemma fromSyntax_synOrdered:
  "fromSyntax exampleCompilation synOrdered topScope [] []
     = Inr ([InstanceSym \<lparr>instanceKind = ModuleInstance, instanceSymbolName = ''u'',
               definitionOf = defLM, hierarchyDepth = 1, arrayPath = [],
               instanceMembers = [ParameterMember (paramL\<lparr>resolution := Cleared\<rparr>),
                                  ParameterMember (paramP\<lparr>initializer := Some (lit ''5''),
                                                          resolution := ResolvedInContext\<rparr>)],
               portConnections = Some []\<rparr>],
            [])"
  by code_simp

lemma fromSyntax_synMixed:
  "fromSyntax exampleCompilation synMixed topScope [] []
     = Inr ([InstanceSym \<lparr>instanceKind = ModuleInstance, instanceSymbolName = ''u'',
               definitionOf = defLM, hierarchyDepth = 1, arrayPath = [],
               instanceMembers = [ParameterMember (paramL\<lparr>resolution := Cleared\<rparr>),
                                  ParameterMember (paramP\<lparr>initializer := Some (lit ''5''),
                                                          resolution := ResolvedInContext\<rparr>)],
               portConnections = Some []\<rparr>],
            [Diag MixingOrderedAndNamedParams []])"
  by code_simp

lemma created_local_default:
  assumes "getDefinition compilation (typeName syn) scope = Some defn"
    and "parametersMatchSyntax defn"
    and "fromSyntax compilation syn scope results diags = Inr (results', diags')"
    and "inst \<in> set (createdInstances results results')"
    and "i < length (parameters defn)"
    and "\<forall>q \<in> set (parameters defn).
           paramName q = paramName (parameters defn ! i) \<longrightarrow> isLocalParam q"
  shows "holdsDefault (parameters defn ! i) (parameterMembers (instanceMembers inst) ! i)"
proof -
  have "parameterMembers (instanceMembers inst)
          = map clone (parameterVector defn (parameterAssignments syn))"
    using created_parameters [OF assms(1-3)] assms(4) by blast
  then show ?thesis
    using parameterVector_local [OF assms(5,6), of "parameterAssignments syn"] assms(5)
    by (simp add: parameterVector_length clone_def)
qed

lemma fromSyntax_synDupNamed:
  "fromSyntax dupCompilation synDupNamed topScope [] []
     = Inr ([InstanceSym \<lparr>instanceKind = ModuleInstance, instanceSymbolName = ''u'',
               definitionOf = defDup, hierarchyDepth = 1, arrayPath = [],
               instanceMembers = [ParameterMember (paramX\<lparr>initializer := Some (lit ''5''),
                                                       resolution := ResolvedInContext\<rparr>),
                                  ParameterMember (paramLX\<lparr>initializer := Some (lit ''5''),
                                                        resolution := ResolvedInContext\<rparr>)],
               portConnections = Some []\<rparr>],
            [Diag AssignedToLocalPortParam []])"
  by code_simp

lemma fromSyntax_synDupOrdered:
  "fromSyntax dupCompilation synDupOrdered topScope [] []
     = Inr ([InstanceSym \<lparr>instanceKind = ModuleInstance, instanceSymbolName = ''u'',
               definitionOf = defDup, hierarchyDepth = 1, arrayPath = [],
               instanceMembers = [ParameterMember (paramX\<lparr>initializer := Some (lit ''5''),
                                                       resolution := ResolvedInContext\<rparr>),
                                  ParameterMember (paramLX\<lparr>initializer := Some (lit ''5''),
                                                        resolution := ResolvedInContext\<rparr>)],
               portConnections = Some []\<rparr>],
            [])"
  by code_simp

lemma created_override:
  assumes "getDefinition compilation (typeName syn) scope = Some defn"
    and "parametersMatchSyntax defn"
    and "fromSyntax compilation syn scope results diags = Inr (results', diags')"
    and "inst \<in> set (createdInstances results results')"
    and "i < length (parameters defn)"
    and "paramOverridesOf defn (parameterAssignments syn) (paramName (parameters defn ! i)) = Some e"
    and "paramKind (parameters defn ! i) = Parameter"
  shows "parameterMembers (instanceMembers inst) ! i
           = (parameters defn ! i)\<lparr>initializer := Some e, resolution := ResolvedInContext\<rparr>"
proof -
  have "parameterMembers (instanceMembers inst)
          = map clone (parameterVector defn (parameterAssignments syn))"
    using created_parameters [OF assms(1-3)] assms(4) by blast
  then show ?thesis
    using parameterVector_override [OF assms(5-7)] assms(5)
    by (simp add: parameterVector_length clone_def)
qed

text \<open>
  C6, as the code has it. Take an instantiation with parameter assignments whose definition
  resolves and whose instances can be created; \<open>fromSyntax\<close> returns. When the first
  assignment is named, the diagnostics added hold one \<open>AssignedToLocalPortParam\<close> for each
  local port parameter of the definition, and one \<open>AssignedToLocalBodyParam\<close> for each local
  body parameter, whose name is among the names assigned before the first ordered
  assignment. When the assignments are ordered (the first one is, or there is none), no
  such diagnostic is added: the local parameters are passed over, and the overrides pair
  the names of the parameters that are not local, in the order of their declaration, with
  the expressions of the ordered assignments that stand before the first named one, in
  their order, the first pair of a name deciding. In both forms an override exists only for
  the name of a parameter that is not local. The overrides are looked up by name: in every
  instance created, a parameter, local or not, for whose name there is no override holds
  its declared default, as does every parameter whose name only local parameters have,
  and a value parameter, local or not, for whose name there is an override has the
  expression of the override as its initializer.
\<close>

theorem local_parameter_assignment:
  assumes "getDefinition compilation (typeName syn) scope = Some defn"
    and "parameterAssignments syn = Some ps"
    and "instantiable compilation scope defn syn"
  shows "\<exists>results' diags'.
     fromSyntax compilation syn scope results diags = Inr (results', diags')
     \<and> (ps \<noteq> [] \<and> \<not> isOrderedArgument (hd ps) \<longrightarrow>
          countDiags AssignedToLocalPortParam (emitted diags diags')
            = length (filter (\<lambda>p. isLocalParam p \<and> isPortParam p
                                 \<and> paramName p \<in> set (collectedNames ps)) (parameters defn))
          \<and> countDiags AssignedToLocalBodyParam (emitted diags diags')
            = length (filter (\<lambda>p. isLocalParam p \<and> \<not> isPortParam p
                                 \<and> paramName p \<in> set (collectedNames ps)) (parameters defn)))
     \<and> (ps = [] \<or> isOrderedArgument (hd ps) \<longrightarrow>
          countDiags AssignedToLocalPortParam (emitted diags diags') = 0
          \<and> countDiags AssignedToLocalBodyParam (emitted diags diags') = 0
          \<and> paramOverridesOf defn (Some ps)
              = map_of (zip (map paramName (filter (\<lambda>p. \<not> isLocalParam p) (parameters defn)))
                            (orderedExprs ps)))
     \<and> (\<forall>n e. paramOverridesOf defn (Some ps) n = Some e \<longrightarrow>
          (\<exists>p \<in> set (parameters defn). paramName p = n \<and> \<not> isLocalParam p))
     \<and> (\<forall>inst \<in> set (createdInstances results results'). \<forall>i < length (parameters defn).
          paramOverridesOf defn (Some ps) (paramName (parameters defn ! i)) = None \<longrightarrow>
          holdsDefault (parameters defn ! i) (parameterMembers (instanceMembers inst) ! i))
     \<and> (\<forall>inst \<in> set (createdInstances results results'). \<forall>i < length (parameters defn).
          (\<forall>q \<in> set (parameters defn).
              paramName q = paramName (parameters defn ! i) \<longrightarrow> isLocalParam q) \<longrightarrow>
          holdsDefault (parameters defn ! i) (parameterMembers (instanceMembers inst) ! i))
     \<and> (\<forall>inst \<in> set (createdInstances results results'). \<forall>i < length (parameters defn). \<forall>e.
          paramOverridesOf defn (Some ps) (paramName (parameters defn ! i)) = Some e
          \<and> paramKind (parameters defn ! i) = Parameter \<longrightarrow>
          parameterMembers (instanceMembers inst) ! i
            = (parameters defn ! i)\<lparr>initializer := Some e, resolution := ResolvedInContext\<rparr>)"
proof -
  obtain results' diags' where
    run: "fromSyntax compilation syn scope results diags = Inr (results', diags')"
    using fromSyntax_returns [OF assms(1,3)] by blast
  have port: "countDiags AssignedToLocalPortParam (emitted diags diags')
                = countDiags AssignedToLocalPortParam (assignmentDiags defn (Some ps))"
    using countDiags_fromSyntax [OF assms(1) run, of AssignedToLocalPortParam] assms(2) by simp
  have body: "countDiags AssignedToLocalBodyParam (emitted diags diags')
                = countDiags AssignedToLocalBodyParam (assignmentDiags defn (Some ps))"
    using countDiags_fromSyntax [OF assms(1) run, of AssignedToLocalBodyParam] assms(2) by simp
  have named: "countDiags AssignedToLocalPortParam (emitted diags diags')
            = length (filter (\<lambda>p. isLocalParam p \<and> isPortParam p
                                 \<and> paramName p \<in> set (collectedNames ps)) (parameters defn))
          \<and> countDiags AssignedToLocalBodyParam (emitted diags diags')
            = length (filter (\<lambda>p. isLocalParam p \<and> \<not> isPortParam p
                                 \<and> paramName p \<in> set (collectedNames ps)) (parameters defn))"
    if "ps \<noteq> []" "\<not> isOrderedArgument (hd ps)"
  proof -
    from that obtain n0 e0 rest where ps: "ps = NamedArgument n0 e0 # rest"
      by (rule named_form)
    show ?thesis
      unfolding port body ps
      using assignmentDiags_named_form(1,2) [of defn n0 e0 rest] by simp
  qed
  have ordered: "countDiags AssignedToLocalPortParam (emitted diags diags') = 0
          \<and> countDiags AssignedToLocalBodyParam (emitted diags diags') = 0
          \<and> paramOverridesOf defn (Some ps)
              = map_of (zip (map paramName (filter (\<lambda>p. \<not> isLocalParam p) (parameters defn)))
                            (orderedExprs ps))"
    if "ps = [] \<or> isOrderedArgument (hd ps)"
    unfolding port body
    using assignmentDiags_ordered_form(1,2) [OF that] paramOverridesOf_ordered [OF that]
    by simp
  have overrides: "\<forall>n e. paramOverridesOf defn (Some ps) n = Some e \<longrightarrow>
          (\<exists>p \<in> set (parameters defn). paramName p = n \<and> \<not> isLocalParam p)"
    using paramOverridesOf_nonlocal by blast
  have match: "parametersMatchSyntax defn"
    using assms(3) by (simp add: instantiable_def)
  have kept: "\<forall>inst \<in> set (createdInstances results results'). \<forall>i < length (parameters defn).
          paramOverridesOf defn (Some ps) (paramName (parameters defn ! i)) = None \<longrightarrow>
          holdsDefault (parameters defn ! i) (parameterMembers (instanceMembers inst) ! i)"
    using created_default [OF assms(1) match run] assms(2) by simp
  have defaults: "\<forall>inst \<in> set (createdInstances results results'). \<forall>i < length (parameters defn).
          (\<forall>q \<in> set (parameters defn).
              paramName q = paramName (parameters defn ! i) \<longrightarrow> isLocalParam q) \<longrightarrow>
          holdsDefault (parameters defn ! i) (parameterMembers (instanceMembers inst) ! i)"
    using created_local_default [OF assms(1) match run] by blast
  have taken: "\<forall>inst \<in> set (createdInstances results results'). \<forall>i < length (parameters defn). \<forall>e.
          paramOverridesOf defn (Some ps) (paramName (parameters defn ! i)) = Some e
          \<and> paramKind (parameters defn ! i) = Parameter \<longrightarrow>
          parameterMembers (instanceMembers inst) ! i
            = (parameters defn ! i)\<lparr>initializer := Some e, resolution := ResolvedInContext\<rparr>"
    using created_override [OF assms(1) match run] assms(2) by simp
  show ?thesis
    using run named ordered overrides kept defaults taken by blast
qed

theorem local_parameter_assignment_witness:
  "getDefinition exampleCompilation (typeName synNamedL) topScope = Some defLM
   \<and> parameterAssignments synNamedL = Some [NamedArgument ''L'' (Some (lit ''2''))]
   \<and> instantiable exampleCompilation topScope defLM synNamedL
   \<and> getDefinition exampleCompilation (typeName synOrdered) topScope = Some defLM
   \<and> parameterAssignments synOrdered = Some [OrderedArgument (lit ''5'')]
   \<and> instantiable exampleCompilation topScope defLM synOrdered
   \<and> parameters defLM = [paramL, paramP]
   \<and> (\<exists>results' diags' inst.
         fromSyntax exampleCompilation synNamedL topScope [] [] = Inr (results', diags')
         \<and> countDiags AssignedToLocalPortParam (emitted [] diags') = 1
         \<and> countDiags AssignedToLocalBodyParam (emitted [] diags') = 0
         \<and> paramOverridesOf defLM (Some [NamedArgument ''L'' (Some (lit ''2''))]) ''L'' = None
         \<and> createdInstances [] results' = [inst]
         \<and> holdsDefault paramL (parameterMembers (instanceMembers inst) ! 0))
   \<and> (\<exists>results' diags' inst.
         fromSyntax exampleCompilation synOrdered topScope [] [] = Inr (results', diags')
         \<and> countDiags AssignedToLocalPortParam (emitted [] diags') = 0
         \<and> countDiags AssignedToLocalBodyParam (emitted [] diags') = 0
         \<and> paramOverridesOf defLM (Some [OrderedArgument (lit ''5'')]) ''L'' = None
         \<and> paramOverridesOf defLM (Some [OrderedArgument (lit ''5'')]) ''P'' = Some (lit ''5'')
         \<and> createdInstances [] results' = [inst]
         \<and> holdsDefault paramL (parameterMembers (instanceMembers inst) ! 0)
         \<and> parameterMembers (instanceMembers inst) ! 1
             = paramP\<lparr>initializer := Some (lit ''5''), resolution := ResolvedInContext\<rparr>)"
proof -
  let ?named = "[NamedArgument ''L'' (Some (lit ''2''))]"
  let ?ordered = "[OrderedArgument (lit ''5'')]"
  have resolved: "getDefinition exampleCompilation (typeName synNamedL) topScope = Some defLM"
    "getDefinition exampleCompilation (typeName synOrdered) topScope = Some defLM"
    by (simp_all add: exampleCompilation_def synNamedL_def synOrdered_def mkInstantiation_def)
  have assignments: "parameterAssignments synNamedL = Some ?named"
    "parameterAssignments synOrdered = Some ?ordered"
    by (simp_all add: synNamedL_def synOrdered_def mkInstantiation_def)
  have able: "instantiable exampleCompilation topScope defLM synNamedL"
    "instantiable exampleCompilation topScope defLM synOrdered"
    by (simp_all add: instantiable_def parametersMatchSyntax_def defLM_def paramL_def paramP_def
        synNamedL_def synOrdered_def mkInstantiation_def instanceU_def)
  have params: "parameters defLM = [paramL, paramP]"
    by (simp add: defLM_def)
  have local: "\<forall>q \<in> set (parameters defLM).
                 paramName q = paramName (parameters defLM ! 0) \<longrightarrow> isLocalParam q"
    "(0::nat) < length (parameters defLM)"
    by (simp_all add: params paramL_def paramP_def)
  have second: "(1::nat) < length (parameters defLM)" "parameters defLM ! 1 = paramP"
    "paramName paramP = ''P''" "paramKind paramP = Parameter"
    by (simp_all add: params paramP_def)
  have counts: "length (filter (\<lambda>p. isLocalParam p \<and> isPortParam p
                                 \<and> paramName p \<in> set (collectedNames ?named)) (parameters defLM)) = 1"
    "length (filter (\<lambda>p. isLocalParam p \<and> \<not> isPortParam p
                                 \<and> paramName p \<in> set (collectedNames ?named)) (parameters defLM)) = 0"
    by (simp_all add: params paramL_def paramP_def collectedNames_def)
  have notLocal: "\<not> (\<exists>p \<in> set (parameters defLM). paramName p = ''L'' \<and> \<not> isLocalParam p)"
    by (simp add: params paramL_def paramP_def)
  have pairs: "map_of (zip (map paramName (filter (\<lambda>p. \<not> isLocalParam p) (parameters defLM)))
                 (orderedExprs ?ordered)) ''P'' = Some (lit ''5'')"
    by (simp add: params paramL_def paramP_def)

  from local_parameter_assignment [OF resolved(1) assignments(1) able(1), of "[]" "[]"]
  obtain rn dn where
    runN: "fromSyntax exampleCompilation synNamedL topScope [] [] = Inr (rn, dn)" and
    portN: "countDiags AssignedToLocalPortParam (emitted [] dn) = 1" and
    bodyN: "countDiags AssignedToLocalBodyParam (emitted [] dn) = 0" and
    overN: "\<forall>n e. paramOverridesOf defLM (Some ?named) n = Some e \<longrightarrow>
          (\<exists>p \<in> set (parameters defLM). paramName p = n \<and> \<not> isLocalParam p)" and
    defN: "\<forall>inst \<in> set (createdInstances [] rn). \<forall>i < length (parameters defLM).
          (\<forall>q \<in> set (parameters defLM).
              paramName q = paramName (parameters defLM ! i) \<longrightarrow> isLocalParam q) \<longrightarrow>
          holdsDefault (parameters defLM ! i) (parameterMembers (instanceMembers inst) ! i)"
    unfolding counts by auto
  have "length (createdInstances [] rn) = 1"
    using runN unfolding fromSyntax_synNamedL by (auto simp: createdInstances_def emitted_def)
  then obtain instN where oneN: "createdInstances [] rn = [instN]"
    by (cases "createdInstances [] rn") auto
  have holdsN: "holdsDefault paramL (parameterMembers (instanceMembers instN) ! 0)"
    using defN local oneN params by auto
  have noneN: "paramOverridesOf defLM (Some ?named) ''L'' = None"
    using overN notLocal by (cases "paramOverridesOf defLM (Some ?named) ''L''") auto

  from local_parameter_assignment [OF resolved(2) assignments(2) able(2), of "[]" "[]"]
  obtain ro dr where
    runO: "fromSyntax exampleCompilation synOrdered topScope [] [] = Inr (ro, dr)" and
    portO: "countDiags AssignedToLocalPortParam (emitted [] dr) = 0" and
    bodyO: "countDiags AssignedToLocalBodyParam (emitted [] dr) = 0" and
    mapO: "paramOverridesOf defLM (Some ?ordered)
              = map_of (zip (map paramName (filter (\<lambda>p. \<not> isLocalParam p) (parameters defLM)))
                            (orderedExprs ?ordered))" and
    overO: "\<forall>n e. paramOverridesOf defLM (Some ?ordered) n = Some e \<longrightarrow>
          (\<exists>p \<in> set (parameters defLM). paramName p = n \<and> \<not> isLocalParam p)" and
    defO: "\<forall>inst \<in> set (createdInstances [] ro). \<forall>i < length (parameters defLM).
          (\<forall>q \<in> set (parameters defLM).
              paramName q = paramName (parameters defLM ! i) \<longrightarrow> isLocalParam q) \<longrightarrow>
          holdsDefault (parameters defLM ! i) (parameterMembers (instanceMembers inst) ! i)" and
    takenO: "\<forall>inst \<in> set (createdInstances [] ro). \<forall>i < length (parameters defLM). \<forall>e.
          paramOverridesOf defLM (Some ?ordered) (paramName (parameters defLM ! i)) = Some e
          \<and> paramKind (parameters defLM ! i) = Parameter \<longrightarrow>
          parameterMembers (instanceMembers inst) ! i
            = (parameters defLM ! i)\<lparr>initializer := Some e, resolution := ResolvedInContext\<rparr>"
    by auto
  have "length (createdInstances [] ro) = 1"
    using runO unfolding fromSyntax_synOrdered by (auto simp: createdInstances_def emitted_def)
  then obtain instO where oneO: "createdInstances [] ro = [instO]"
    by (cases "createdInstances [] ro") auto
  have holdsO: "holdsDefault paramL (parameterMembers (instanceMembers instO) ! 0)"
    using defO local oneO params by auto
  have noneO: "paramOverridesOf defLM (Some ?ordered) ''L'' = None"
    using overO notLocal by (cases "paramOverridesOf defLM (Some ?ordered) ''L''") auto
  have someO: "paramOverridesOf defLM (Some ?ordered) ''P'' = Some (lit ''5'')"
    unfolding mapO by (rule pairs)
  have valueO: "parameterMembers (instanceMembers instO) ! 1
             = paramP\<lparr>initializer := Some (lit ''5''), resolution := ResolvedInContext\<rparr>"
    using takenO oneO second someO by auto

  have named: "\<exists>results' diags' inst.
         fromSyntax exampleCompilation synNamedL topScope [] [] = Inr (results', diags')
         \<and> countDiags AssignedToLocalPortParam (emitted [] diags') = 1
         \<and> countDiags AssignedToLocalBodyParam (emitted [] diags') = 0
         \<and> paramOverridesOf defLM (Some ?named) ''L'' = None
         \<and> createdInstances [] results' = [inst]
         \<and> holdsDefault paramL (parameterMembers (instanceMembers inst) ! 0)"
    using runN portN bodyN noneN oneN holdsN by blast
  have ordered: "\<exists>results' diags' inst.
         fromSyntax exampleCompilation synOrdered topScope [] [] = Inr (results', diags')
         \<and> countDiags AssignedToLocalPortParam (emitted [] diags') = 0
         \<and> countDiags AssignedToLocalBodyParam (emitted [] diags') = 0
         \<and> paramOverridesOf defLM (Some ?ordered) ''L'' = None
         \<and> paramOverridesOf defLM (Some ?ordered) ''P'' = Some (lit ''5'')
         \<and> createdInstances [] results' = [inst]
         \<and> holdsDefault paramL (parameterMembers (instanceMembers inst) ! 0)
         \<and> parameterMembers (instanceMembers inst) ! 1
             = paramP\<lparr>initializer := Some (lit ''5''), resolution := ResolvedInContext\<rparr>"
    using runO portO bodyO noneO someO oneO holdsO valueO by blast
  show ?thesis
    using resolved assignments able params named ordered by blast
qed

text \<open>
  The claim as the specification words it fails in three ways. In \<open>lm #(5) u();\<close> the one
  ordered assignment stands at the position of the local port parameter \<open>L\<close>, and no
  diagnostic at all is added; its value goes to \<open>P\<close>. In \<open>lm #(5, .L(2)) u();\<close> a named
  assignment names \<open>L\<close>, and the only diagnostic is \<open>MixingOrderedAndNamedParams\<close>. And where a
  local parameter shares its name with a parameter that is not local, as the second \<open>X\<close> of
  \<open>d\<close> does, the local parameter is overridden: in \<open>d #(.X(5)) u();\<close>, which is given an
  \<open>AssignedToLocalPortParam\<close>, and in \<open>d #(5) u();\<close>, which is given no diagnostic, the
  instance holds the local \<open>X\<close> with the initializer 5.
\<close>

theorem local_parameter_ordered_counterexample:
  "getDefinition exampleCompilation (typeName synOrdered) topScope = Some defLM
   \<and> parameters defLM = [paramL, paramP]
   \<and> isLocalParam paramL \<and> isPortParam paramL
   \<and> parameterAssignments synOrdered = Some [OrderedArgument (lit ''5'')]
   \<and> fromSyntax exampleCompilation synOrdered topScope [] []
       = Inr ([InstanceSym \<lparr>instanceKind = ModuleInstance, instanceSymbolName = ''u'',
                 definitionOf = defLM, hierarchyDepth = 1, arrayPath = [],
                 instanceMembers = [ParameterMember (paramL\<lparr>resolution := Cleared\<rparr>),
                                    ParameterMember (paramP\<lparr>initializer := Some (lit ''5''),
                                                            resolution := ResolvedInContext\<rparr>)],
                 portConnections = Some []\<rparr>],
              [])
   \<and> parameterAssignments synMixed
       = Some [OrderedArgument (lit ''5''), NamedArgument ''L'' (Some (lit ''2''))]
   \<and> (\<exists>results'. fromSyntax exampleCompilation synMixed topScope [] []
                     = Inr (results', [Diag MixingOrderedAndNamedParams []]))
   \<and> getDefinition dupCompilation (typeName synDupNamed) topScope = Some defDup
   \<and> getDefinition dupCompilation (typeName synDupOrdered) topScope = Some defDup
   \<and> parameters defDup = [paramX, paramLX]
   \<and> isLocalParam paramLX \<and> initializer paramLX = Some (lit ''8'')
   \<and> parameterAssignments synDupNamed = Some [NamedArgument ''X'' (Some (lit ''5''))]
   \<and> fromSyntax dupCompilation synDupNamed topScope [] []
       = Inr ([InstanceSym \<lparr>instanceKind = ModuleInstance, instanceSymbolName = ''u'',
                 definitionOf = defDup, hierarchyDepth = 1, arrayPath = [],
                 instanceMembers = [ParameterMember (paramX\<lparr>initializer := Some (lit ''5''),
                                                         resolution := ResolvedInContext\<rparr>),
                                    ParameterMember (paramLX\<lparr>initializer := Some (lit ''5''),
                                                          resolution := ResolvedInContext\<rparr>)],
                 portConnections = Some []\<rparr>],
              [Diag AssignedToLocalPortParam []])
   \<and> parameterAssignments synDupOrdered = Some [OrderedArgument (lit ''5'')]
   \<and> fromSyntax dupCompilation synDupOrdered topScope [] []
       = Inr ([InstanceSym \<lparr>instanceKind = ModuleInstance, instanceSymbolName = ''u'',
                 definitionOf = defDup, hierarchyDepth = 1, arrayPath = [],
                 instanceMembers = [ParameterMember (paramX\<lparr>initializer := Some (lit ''5''),
                                                         resolution := ResolvedInContext\<rparr>),
                                    ParameterMember (paramLX\<lparr>initializer := Some (lit ''5''),
                                                          resolution := ResolvedInContext\<rparr>)],
                 portConnections = Some []\<rparr>],
              [])"
  by (simp add: fromSyntax_synOrdered fromSyntax_synMixed fromSyntax_synDupNamed
        fromSyntax_synDupOrdered)
     (simp add: exampleCompilation_def dupCompilation_def synOrdered_def synMixed_def
        synDupNamed_def synDupOrdered_def mkInstantiation_def defLM_def defDup_def paramL_def
        paramLX_def)

section \<open>Implicit nets\<close>

lemma count_list_filter:
  "P x \<Longrightarrow> count_list (filter P xs) x = count_list xs x"
  by (induction xs) auto

lemma count_list_distinct_map:
  assumes "inj f" "distinct xs"
  shows "count_list (map f xs) (f x) = (if x \<in> set xs then 1 else 0)"
  using assms(2)
proof (induction xs)
  case Nil
  then show ?case by simp
next
  case (Cons y ys)
  then show ?case
    using assms(1) by (auto simp: inj_eq)
qed

lemma fromSyntax_synNets:
  "fromSyntax exampleCompilation synNets topScope [] []
     = Inr ([NetSym ''a'' Wire LogicType, NetSym ''b'' Wire LogicType,
             InstanceSym \<lparr>instanceKind = ModuleInstance, instanceSymbolName = ''u'',
               definitionOf = defM, hierarchyDepth = 1, arrayPath = [],
               instanceMembers = [ParameterMember (paramP\<lparr>resolution := Cleared\<rparr>)],
               portConnections = Some (connections instanceNets)\<rparr>],
            [])"
  by code_simp

lemma fromSyntax_synNets_none:
  "fromSyntax exampleCompilation synNets noneScope [] []
     = Inr ([InstanceSym \<lparr>instanceKind = ModuleInstance, instanceSymbolName = ''u'',
               definitionOf = defM, hierarchyDepth = 1, arrayPath = [],
               instanceMembers = [ParameterMember (paramP\<lparr>resolution := Cleared\<rparr>)],
               portConnections = Some (connections instanceNets)\<rparr>],
            [])"
  by code_simp

lemma fromSyntax_synNets_deep:
  "fromSyntax exampleCompilation synNets deepScope [] []
     = Inr ([], [Diag MaxInstanceDepthExceeded [Number 4]])"
  by code_simp

lemma fromSyntax_synUnknown:
  "fromSyntax exampleCompilation synUnknown topScope [] []
     = Inr ([], [Diag UnknownModule [Text ''unknown'']])"
  by code_simp

lemma implicitNetCandidates_synNets:
  "implicitNetCandidates exampleCompilation sc (instances synNets) = [''a'', ''a'', ''b'']"
  by (simp add: implicitNetCandidates_def connectionTokens_def synNets_def mkInstantiation_def
      instanceNets_def exampleCompilation_def nameExpr_def)

lemma implicitNetCandidates_synUnknown:
  "implicitNetCandidates exampleCompilation sc (instances synUnknown) = [''a'', ''a'', ''b'']"
  by (simp add: implicitNetCandidates_def connectionTokens_def synUnknown_def mkInstantiation_def
      instanceNets_def exampleCompilation_def nameExpr_def)

text \<open>
  C7, as the code has it. The candidates of an instantiation are the names that
  \<open>findPotentiallyImplicitNets\<close> reports for the expressions of its ordered and named port
  connections. If the definition does not resolve, or if it resolves and the depth is
  exceeded, \<open>fromSyntax\<close> returns the results it was given: no net is added, whatever the
  candidates and the default net type. If the definition resolves, the depth is within the
  limit and the instances can be created, \<open>fromSyntax\<close> returns; every net among the symbols
  it added has the default net type of the scope and the data type \<open>logic\<close>; and for every
  name, the symbols added hold the net of that name, of the default net type and of type
  \<open>logic\<close>, exactly once when the name is a candidate and the default net type is not \<open>none\<close>,
  and not at all otherwise. So a name connected several times, or in several instances of
  the statement, gets one net, and under the default net type \<open>none\<close> no net is added.
\<close>

theorem implicit_nets:
  "(getDefinition compilation (typeName syn) scope = None \<longrightarrow>
      (\<exists>diags'. fromSyntax compilation syn scope results diags = Inr (results, diags')))
   \<and> (getDefinition compilation (typeName syn) scope = Some defn
        \<and> computeHierarchyDepth (maxInstanceDepth compilation) scope = None \<longrightarrow>
      (\<exists>diags'. fromSyntax compilation syn scope results diags = Inr (results, diags')))
   \<and> (getDefinition compilation (typeName syn) scope = Some defn
        \<and> computeHierarchyDepth (maxInstanceDepth compilation) scope = Some depth
        \<and> instantiable compilation scope defn syn \<longrightarrow>
      (\<exists>results' diags'.
         fromSyntax compilation syn scope results diags = Inr (results', diags')
         \<and> (\<forall>s \<in> set (emitted results results'). isNetSym s \<longrightarrow>
               (\<exists>t. s = NetSym t (defaultNetType scope) LogicType))
         \<and> (\<forall>t. count_list (emitted results results') (NetSym t (defaultNetType scope) LogicType)
                  = (if t \<in> set (implicitNetCandidates compilation scope (instances syn))
                        \<and> \<not> isError (defaultNetType scope)
                     then 1 else 0))
         \<and> (isError (defaultNetType scope) \<longrightarrow> filter isNetSym (emitted results results') = [])))"
proof (intro conjI impI)
  assume "getDefinition compilation (typeName syn) scope = None"
  from fromSyntax_unknown [OF this]
  show "\<exists>diags'. fromSyntax compilation syn scope results diags = Inr (results, diags')"
    by blast
next
  assume "getDefinition compilation (typeName syn) scope = Some defn
        \<and> computeHierarchyDepth (maxInstanceDepth compilation) scope = None"
  then show "\<exists>diags'. fromSyntax compilation syn scope results diags = Inr (results, diags')"
    using fromSyntax_exceeded [of compilation syn scope defn results diags] by blast
next
  assume a: "getDefinition compilation (typeName syn) scope = Some defn
        \<and> computeHierarchyDepth (maxInstanceDepth compilation) scope = Some depth
        \<and> instantiable compilation scope defn syn"
  then have resolved: "getDefinition compilation (typeName syn) scope = Some defn"
    and depth: "computeHierarchyDepth (maxInstanceDepth compilation) scope = Some depth"
    and able: "instantiable compilation scope defn syn"
    by simp_all
  obtain results' diags' where
    run: "fromSyntax compilation syn scope results diags = Inr (results', diags')"
    using fromSyntax_returns [OF resolved able] by blast
  let ?net = "\<lambda>t. NetSym t (defaultNetType scope) LogicType"
  from fromSyntax_created [OF resolved depth run] obtain new added where
    new: "results' = results @ new" and
    nets: "filter isNetSym new = map ?net added" and
    dist: "distinct added" and
    added: "set added = (if isError (defaultNetType scope) then {}
                         else set (implicitNetCandidates compilation scope (instances syn)))"
    by blast
  have em: "emitted results results' = new"
    unfolding new by (rule emitted_append)
  have shape: "\<forall>s \<in> set new. isNetSym s \<longrightarrow> (\<exists>t. s = ?net t)"
  proof (intro ballI impI)
    fix s
    assume "s \<in> set new" "isNetSym s"
    then have "s \<in> set (filter isNetSym new)"
      by simp
    then show "\<exists>t. s = ?net t"
      unfolding nets by auto
  qed
  have inj: "inj ?net"
    by (simp add: inj_def)
  have count: "count_list new (?net t)
                 = (if t \<in> set (implicitNetCandidates compilation scope (instances syn))
                       \<and> \<not> isError (defaultNetType scope)
                    then 1 else 0)" for t
  proof -
    have "count_list new (?net t) = count_list (filter isNetSym new) (?net t)"
      by (simp add: count_list_filter)
    also have "\<dots> = (if t \<in> set added then 1 else 0)"
      unfolding nets using inj dist by (rule count_list_distinct_map)
    finally show ?thesis
      using added by simp
  qed
  have none: "isError (defaultNetType scope) \<longrightarrow> filter isNetSym new = []"
  proof
    assume "isError (defaultNetType scope)"
    with added have "added = []"
      by simp
    with nets show "filter isNetSym new = []"
      by simp
  qed
  have "fromSyntax compilation syn scope results diags = Inr (results', diags')
     \<and> (\<forall>s \<in> set (emitted results results'). isNetSym s \<longrightarrow>
           (\<exists>t. s = NetSym t (defaultNetType scope) LogicType))
     \<and> (\<forall>t. count_list (emitted results results') (NetSym t (defaultNetType scope) LogicType)
              = (if t \<in> set (implicitNetCandidates compilation scope (instances syn))
                    \<and> \<not> isError (defaultNetType scope)
                 then 1 else 0))
     \<and> (isError (defaultNetType scope) \<longrightarrow> filter isNetSym (emitted results results') = [])"
    unfolding em using run shape count none by blast
  then show "\<exists>results' diags'.
         fromSyntax compilation syn scope results diags = Inr (results', diags')
         \<and> (\<forall>s \<in> set (emitted results results'). isNetSym s \<longrightarrow>
               (\<exists>t. s = NetSym t (defaultNetType scope) LogicType))
         \<and> (\<forall>t. count_list (emitted results results') (NetSym t (defaultNetType scope) LogicType)
                  = (if t \<in> set (implicitNetCandidates compilation scope (instances syn))
                        \<and> \<not> isError (defaultNetType scope)
                     then 1 else 0))
         \<and> (isError (defaultNetType scope) \<longrightarrow> filter isNetSym (emitted results results') = [])"
    by blast
qed

theorem implicit_nets_witness:
  "getDefinition exampleCompilation (typeName synNets) topScope = Some defM
   \<and> computeHierarchyDepth (maxInstanceDepth exampleCompilation) topScope = Some 1
   \<and> instantiable exampleCompilation topScope defM synNets
   \<and> implicitNetCandidates exampleCompilation topScope (instances synNets) = [''a'', ''a'', ''b'']
   \<and> defaultNetType topScope = Wire \<and> \<not> isError Wire
   \<and> (\<exists>results' diags'.
         fromSyntax exampleCompilation synNets topScope [] [] = Inr (results', diags')
         \<and> count_list (emitted [] results') (NetSym ''a'' Wire LogicType) = 1
         \<and> count_list (emitted [] results') (NetSym ''b'' Wire LogicType) = 1
         \<and> count_list (emitted [] results') (NetSym ''clk'' Wire LogicType) = 0)
   \<and> getDefinition exampleCompilation (typeName synNets) noneScope = Some defM
   \<and> computeHierarchyDepth (maxInstanceDepth exampleCompilation) noneScope = Some 1
   \<and> instantiable exampleCompilation noneScope defM synNets
   \<and> isError (defaultNetType noneScope)
   \<and> (\<exists>results' diags'.
         fromSyntax exampleCompilation synNets noneScope [] [] = Inr (results', diags')
         \<and> filter isNetSym (emitted [] results') = [])
   \<and> getDefinition exampleCompilation (typeName synNets) deepScope = Some defM
   \<and> computeHierarchyDepth (maxInstanceDepth exampleCompilation) deepScope = None
   \<and> (\<exists>diags'. fromSyntax exampleCompilation synNets deepScope [] [] = Inr ([], diags'))
   \<and> getDefinition exampleCompilation (typeName synUnknown) topScope = None
   \<and> (\<exists>diags'. fromSyntax exampleCompilation synUnknown topScope [] [] = Inr ([], diags'))"
proof -
  have resolved: "getDefinition exampleCompilation (typeName synNets) topScope = Some defM"
    "getDefinition exampleCompilation (typeName synNets) noneScope = Some defM"
    "getDefinition exampleCompilation (typeName synNets) deepScope = Some defM"
    by (simp_all add: exampleCompilation_def synNets_def mkInstantiation_def)
  have unknown: "getDefinition exampleCompilation (typeName synUnknown) topScope = None"
    by (simp add: exampleCompilation_def synUnknown_def mkInstantiation_def)
  have depth: "computeHierarchyDepth (maxInstanceDepth exampleCompilation) topScope = Some 1"
    "computeHierarchyDepth (maxInstanceDepth exampleCompilation) noneScope = Some 1"
    by (simp_all add: exampleCompilation_def topScope_def noneScope_def)
  have exceeded: "computeHierarchyDepth (maxInstanceDepth exampleCompilation) deepScope = None"
    by (simp add: exampleCompilation_def deepScope_def)
  have able: "instantiable exampleCompilation topScope defM synNets"
    "instantiable exampleCompilation noneScope defM synNets"
    by (simp_all add: instantiable_def parametersMatchSyntax_def defM_def paramP_def synNets_def
        mkInstantiation_def instanceNets_def)
  have netTypes: "defaultNetType topScope = Wire" "\<not> isError Wire"
    "isError (defaultNetType noneScope)"
    by (simp_all add: topScope_def noneScope_def isError_def)
  note candidates = implicitNetCandidates_synNets
  from implicit_nets [of exampleCompilation synNets topScope "[]" "[]" defM 1]
    resolved(1) depth(1) able(1)
  have "\<exists>results' diags'.
         fromSyntax exampleCompilation synNets topScope [] [] = Inr (results', diags')
         \<and> (\<forall>t. count_list (emitted [] results') (NetSym t (defaultNetType topScope) LogicType)
                  = (if t \<in> set (implicitNetCandidates exampleCompilation topScope (instances synNets))
                        \<and> \<not> isError (defaultNetType topScope)
                     then 1 else 0))"
    by blast
  then have wire: "\<exists>results' diags'.
         fromSyntax exampleCompilation synNets topScope [] [] = Inr (results', diags')
         \<and> count_list (emitted [] results') (NetSym ''a'' Wire LogicType) = 1
         \<and> count_list (emitted [] results') (NetSym ''b'' Wire LogicType) = 1
         \<and> count_list (emitted [] results') (NetSym ''clk'' Wire LogicType) = 0"
    unfolding candidates netTypes
    by (elim exE conjE) (intro exI conjI, assumption, simp_all add: isError_def)
  from implicit_nets [of exampleCompilation synNets noneScope "[]" "[]" defM 1]
    resolved(2) depth(2) able(2)
  have none: "\<exists>results' diags'.
         fromSyntax exampleCompilation synNets noneScope [] [] = Inr (results', diags')
         \<and> filter isNetSym (emitted [] results') = []"
    using netTypes(3) by blast
  from implicit_nets [of exampleCompilation synNets deepScope "[]" "[]" defM] resolved(3) exceeded
  have deep: "\<exists>diags'. fromSyntax exampleCompilation synNets deepScope [] [] = Inr ([], diags')"
    by blast
  from implicit_nets [of exampleCompilation synUnknown topScope "[]" "[]"] unknown
  have missing: "\<exists>diags'. fromSyntax exampleCompilation synUnknown topScope [] [] = Inr ([], diags')"
    by blast
  show ?thesis
    using resolved unknown depth exceeded able candidates netTypes wire none deep missing
    by blast
qed

text \<open>
  The claim as the specification words it fails for an instantiation that creates no
  instance. The connections of the instance \<open>u\<close> of \<open>synNets\<close> have the candidates \<open>a\<close> and
  \<open>b\<close> and the default net type is \<open>wire\<close>; in a scope at depth 4, with a maximum instance
  depth of 4, no net is added, and neither is one for the same connections of an unknown
  module: \<open>fromSyntax\<close> returns before the loop that creates the nets.
\<close>

theorem implicit_nets_counterexample:
  "implicitNetCandidates exampleCompilation deepScope (instances synNets) = [''a'', ''a'', ''b'']
   \<and> \<not> isError (defaultNetType deepScope)
   \<and> fromSyntax exampleCompilation synNets deepScope [] []
       = Inr ([], [Diag MaxInstanceDepthExceeded [Number 4]])
   \<and> implicitNetCandidates exampleCompilation topScope (instances synUnknown)
       = [''a'', ''a'', ''b'']
   \<and> \<not> isError (defaultNetType topScope)
   \<and> fromSyntax exampleCompilation synUnknown topScope [] []
       = Inr ([], [Diag UnknownModule [Text ''unknown'']])"
  by (simp add: implicitNetCandidates_synNets implicitNetCandidates_synUnknown
      fromSyntax_synNets_deep fromSyntax_synUnknown)
     (simp add: deepScope_def topScope_def isError_def)

section \<open>One parameter vector for all the instances of an instantiation\<close>









section \<open>The limit on the depth of the hierarchy\<close>

lemma assignmentDiags_none: "assignmentDiags defn None = []"
  by (simp add: assignmentDiags_def buildParamOverrides_def)

lemma localDiag_code:
  "diagCode (localDiag p) = AssignedToLocalPortParam \<or> diagCode (localDiag p) = AssignedToLocalBodyParam"
  by (simp add: localDiag_def)

lemma assignmentDiags_codes:
  assumes "d \<in> set (assignmentDiags defn assignments)"
  shows "diagCode d \<noteq> MaxInstanceDepthExceeded"
proof (cases assignments)
  case None
  with assms show ?thesis by (simp add: assignmentDiags_none)
next
  case (Some ps)
  obtain ov diags' where run: "buildParamOverrides defn (Some ps) [] = (ov, diags')"
    by (cases "buildParamOverrides defn (Some ps) []") auto
  then have d: "d \<in> set diags'"
    using assms Some by (simp add: assignmentDiags_def)
  show ?thesis
  proof (cases "ps = [] \<or> isOrderedArgument (hd ps)")
    case True
    from buildParamOverrides_ordered_form(1) [OF run True] d show ?thesis
      by auto
  next
    case False
    then obtain n0 e0 rest where ps: "ps = NamedArgument n0 e0 # rest"
      by (cases ps; cases "hd ps") auto
    from buildParamOverrides_named_form(1) [OF run [unfolded ps]] obtain early unused where
      shape: "diags' = early
                 @ map localDiag
                     (filter (\<lambda>p. isLocalParam p
                                \<and> paramName p \<in> set (collectedNames (NamedArgument n0 e0 # rest)))
                        (parameters defn))
                 @ unused" and
      early: "\<forall>d \<in> set early. diagCode d = DuplicateParamAssignment
                              \<or> diagCode d = MixingOrderedAndNamedParams" and
      unused: "\<forall>d \<in> set unused. diagCode d = ParameterDoesNotExist"
      by auto
    from d consider "d \<in> set early" | p where "d = localDiag p" | "d \<in> set unused"
      unfolding shape by auto
    then show ?thesis
    proof cases
      case 1
      with early show ?thesis by fastforce
    next
      case 2
      then show ?thesis by (simp add: localDiag_def)
    next
      case 3
      with unused show ?thesis by fastforce
    qed
  qed
qed

lemma instantiateTop_self:
  "instantiateTop ''m'' defSelf = Inr (selfInstance ''m'' 0 None)"
  by code_simp

lemma getDefinition_self:
  "getDefinition selfCompilation (typeName selfInstantiation) sc = Some defSelf"
  by (simp add: selfCompilation_def selfInstantiation_def)

lemma self_parameters:
  "parameterAssignments selfInstantiation = None"
  "parameterVector defSelf None = []"
  "parameterDiags defSelf None = []"
  "instances selfInstantiation = [\<lparr>instanceName = ''x'', dimensions = [], connections = []\<rparr>]"
  "maxInstanceDepth selfCompilation = 4"
  by (simp_all add: selfInstantiation_def parameterVector_def parameterDiags_def defSelf_def
      selfCompilation_def)

lemma createInstance_self:
  "createInstance defSelf \<lparr>instanceName = ''x'', dimensions = [], connections = []\<rparr> [] [] d
     = Inr (InstanceSym (selfInstance ''x'' d (Some [])))"
  by (simp add: createInstance_def instantiate_def populate_def newInstance_def selfInstance_def
      defSelf_def)

lemma fromSyntax_self:
  assumes "d \<in> {0, 1, 2, 3}"
  shows "fromSyntax selfCompilation selfInstantiation (Scope ModuleInstance d nt parent) [] diags
           = Inr ([InstanceSym (selfInstance ''x'' (d + 1) (Some []))], diags)"
  using assms unfolding fromSyntax_eq [OF getDefinition_self] self_parameters
  by (auto simp: assignmentDiags_none createImplicitNets_def createInstance_self)

lemma fromSyntax_self_exceeded:
  "fromSyntax selfCompilation selfInstantiation (Scope ModuleInstance 4 nt parent) [] diags
           = Inr ([], diags @ [Diag MaxInstanceDepthExceeded [Number 4]])"
  unfolding fromSyntax_eq [OF getDefinition_self] self_parameters
  by (simp add: assignmentDiags_none)

lemma selfInstance_fields:
  "instanceKind (selfInstance n d c) = ModuleInstance"
  "hierarchyDepth (selfInstance n d c) = d"
  "definitionNetType (definitionOf (selfInstance n d c)) = Wire"
  "instanceMembers (selfInstance n d c) = [DeferredMember (HierarchyInstantiation selfInstantiation)]"
  by (simp_all add: selfInstance_def defSelf_def)

lemma elaborateInstance_self:
  assumes "d \<in> {0, 1, 2, 3}"
  shows "elaborateInstance (Suc f) selfCompilation parent (selfInstance n d c) diags
     = (case elaborateInstance f selfCompilation (Some (Scope ModuleInstance d Wire parent))
               (selfInstance ''x'' (d + 1) (Some [])) diags of
          Inl e \<Rightarrow> Inl e
        | Inr (h, diags') \<Rightarrow> Inr (HNode (selfInstance n d c) [h], diags'))"
  by (simp add: selfInstance_fields fromSyntax_self [OF assms] split: sum.splits prod.splits)

lemma elaborateInstance_self_last:
  "elaborateInstance (Suc f) selfCompilation parent (selfInstance n 4 c) diags
     = Inr (HNode (selfInstance n 4 c) [], diags @ [Diag MaxInstanceDepthExceeded [Number 4]])"
  by (simp add: selfInstance_fields fromSyntax_self_exceeded)

lemma elaborateDesign_self:
  "elaborateDesign (5 + k) selfCompilation ''m'' defSelf
     = Inr (HNode (selfInstance ''m'' 0 None)
              [HNode (selfInstance ''x'' 1 (Some []))
                 [HNode (selfInstance ''x'' 2 (Some []))
                    [HNode (selfInstance ''x'' 3 (Some []))
                       [HNode (selfInstance ''x'' 4 (Some [])) []]]]],
            [Diag MaxInstanceDepthExceeded [Number 4]])"
proof -
  have fuel: "5 + k = Suc (Suc (Suc (Suc (Suc k))))"
    by simp
  show ?thesis
    unfolding fuel elaborateDesign_def instantiateTop_self
    by (simp del: elaborateInstance.simps
        add: elaborateInstance_self elaborateInstance_self_last)
qed

lemma computeHierarchyDepth_nearest:
  "computeHierarchyDepth maxDepth scope
     = (case nearestInstance scope of
          None \<Rightarrow> Some 0
        | Some d \<Rightarrow> if d + 1 > maxDepth then None else Some (d + 1))"
proof (induction scope rule: nearestInstance.induct)
  case (1 k depth nt parent)
  then show ?case
    by (cases parent) simp_all
qed

lemma created_depth:
  assumes "getDefinition compilation (typeName syn) scope = Some defn"
    and "computeHierarchyDepth (maxInstanceDepth compilation) scope = Some depth"
    and "fromSyntax compilation syn scope results diags = Inr (results', diags')"
  shows "\<forall>inst \<in> set (createdInstances results results').
           hierarchyDepth inst = depth
           \<and> instanceKind inst = instanceKindOf (definitionKind defn)"
  by (rule createdInstances_inv [OF assms]) (use createInstance_leaf_fields in auto)

lemma countDiags_exceeded:
  "countDiags MaxInstanceDepthExceeded
     (assignmentDiags defn assignments @ parameterDiags defn assignments) = 0"
proof (rule countDiags_other, rule ballI)
  fix d
  assume "d \<in> set (assignmentDiags defn assignments @ parameterDiags defn assignments)"
  then show "diagCode d \<noteq> MaxInstanceDepthExceeded"
    using assignmentDiags_codes [of d defn assignments]
      parameterDiags_codes [of d defn assignments]
    by auto
qed

text \<open>
  C2. The depth that \<open>fromSyntax\<close> computes for an instantiation in a scope is 0 when no
  symbol on the chain of parents of the scope is an instance, and else one more (in 32-bit
  arithmetic) than the depth of the nearest instance on the chain, the scope itself first;
  it is exceeded when it is greater than the maximum instance depth of the compilation.
  Take an instantiation whose definition resolves. If the depth is exceeded, \<open>fromSyntax\<close>
  returns the results it was given, no symbol added, and the diagnostics it adds hold
  exactly one \<open>MaxInstanceDepthExceeded\<close>. If the depth is within the limit and the instances
  can be created, \<open>fromSyntax\<close> returns, adds no \<open>MaxInstanceDepthExceeded\<close>, and every
  instance it created has that depth. For the design \<open>module m; m x(); endmodule\<close> with a
  maximum instance depth of 4, the elaboration of \<open>m\<close> with any fuel from 5 on returns: the
  hierarchy is a chain of five module instances of the depths 0 to 4, and the diagnostics
  are one \<open>MaxInstanceDepthExceeded\<close>.
\<close>

theorem hierarchy_depth_limit:
  "computeHierarchyDepth (maxInstanceDepth compilation) scope
     = (case nearestInstance scope of
          None \<Rightarrow> Some 0
        | Some d \<Rightarrow> if d + 1 > maxInstanceDepth compilation then None else Some (d + 1))
   \<and> (getDefinition compilation (typeName syn) scope = Some defn
        \<and> computeHierarchyDepth (maxInstanceDepth compilation) scope = None \<longrightarrow>
        (\<exists>new. fromSyntax compilation syn scope results diags = Inr (results, diags @ new)
               \<and> countDiags MaxInstanceDepthExceeded new = 1))
   \<and> (getDefinition compilation (typeName syn) scope = Some defn
        \<and> computeHierarchyDepth (maxInstanceDepth compilation) scope = Some depth
        \<and> instantiable compilation scope defn syn \<longrightarrow>
        (\<exists>results' diags'.
            fromSyntax compilation syn scope results diags = Inr (results', diags')
            \<and> countDiags MaxInstanceDepthExceeded (emitted diags diags') = 0
            \<and> (\<forall>inst \<in> set (createdInstances results results'). hierarchyDepth inst = depth)))
   \<and> (\<forall>k. \<exists>h. elaborateDesign (5 + k) selfCompilation ''m'' defSelf
                    = Inr (h, [Diag MaxInstanceDepthExceeded [Number 4]])
               \<and> map hierarchyDepth (hierarchyInstances h) = [0, 1, 2, 3, 4]
               \<and> map instanceKind (hierarchyInstances h)
                   = [ModuleInstance, ModuleInstance, ModuleInstance, ModuleInstance, ModuleInstance]
               \<and> nestedChain h)"
proof (intro conjI impI allI)
  show "computeHierarchyDepth (maxInstanceDepth compilation) scope
     = (case nearestInstance scope of
          None \<Rightarrow> Some 0
        | Some d \<Rightarrow> if d + 1 > maxInstanceDepth compilation then None else Some (d + 1))"
    by (rule computeHierarchyDepth_nearest)
next
  assume a: "getDefinition compilation (typeName syn) scope = Some defn
        \<and> computeHierarchyDepth (maxInstanceDepth compilation) scope = None"
  let ?new = "(assignmentDiags defn (parameterAssignments syn)
                 @ parameterDiags defn (parameterAssignments syn))
              @ [Diag MaxInstanceDepthExceeded [Number (unat (maxInstanceDepth compilation))]]"
  have run: "fromSyntax compilation syn scope results diags = Inr (results, diags @ ?new)"
    using fromSyntax_exceeded [of compilation syn scope defn results diags] a by simp
  have "countDiags MaxInstanceDepthExceeded ?new
                   = countDiags MaxInstanceDepthExceeded
                       (assignmentDiags defn (parameterAssignments syn)
                          @ parameterDiags defn (parameterAssignments syn))
                     + countDiags MaxInstanceDepthExceeded
                         [Diag MaxInstanceDepthExceeded
                            [Number (unat (maxInstanceDepth compilation))]]"
    by (rule countDiags_append)
  then have "countDiags MaxInstanceDepthExceeded ?new = 1"
    unfolding countDiags_exceeded by (simp add: countDiags_def)
  with run show "\<exists>new. fromSyntax compilation syn scope results diags = Inr (results, diags @ new)
               \<and> countDiags MaxInstanceDepthExceeded new = 1"
    by blast
next
  assume a: "getDefinition compilation (typeName syn) scope = Some defn
        \<and> computeHierarchyDepth (maxInstanceDepth compilation) scope = Some depth
        \<and> instantiable compilation scope defn syn"
  then obtain results' diags' where
    run: "fromSyntax compilation syn scope results diags = Inr (results', diags')"
    using fromSyntax_returns by blast
  have "emitted diags diags' = assignmentDiags defn (parameterAssignments syn)
                 @ parameterDiags defn (parameterAssignments syn)"
    using fromSyntax_emitted [OF _ run, of defn] a by simp
  then have "countDiags MaxInstanceDepthExceeded (emitted diags diags') = 0"
    by (simp only: countDiags_exceeded)
  moreover have "\<forall>inst \<in> set (createdInstances results results'). hierarchyDepth inst = depth"
    using created_depth [OF _ _ run, of defn depth] a by blast
  ultimately show "\<exists>results' diags'.
            fromSyntax compilation syn scope results diags = Inr (results', diags')
            \<and> countDiags MaxInstanceDepthExceeded (emitted diags diags') = 0
            \<and> (\<forall>inst \<in> set (createdInstances results results'). hierarchyDepth inst = depth)"
    using run by blast
next
  fix k
  show "\<exists>h. elaborateDesign (5 + k) selfCompilation ''m'' defSelf
                    = Inr (h, [Diag MaxInstanceDepthExceeded [Number 4]])
               \<and> map hierarchyDepth (hierarchyInstances h) = [0, 1, 2, 3, 4]
               \<and> map instanceKind (hierarchyInstances h)
                   = [ModuleInstance, ModuleInstance, ModuleInstance, ModuleInstance, ModuleInstance]
               \<and> nestedChain h"
    unfolding elaborateDesign_self by (simp add: selfInstance_fields)
qed

theorem hierarchy_depth_limit_witness:
  "nearestInstance deepScope = Some 4
   \<and> getDefinition exampleCompilation (typeName synNets) deepScope = Some defM
   \<and> computeHierarchyDepth (maxInstanceDepth exampleCompilation) deepScope = None
   \<and> (\<exists>new. fromSyntax exampleCompilation synNets deepScope [] [] = Inr ([], [] @ new)
             \<and> countDiags MaxInstanceDepthExceeded new = 1)
   \<and> nearestInstance topScope = Some 0
   \<and> getDefinition exampleCompilation (typeName synNets) topScope = Some defM
   \<and> computeHierarchyDepth (maxInstanceDepth exampleCompilation) topScope = Some 1
   \<and> instantiable exampleCompilation topScope defM synNets
   \<and> (\<exists>results' diags' inst.
         fromSyntax exampleCompilation synNets topScope [] [] = Inr (results', diags')
         \<and> countDiags MaxInstanceDepthExceeded (emitted [] diags') = 0
         \<and> createdInstances [] results' = [inst]
         \<and> hierarchyDepth inst = 1)"
proof -
  have nearest: "nearestInstance deepScope = Some 4" "nearestInstance topScope = Some 0"
    by (simp_all add: deepScope_def topScope_def)
  have resolved: "getDefinition exampleCompilation (typeName synNets) deepScope = Some defM"
    "getDefinition exampleCompilation (typeName synNets) topScope = Some defM"
    by (simp_all add: exampleCompilation_def synNets_def mkInstantiation_def)
  have depth: "computeHierarchyDepth (maxInstanceDepth exampleCompilation) deepScope = None"
    "computeHierarchyDepth (maxInstanceDepth exampleCompilation) topScope = Some 1"
    by (simp_all add: exampleCompilation_def deepScope_def topScope_def)
  have able: "instantiable exampleCompilation topScope defM synNets"
    by (simp add: instantiable_def parametersMatchSyntax_def defM_def paramP_def synNets_def
        mkInstantiation_def instanceNets_def)
  have exceeded: "\<exists>new. fromSyntax exampleCompilation synNets deepScope [] [] = Inr ([], [] @ new)
             \<and> countDiags MaxInstanceDepthExceeded new = 1"
    using hierarchy_depth_limit [of exampleCompilation deepScope synNets defM "[]" "[]"]
      resolved(1) depth(1) by blast
  from hierarchy_depth_limit [of exampleCompilation topScope synNets defM "[]" "[]" 1]
    resolved(2) depth(2) able
  obtain results' diags' where
    run: "fromSyntax exampleCompilation synNets topScope [] [] = Inr (results', diags')" and
    count: "countDiags MaxInstanceDepthExceeded (emitted [] diags') = 0" and
    depths: "\<forall>inst \<in> set (createdInstances [] results'). hierarchyDepth inst = 1"
    by blast
  have "length (createdInstances [] results') = 1"
    using run unfolding fromSyntax_synNets by (auto simp: createdInstances_def emitted_def)
  then obtain inst where one: "createdInstances [] results' = [inst]"
    by (cases "createdInstances [] results'") auto
  with depths have "hierarchyDepth inst = 1"
    by simp
  with run count one have within: "\<exists>results' diags' inst.
         fromSyntax exampleCompilation synNets topScope [] [] = Inr (results', diags')
         \<and> countDiags MaxInstanceDepthExceeded (emitted [] diags') = 0
         \<and> createdInstances [] results' = [inst]
         \<and> hierarchyDepth inst = 1"
    by blast
  show ?thesis
    using nearest resolved depth able exceeded within by blast
qed

section \<open>Octal escapes that are too big\<close>

lemma scanStringLiteral_raw:
  "scanStringLiteral input raw val diags = (tok, rest, diags')
   \<Longrightarrow> rawText tok @ rest = raw @ input \<and> tokenKind tok = StringLiteralToken"
proof (induction input raw val diags rule: scanStringLiteral.induct)
  case (1 raw val diags)
  then show ?case
    by (auto simp: stringToken_def)
next
  case (2 c rest0 raw val diags)
  show ?case
  proof (cases "c = CHR 0x22 \<or> isNewline c \<or> (c = CHR 0x5C \<and> rest0 = [])")
    case True
    with "2.prems" show ?thesis
      by (auto simp: stringToken_def split: if_splits)
  next
    case stop: False
    show ?thesis
    proof (cases "c = CHR 0x5C")
      case True
      obtain n contribution escapeDiags where
        esc: "scanEscape rest0 = (n, contribution, escapeDiags)"
        by (cases "scanEscape rest0") auto
      from "2.prems" stop True esc have
        "scanStringLiteral (drop n rest0) (raw @ c # take n rest0) (val @ contribution)
           (diags @ escapeDiags) = (tok, rest, diags')"
        by simp
      from "2.IH"(1) [OF _ _ True _ esc [symmetric] refl this] stop True
      show ?thesis
        by simp
    next
      case False
      from "2.prems" stop False have
        "scanStringLiteral rest0 (raw @ [c]) (val @ [c]) diags = (tok, rest, diags')"
        by simp
      from "2.IH"(2) [OF _ _ False this] stop
      show ?thesis
        by simp
    qed
  qed
qed

lemma scanStringLiteral_plain:
  "\<forall>c \<in> set pre. isPlain c \<Longrightarrow>
   scanStringLiteral (pre @ input) raw val diags
     = scanStringLiteral input (raw @ pre) (val @ pre) diags"
  by (induction pre arbitrary: raw val) (simp_all add: isPlain_def)

lemma scanStringLiteral_shift:
  "scanStringLiteral input (r0 @ raw) (v0 @ val) (d0 @ diags)
     = (case scanStringLiteral input raw val diags of
          (tok, rest, new) \<Rightarrow>
            (stringToken (r0 @ rawText tok) (v0 @ valueText tok), rest, d0 @ new))"
proof (induction input raw val diags rule: scanStringLiteral.induct)
  case (1 raw val diags)
  show ?case
    by (simp add: stringToken_def)
next
  case (2 c rest0 raw val diags)
  show ?case
  proof (cases "c = CHR 0x22 \<or> isNewline c \<or> (c = CHR 0x5C \<and> rest0 = [])")
    case True
    then show ?thesis
      by (auto simp: stringToken_def)
  next
    case stop: False
    show ?thesis
    proof (cases "c = CHR 0x5C")
      case True
      obtain n contribution escapeDiags where
        esc: "scanEscape rest0 = (n, contribution, escapeDiags)"
        by (cases "scanEscape rest0") auto
      have "scanStringLiteral (drop n rest0) (r0 @ raw @ c # take n rest0)
              (v0 @ val @ contribution) (d0 @ diags @ escapeDiags)
            = (case scanStringLiteral (drop n rest0) (raw @ c # take n rest0) (val @ contribution)
                      (diags @ escapeDiags) of
                 (tok, rest, new) \<Rightarrow>
                   (stringToken (r0 @ rawText tok) (v0 @ valueText tok), rest, d0 @ new))"
        using stop True by (intro "2.IH"(1) [OF _ _ True _ esc [symmetric] refl]) auto
      then show ?thesis
        using stop True esc by simp
    next
      case False
      have "scanStringLiteral rest0 (r0 @ raw @ [c]) (v0 @ val @ [c]) (d0 @ diags)
            = (case scanStringLiteral rest0 (raw @ [c]) (val @ [c]) diags of
                 (tok, rest, new) \<Rightarrow>
                   (stringToken (r0 @ rawText tok) (v0 @ valueText tok), rest, d0 @ new))"
        using stop False by (intro "2.IH"(2)) auto
      then show ?thesis
        using stop False by simp
    qed
  qed
qed

lemma scanStringLiteral_accumulators:
  "scanStringLiteral input raw val diags
     = (case scanStringLiteral input [] [] [] of
          (tok, rest, new) \<Rightarrow>
            (stringToken (raw @ rawText tok) (val @ valueText tok), rest, diags @ new))"
  using scanStringLiteral_shift [of input raw "[]" val "[]" diags "[]"] by simp

lemma octalDigit_not_escape:
  assumes "isOctalDigit c"
  shows "c \<noteq> CHR ''n''" "c \<noteq> CHR ''t''" "c \<noteq> CHR ''v''" "c \<noteq> CHR ''f''" "c \<noteq> CHR ''a''"
    "c \<noteq> CHR 0x5C" "c \<noteq> CHR 0x22" "c \<noteq> CHR 0x0A" "c \<noteq> CHR 0x0D"
  using assms by (auto simp: isOctalDigit_def)

lemma scanEscape_bad_octal:
  assumes "isOctalDigit d1" "isOctalDigit d2" "isOctalDigit d3"
    and "digitsValue 8 getDigitValue [d1, d2, d3] \<ge> 0x100"
  shows "scanEscape (d1 # d2 # d3 # post) = (3, [], [Diag OctalEscapeCodeTooBig []])"
proof -
  have digits: "takeWhile isOctalDigit (take 2 (d2 # d3 # post)) = [d2, d3]"
    using assms(2,3) by (simp add: numeral_2_eq_2)
  show ?thesis
    unfolding scanEscape.simps digits Let_def
    using assms(1,4) octalDigit_not_escape [OF assms(1)] by simp
qed

lemma scanStringLiteral_bad_octal:
  assumes "isOctalDigit d1" "isOctalDigit d2" "isOctalDigit d3"
    and "digitsValue 8 getDigitValue [d1, d2, d3] \<ge> 0x100"
  shows "scanStringLiteral (CHR 0x5C # d1 # d2 # d3 # post) raw val diags
           = scanStringLiteral post (raw @ [CHR 0x5C, d1, d2, d3]) val
               (diags @ [Diag OctalEscapeCodeTooBig []])"
proof -
  have escape: "scanEscape (d1 # d2 # d3 # post) = (3, [], [Diag OctalEscapeCodeTooBig []])"
    by (rule scanEscape_bad_octal [OF assms])
  have "scanStringLiteral (CHR 0x5C # d1 # d2 # d3 # post) raw val diags
          = scanStringLiteral (drop 3 (d1 # d2 # d3 # post))
              (raw @ CHR 0x5C # take 3 (d1 # d2 # d3 # post)) (val @ [])
              (diags @ [Diag OctalEscapeCodeTooBig []])"
    by (subst scanStringLiteral.simps(2))
       (simp add: escape isNewline_def del: scanStringLiteral.simps scanEscape.simps)
  then show ?thesis
    by (simp add: numeral_3_eq_3 del: scanStringLiteral.simps scanEscape.simps)
qed

text \<open>
  C8. Take a text that begins with a double quote, goes on with characters that are no
  quote, backslash or newline, and then has a backslash and three octal digits whose value
  is \<open>0x100\<close> or more. Wherever the scanner meets such an escape, it takes the four characters
  into the raw text, adds nothing to the value text and adds one \<open>OctalEscapeCodeTooBig\<close>.
  So the token of the text is a string literal; its value text is the characters before the
  escape, unchanged, followed by the value text of what follows the escape; the diagnostics
  added are one \<open>OctalEscapeCodeTooBig\<close> followed by the diagnostics of what follows the
  escape; and the raw text of the token followed by the text that remains is the text.
\<close>

theorem bad_octal_escape:
  assumes "\<forall>c \<in> set pre. isPlain c"
    and "isOctalDigit d1" "isOctalDigit d2" "isOctalDigit d3"
    and "digitsValue 8 getDigitValue [d1, d2, d3] \<ge> 0x100"
  shows "scanStringLiteral (CHR 0x5C # d1 # d2 # d3 # post) raw val diags
           = scanStringLiteral post (raw @ [CHR 0x5C, d1, d2, d3]) val
               (diags @ [Diag OctalEscapeCodeTooBig []])
     \<and> (\<exists>tok rest new tok'.
           lexStringLiteral (CHR 0x22 # pre @ CHR 0x5C # d1 # d2 # d3 # post) diags
             = Some (tok, rest, diags @ Diag OctalEscapeCodeTooBig [] # new)
           \<and> scanStringLiteral post [] [] [] = (tok', rest, new)
           \<and> tokenKind tok = StringLiteralToken
           \<and> valueText tok = pre @ valueText tok'
           \<and> rawText tok @ rest = CHR 0x22 # pre @ CHR 0x5C # d1 # d2 # d3 # post)"
proof
  show "scanStringLiteral (CHR 0x5C # d1 # d2 # d3 # post) raw val diags
           = scanStringLiteral post (raw @ [CHR 0x5C, d1, d2, d3]) val
               (diags @ [Diag OctalEscapeCodeTooBig []])"
    by (rule scanStringLiteral_bad_octal [OF assms(2-5)])
next
  let ?text = "CHR 0x22 # pre @ CHR 0x5C # d1 # d2 # d3 # post"
  obtain tok' rest new where post: "scanStringLiteral post [] [] [] = (tok', rest, new)"
    by (cases "scanStringLiteral post [] [] []") auto
  let ?tok = "stringToken ((CHR 0x22 # pre @ [CHR 0x5C, d1, d2, d3]) @ rawText tok')
                (pre @ valueText tok')"
  have "scanStringLiteral (pre @ CHR 0x5C # d1 # d2 # d3 # post) [CHR 0x22] [] diags
          = scanStringLiteral post ((CHR 0x22 # pre) @ [CHR 0x5C, d1, d2, d3]) pre
              (diags @ [Diag OctalEscapeCodeTooBig []])"
    unfolding scanStringLiteral_plain [OF assms(1)]
    using scanStringLiteral_bad_octal [OF assms(2-5)] by simp
  also have "\<dots> = (?tok, rest, (diags @ [Diag OctalEscapeCodeTooBig []]) @ new)"
    unfolding scanStringLiteral_accumulators
      [of post "(CHR 0x22 # pre) @ [CHR 0x5C, d1, d2, d3]" pre "diags @ [Diag OctalEscapeCodeTooBig []]"]
      post by simp
  finally have run: "lexStringLiteral ?text diags
                       = Some (?tok, rest, diags @ Diag OctalEscapeCodeTooBig [] # new)"
    by (simp add: lexStringLiteral_def)
  have raw: "rawText tok' @ rest = post"
    using scanStringLiteral_raw [OF post] by simp
  have "tokenKind ?tok = StringLiteralToken" "valueText ?tok = pre @ valueText tok'"
    "rawText ?tok @ rest = ?text"
    using raw by (simp_all add: stringToken_def)
  with run post show "\<exists>tok rest new tok'.
           lexStringLiteral ?text diags
             = Some (tok, rest, diags @ Diag OctalEscapeCodeTooBig [] # new)
           \<and> scanStringLiteral post [] [] [] = (tok', rest, new)
           \<and> tokenKind tok = StringLiteralToken
           \<and> valueText tok = pre @ valueText tok'
           \<and> rawText tok @ rest = ?text"
    by blast
qed

theorem bad_octal_escape_witness:
  "list_all isPlain ''literal''
   \<and> isOctalDigit (CHR ''4'') \<and> isOctalDigit (CHR ''0'')
   \<and> digitsValue 8 getDigitValue ''400'' = 0x100
   \<and> (\<exists>tok. lexStringLiteral badOctalText [] = Some (tok, [], [Diag OctalEscapeCodeTooBig []])
            \<and> tokenKind tok = StringLiteralToken
            \<and> valueText tok = ''literal''
            \<and> rawText tok = badOctalText)"
proof -
  have plain: "\<forall>c \<in> set ''literal''. isPlain c"
    by (simp add: isPlain_def isNewline_def)
  have digits: "isOctalDigit (CHR ''4'')" "isOctalDigit (CHR ''0'')"
    by (simp_all add: isOctalDigit_def)
  have code: "digitsValue 8 getDigitValue ''400'' = 0x100"
    by (simp add: digitsValue_def getDigitValue_def)
  have closing: "scanStringLiteral [CHR 0x22] [] [] [] = (stringToken [CHR 0x22] [], [], [])"
    by simp
  from bad_octal_escape [OF plain digits(1) digits(2) digits(2), of "[CHR 0x22]" "[]" "[]" "[]"]
  obtain tok rest new tok' where
    run: "lexStringLiteral (CHR 0x22 # ''literal'' @ CHR 0x5C # ''400'' @ [CHR 0x22]) []
            = Some (tok, rest, [] @ Diag OctalEscapeCodeTooBig [] # new)" and
    post: "scanStringLiteral [CHR 0x22] [] [] [] = (tok', rest, new)" and
    kind: "tokenKind tok = StringLiteralToken" and
    val: "valueText tok = ''literal'' @ valueText tok'" and
    raw: "rawText tok @ rest = CHR 0x22 # ''literal'' @ CHR 0x5C # ''400'' @ [CHR 0x22]"
    unfolding code by auto
  from post have rest: "tok' = stringToken [CHR 0x22] []" "rest = []" "new = []"
    unfolding closing by simp_all
  have "lexStringLiteral badOctalText [] = Some (tok, [], [Diag OctalEscapeCodeTooBig []])"
    using run unfolding rest badOctalText_def by simp
  moreover have "valueText tok = ''literal''"
    using val unfolding rest by (simp add: stringToken_def)
  moreover have "rawText tok = badOctalText"
    using raw unfolding rest badOctalText_def by simp
  ultimately have "\<exists>tok. lexStringLiteral badOctalText [] = Some (tok, [], [Diag OctalEscapeCodeTooBig []])
            \<and> tokenKind tok = StringLiteralToken
            \<and> valueText tok = ''literal''
            \<and> rawText tok = badOctalText"
    using kind by blast
  moreover have "list_all isPlain ''literal''"
    using plain by (simp only: list_all_iff)
  ultimately show ?thesis
    using digits code by blast
qed

end
